(* ===== verification/Prelude.thy ===== *)
theory Prelude
  imports Complex_Main "HOL-Library.Word" "HOL-Library.AList"
begin

text \<open>
  Shared vocabulary of the development: results that are either a raised exception
  (\<open>Inl\<close>) or a value (\<open>Inr\<close>) with their sequencing operator \<open>rbind\<close>, decimal printing of
  integers (the only formatting the f-strings of the program need), bytes, Python
  dictionaries as association lists in insertion order, and the collections of facts the
  component proofs use.
\<close>

named_theorems result_simps \<open>inversion of sequenced computations\<close>
named_theorems wf_simps \<open>unfolding of well-formedness predicates\<close>
named_theorems raises_intros \<open>which exceptions a computation can raise\<close>
named_theorems dict_simps \<open>association lists read as Python dictionaries\<close>

subsection \<open>Results\<close>

type_synonym byte = "8 word"
type_synonym bytes = "byte list"

fun rbind :: "'e + 'a \<Rightarrow> ('a \<Rightarrow> 'e + 'b) \<Rightarrow> 'e + 'b" where
  "rbind (Inl e) f = Inl e"
| "rbind (Inr x) f = f x"

definition guard :: "bool \<Rightarrow> 'e \<Rightarrow> 'e + unit" where
  "guard b e = (if b then Inr () else Inl e)"

text \<open>A loop over a list that stops at the first exception, as a \<open>for\<close> loop or a generator
  expression whose body raises does.\<close>

fun rmap :: "('a \<Rightarrow> 'e + 'b) \<Rightarrow> 'a list \<Rightarrow> 'e + 'b list" where
  "rmap f [] = Inr []"
| "rmap f (x # xs) = rbind (f x) (\<lambda>y. rbind (rmap f xs) (\<lambda>ys. Inr (y # ys)))"

definition raises_only :: "('e \<Rightarrow> bool) \<Rightarrow> 'e + 'a \<Rightarrow> bool" where
  "raises_only P r \<longleftrightarrow> (case r of Inl e \<Rightarrow> P e | Inr _ \<Rightarrow> True)"

fun option_list :: "'a option \<Rightarrow> 'a list" where
  "option_list None = []"
| "option_list (Some x) = [x]"

subsection \<open>Decimal printing\<close>

fun show_nat :: "nat \<Rightarrow> string" where
  "show_nat n =
     (let d = [char_of (48 + n mod 10 :: nat)]
      in if n < 10 then d else show_nat (n div 10) @ d)"

declare show_nat.simps [simp del]

definition show_int :: "int \<Rightarrow> string" where
  "show_int i = (if i < 0 then ''-'' @ show_nat (nat (- i)) else show_nat (nat i))"

subsection \<open>Python dictionaries\<close>

text \<open>
  A dictionary is an association list in insertion order with distinct keys:
  \<open>AList.update\<close> keeps the position of an existing key and appends a new one, and
  \<open>AList.delete\<close> is \<open>pop(key, None)\<close>.
\<close>

type_synonym ('k, 'v) dict = "('k \<times> 'v) list"

definition dict_ok :: "('k, 'v) dict \<Rightarrow> bool" where
  "dict_ok d \<longleftrightarrow> distinct (map fst d)"

definition keys_are :: "('k, 'v) dict \<Rightarrow> 'k list \<Rightarrow> bool" where
  "keys_are d ks \<longleftrightarrow> list_all (\<lambda>k. k \<in> set ks) (map fst d) \<and> list_all (\<lambda>k. k \<in> set (map fst d)) ks"

subsection \<open>Lemmas on results\<close>

lemma rbind_Inr [result_simps]: "rbind m f = Inr y \<longleftrightarrow> (\<exists>x. m = Inr x \<and> f x = Inr y)"
  by (cases m) auto

lemma rbind_Inl [result_simps]:
  "rbind m f = Inl e \<longleftrightarrow> m = Inl e \<or> (\<exists>x. m = Inr x \<and> f x = Inl e)"
  by (cases m) auto

lemma guard_Inr [result_simps]: "guard b e = Inr u \<longleftrightarrow> b"
  by (simp add: guard_def)

lemma guard_Inl [result_simps]: "guard b e = Inl e' \<longleftrightarrow> \<not> b \<and> e' = e"
  by (auto simp: guard_def)

lemma guard_True [simp]: "guard True e = Inr ()"
  by (simp add: guard_def)

lemma guard_False [simp]: "guard False e = Inl e"
  by (simp add: guard_def)

lemma rbind_cong [fundef_cong]:
  "m = m' \<Longrightarrow> (\<And>x. m' = Inr x \<Longrightarrow> f x = g x) \<Longrightarrow> rbind m f = rbind m' g"
  by (cases m') auto

lemma rbind_assoc: "rbind (rbind m f) g = rbind m (\<lambda>x. rbind (f x) g)"
  by (cases m) auto

lemma rmap_Inr_iff:
  "rmap f xs = Inr ys \<longleftrightarrow> list_all2 (\<lambda>x y. f x = Inr y) xs ys"
proof (induction xs arbitrary: ys)
  case Nil
  show ?case by auto
next
  case (Cons x xs)
  then show ?case by (cases ys) (auto simp: result_simps)
qed

lemma raises_only_Inl [simp]: "raises_only P (Inl e) = P e"
  by (simp add: raises_only_def)

lemma raises_only_Inr [simp, raises_intros]: "raises_only P (Inr x)"
  by (simp add: raises_only_def)

lemma raises_only_rbind [raises_intros]:
  "raises_only P m \<Longrightarrow> (\<And>x. m = Inr x \<Longrightarrow> raises_only P (f x)) \<Longrightarrow> raises_only P (rbind m f)"
  by (cases m) simp_all

lemma raises_only_guard [raises_intros]: "P e \<Longrightarrow> raises_only P (guard b e)"
  by (simp add: guard_def)

lemma raises_only_rmap [raises_intros]:
  "(\<And>x. x \<in> set xs \<Longrightarrow> raises_only P (f x)) \<Longrightarrow> raises_only P (rmap f xs)"
proof (induction xs)
  case (Cons x xs)
  have "raises_only P (f x)" "raises_only P (rmap f xs)" using Cons by auto
  then show ?case by (cases "f x"; cases "rmap f xs") auto
qed simp

lemma rmap_length: "rmap f xs = Inr ys \<Longrightarrow> length ys = length xs"
  by (auto simp: rmap_Inr_iff dest: list_all2_lengthD)

lemma rmap_set:
  assumes "rmap f xs = Inr ys" and "y \<in> set ys"
  shows "\<exists>x \<in> set xs. f x = Inr y"
proof -
  from assms(1) have "list_all2 (\<lambda>x y. f x = Inr y) xs ys"
    by (simp add: rmap_Inr_iff)
  then have "\<forall>y \<in> set ys. \<exists>x \<in> set xs. f x = Inr y"
    by (induction rule: list_all2_induct) auto
  with assms(2) show ?thesis by blast
qed

lemma rmap_pure: "(\<And>x. x \<in> set xs \<Longrightarrow> f x = Inr (g x)) \<Longrightarrow> rmap f xs = Inr (map g xs)"
  by (induction xs) auto

lemma rmap_Inl_first:
  "rmap f xs = Inl e \<longleftrightarrow>
     (\<exists>us x vs. xs = us @ x # vs \<and> (\<exists>ys. rmap f us = Inr ys) \<and> f x = Inl e)"
proof (induction xs)
  case Nil
  show ?case by simp
next
  case (Cons a xs)
  show ?case
  proof
    assume "rmap f (a # xs) = Inl e"
    then consider "f a = Inl e" | y where "f a = Inr y" "rmap f xs = Inl e"
      by (auto simp: result_simps)
    then show "\<exists>us x vs. a # xs = us @ x # vs \<and> (\<exists>ys. rmap f us = Inr ys) \<and> f x = Inl e"
    proof cases
      case 1
      then show ?thesis by (intro exI [of _ "[]"] exI [of _ a] exI [of _ xs]) simp
    next
      case 2
      then obtain us x vs ys where "xs = us @ x # vs" "rmap f us = Inr ys" "f x = Inl e"
        using Cons.IH by auto
      with 2 show ?thesis by (intro exI [of _ "a # us"] exI [of _ x] exI [of _ vs]) simp
    qed
  next
    assume "\<exists>us x vs. a # xs = us @ x # vs \<and> (\<exists>ys. rmap f us = Inr ys) \<and> f x = Inl e"
    then obtain us x vs ys where eq: "a # xs = us @ x # vs" and us: "rmap f us = Inr ys"
      and x: "f x = Inl e" by auto
    show "rmap f (a # xs) = Inl e"
    proof (cases us)
      case Nil
      with eq x show ?thesis by simp
    next
      case (Cons u us')
      with eq us x Cons.IH show ?thesis by (fastforce simp: result_simps)
    qed
  qed
qed

subsection \<open>Lemmas on dictionaries\<close>

lemma keys_are_set [dict_simps]: "keys_are d ks \<longleftrightarrow> fst ` set d = set ks"
  by (auto simp: keys_are_def list_all_iff)

lemma keys_are_lookup: "keys_are d ks \<Longrightarrow> k \<in> set ks \<Longrightarrow> \<exists>v. map_of d k = Some v"
  by (metis domIff dom_map_of_conv_image_fst keys_are_set not_None_eq)

lemma dict_ok_update [simp]: "dict_ok d \<Longrightarrow> dict_ok (AList.update k v d)"
  by (simp add: dict_ok_def distinct_update)

lemma dict_ok_delete [simp]: "dict_ok d \<Longrightarrow> dict_ok (AList.delete k d)"
  by (simp add: dict_ok_def distinct_delete)

lemma dict_ok_Nil [simp]: "dict_ok []"
  by (simp add: dict_ok_def)

lemma length_update_new:
  "map_of d k = None \<Longrightarrow> length (AList.update k v d) = Suc (length d)"
  by (induction d) (auto split: if_splits)

lemma length_update_old:
  "map_of d k = Some w \<Longrightarrow> length (AList.update k v d) = length d"
  by (induction d) (auto split: if_splits)

lemma length_delete_dict: "length (AList.delete k d) \<le> length d"
  by (simp add: AList.delete_eq)

lemma map_of_delete_dict [dict_simps]:
  "map_of (AList.delete k d) = (map_of d)(k := None)"
  by (simp add: delete_conv')

lemma map_of_update_dict [dict_simps]:
  "map_of (AList.update k v d) = (map_of d)(k \<mapsto> v)"
  by (simp add: update_conv')

lemma in_dict_iff: "dict_ok d \<Longrightarrow> (k, v) \<in> set d \<longleftrightarrow> map_of d k = Some v"
  by (simp add: dict_ok_def)

lemma set_delete_dict:
  "dict_ok d \<Longrightarrow> (k', v) \<in> set (AList.delete k d) \<longleftrightarrow> k' \<noteq> k \<and> (k', v) \<in> set d"
  by (auto simp: AList.delete_eq)

lemma delete_keeps_value:
  assumes "v \<in> snd ` set d" and "(k, v) \<notin> set d"
  shows "v \<in> snd ` set (AList.delete k d)"
proof -
  from assms obtain j where "(j, v) \<in> set d" "j \<noteq> k" by (metis imageE prod.collapse)
  then have "(j, v) \<in> set (AList.delete k d)" by (simp add: AList.delete_eq)
  then show ?thesis by force
qed

subsection \<open>Other shared lemmas\<close>

lemma option_list_eq_Nil [simp]: "option_list x = [] \<longleftrightarrow> x = None"
  by (cases x) auto

lemma nth_update_if: "j < length xs \<Longrightarrow> xs[i := x] ! j = (if j = i then x else xs ! j)"
  by simp

lemma list_all_nth_update:
  "list_all P xs \<Longrightarrow> P y \<Longrightarrow> list_all P (xs[i := y])"
  by (auto simp: list_all_iff dest!: set_update_subset_insert [THEN subsetD])

end
