(* ===== verification/Py_Values.thy ===== *)
theory Py_Values
  imports Prelude "HOL-Library.Log_Nat"
begin

text \<open>
  The Python values the program handles. A \<open>str\<close> is the list of bytes of its UTF-8
  encoding: equality, emptiness, concatenation, prefix tests, slicing off a prefix and
  sorting agree with Python's operations on code points, and \<open>encode("utf-8")\<close> is the
  identity. A \<open>float\<close> is a rational, an infinity or a NaN; conversion from \<open>int\<close> and
  multiplication round to the nearest binary64 value (ties to even). Values that
  \<open>json.loads\<close> returns are of type \<open>json\<close>, where \<open>bool\<close> and \<open>int\<close> are different
  constructors: the program always tests with \<open>type(value) is int\<close>, which excludes bools.
  Exceptions are the constructors of \<open>exn\<close>, with the message they carry.
\<close>

subsection \<open>Floats\<close>

datatype pyfloat = Fin rat | Infinite bool \<comment> \<open>True is negative infinity\<close> | NaN

fun isfinite :: "pyfloat \<Rightarrow> bool" where
  "isfinite (Fin x) = True"
| "isfinite _ = False"

fun float_le :: "pyfloat \<Rightarrow> pyfloat \<Rightarrow> bool" where
  "float_le NaN y = False"
| "float_le x NaN = False"
| "float_le (Infinite neg) y = (neg \<or> y = Infinite False)"
| "float_le x (Infinite neg) = (\<not> neg)"
| "float_le (Fin x) (Fin y) = (x \<le> y)"

definition float_lt :: "pyfloat \<Rightarrow> pyfloat \<Rightarrow> bool" where
  "float_lt x y \<longleftrightarrow> float_le x y \<and> \<not> float_le y x"

definition round_half_even :: "rat \<Rightarrow> int" where
  "round_half_even x =
     (let f = \<lfloor>x\<rfloor>; d = x - of_int f
      in if d < 1 / 2 then f else if 1 / 2 < d then f + 1 else if even f then f else f + 1)"

text \<open>The exponent of the leading binary digit of a positive rational.\<close>

definition rat_exponent :: "rat \<Rightarrow> int" where
  "rat_exponent x =
     (case quotient_of x of (a, b) \<Rightarrow>
       let e = bitlen a - bitlen b
       in if 2 powi e \<le> x then e else e - 1)"

definition float_of_pos_rat :: "rat \<Rightarrow> rat" where
  "float_of_pos_rat x =
     (let q = max (rat_exponent x - 52) (- 1074)
      in of_int (round_half_even (x / 2 powi q)) * 2 powi q)"

definition float_of_rat :: "rat \<Rightarrow> pyfloat" where
  "float_of_rat x =
     (if x = 0 then Fin 0
      else let r = float_of_pos_rat \<bar>x\<bar>
           in if 2 ^ 1024 \<le> r then Infinite (x < 0) else Fin (if x < 0 then - r else r))"

definition float_mult :: "pyfloat \<Rightarrow> pyfloat \<Rightarrow> pyfloat" where
  "float_mult x y =
     (case (x, y) of
        (Fin a, Fin b) \<Rightarrow> float_of_rat (a * b)
      | (NaN, _) \<Rightarrow> NaN
      | (_, NaN) \<Rightarrow> NaN
      | (Infinite s, Infinite t) \<Rightarrow> Infinite (s \<noteq> t)
      | (Infinite s, Fin b) \<Rightarrow> if b = 0 then NaN else Infinite (s \<noteq> (b < 0))
      | (Fin a, Infinite t) \<Rightarrow> if a = 0 then NaN else Infinite ((a < 0) \<noteq> t))"

text \<open>\<open>int(x)\<close> truncates towards zero.\<close>

definition truncate_rat :: "rat \<Rightarrow> int" where
  "truncate_rat x = (if x < 0 then \<lceil>x\<rceil> else \<lfloor>x\<rfloor>)"

subsection \<open>JSON values\<close>

datatype json =
    JNull
  | JBool bool
  | JInt int
  | JFloat pyfloat
  | JStr string
  | JList "json list"
  | JDict "(string \<times> json) list"

subsection \<open>Statuses and exceptions\<close>

record Status =
  st_code :: string
  st_message :: string

definition Status_make :: "string \<Rightarrow> string \<Rightarrow> Status" where
  "Status_make c m = \<lparr>st_code = c, st_message = m\<rparr>"

definition status_ok :: "Status \<Rightarrow> bool" where
  "status_ok s \<longleftrightarrow> st_code s = ''ok''"

record GatewayError =
  ge_message :: string
  ge_http_status :: int
  ge_error_type :: string
  ge_code :: string
  ge_param :: "string option"

definition GatewayError_make ::
  "string \<Rightarrow> int \<Rightarrow> string \<Rightarrow> string \<Rightarrow> string option \<Rightarrow> GatewayError" where
  "GatewayError_make m h t c p =
     \<lparr>ge_message = m, ge_http_status = h, ge_error_type = t, ge_code = c, ge_param = p\<rparr>"

datatype exn =
    ProtocolError string
  | ValueError string
  | OverflowError string
  | KeyError string
  | RuntimeError string
  | TimeoutError string
  | StopIteration
  | OSError string
  | EOFError string
  | TokenizerError string
  | GatewayConfigError string
  | GenerationClientError string
  | WorkerUnavailableError string
  | ClientCapacityError string
  | RequestRejectedError int Status
  | RaisedGatewayError GatewayError

text \<open>The subclass relations of the exceptions, as \<open>except\<close> clauses test them.\<close>

fun is_ValueError :: "exn \<Rightarrow> bool" where
  "is_ValueError (ValueError _) = True"
| "is_ValueError (ProtocolError _) = True"
| "is_ValueError (GatewayConfigError _) = True"
| "is_ValueError _ = False"

fun is_OSError :: "exn \<Rightarrow> bool" where
  "is_OSError (OSError _) = True"
| "is_OSError (TimeoutError _) = True"
| "is_OSError _ = False"

fun is_GenerationClientError :: "exn \<Rightarrow> bool" where
  "is_GenerationClientError (GenerationClientError _) = True"
| "is_GenerationClientError (WorkerUnavailableError _) = True"
| "is_GenerationClientError (ClientCapacityError _) = True"
| "is_GenerationClientError (RequestRejectedError _ _) = True"
| "is_GenerationClientError _ = False"

definition RequestRejectedError_message :: "int \<Rightarrow> Status \<Rightarrow> string" where
  "RequestRejectedError_message request_id status =
     ''request '' @ show_int request_id @ '' was rejected: '' @ st_code status @ '': '' @ st_message status"

text \<open>\<open>str(exception)\<close>\<close>

fun exn_str :: "exn \<Rightarrow> string" where
  "exn_str (ProtocolError m) = m"
| "exn_str (ValueError m) = m"
| "exn_str (OverflowError m) = m"
| "exn_str (KeyError k) = [CHR 0x27] @ k @ [CHR 0x27]"
| "exn_str (RuntimeError m) = m"
| "exn_str (TimeoutError m) = m"
| "exn_str StopIteration = []"
| "exn_str (OSError m) = m"
| "exn_str (EOFError m) = m"
| "exn_str (TokenizerError m) = m"
| "exn_str (GatewayConfigError m) = m"
| "exn_str (GenerationClientError m) = m"
| "exn_str (WorkerUnavailableError m) = m"
| "exn_str (ClientCapacityError m) = m"
| "exn_str (RequestRejectedError i s) = RequestRejectedError_message i s"
| "exn_str (RaisedGatewayError g) = ge_message g"

type_synonym 'a result = "exn + 'a"

subsection \<open>Conversions and dictionary access\<close>

definition py_getitem :: "(string \<times> json) list \<Rightarrow> string \<Rightarrow> json result" where
  "py_getitem d k = (case map_of d k of None \<Rightarrow> Inl (KeyError k) | Some v \<Rightarrow> Inr v)"

definition py_get :: "(string \<times> json) list \<Rightarrow> string \<Rightarrow> json \<Rightarrow> json" where
  "py_get d k dflt = (case map_of d k of None \<Rightarrow> dflt | Some v \<Rightarrow> v)"

text \<open>\<open>float(value)\<close> on an int raises for an int that rounds past the largest float.\<close>

definition float_of_int :: "int \<Rightarrow> pyfloat result" where
  "float_of_int n =
     (case float_of_rat (of_int n) of
        Fin x \<Rightarrow> Inr (Fin x)
      | _ \<Rightarrow> Inl (OverflowError ''int too large to convert to float''))"

definition int_of_float :: "pyfloat \<Rightarrow> int result" where
  "int_of_float x =
     (case x of
        Fin r \<Rightarrow> Inr (truncate_rat r)
      | Infinite _ \<Rightarrow> Inl (OverflowError ''cannot convert float infinity to integer'')
      | NaN \<Rightarrow> Inl (ValueError ''cannot convert float NaN to integer''))"

definition is_number :: "json \<Rightarrow> bool" where
  "is_number v \<longleftrightarrow> (case v of JInt _ \<Rightarrow> True | JFloat _ \<Rightarrow> True | _ \<Rightarrow> False)"

text \<open>\<open>float(value)\<close> on a value that passed \<open>type(value) in (int, float)\<close>.\<close>

definition py_float :: "json \<Rightarrow> pyfloat result" where
  "py_float v =
     (case v of
        JInt n \<Rightarrow> float_of_int n
      | JFloat x \<Rightarrow> Inr x
      | _ \<Rightarrow> Inl (ValueError ''could not convert to float''))"

subsection \<open>Lemmas\<close>

lemma float_lt_Fin [simp]: "float_lt (Fin x) (Fin y) \<longleftrightarrow> x < y"
  by (auto simp: float_lt_def)

lemma isfinite_iff: "isfinite x \<longleftrightarrow> (\<exists>r. x = Fin r)"
  by (cases x) auto

lemma round_half_even_int [simp]: "round_half_even (of_int n) = n"
  by (simp add: round_half_even_def Let_def)

lemma float_of_huge: "float_of_int (2 ^ 1024) = Inl (OverflowError ''int too large to convert to float'')"
proof -
  have q: "quotient_of (2 ^ 1024 :: rat) = (2 ^ 1024, 1)"
    using quotient_of_rat_of_int [of "2 ^ 1024"] by (simp only: of_int_power of_int_numeral)
  have "bitlen (2 ^ 1024 :: int) = 1025" "bitlen (1 :: int) = 1"
    using bitlen_pow2 [of 1 1024] by (simp_all add: bitlen_def floorlog_def)
  then have e: "rat_exponent (2 ^ 1024) = 1024"
    unfolding rat_exponent_def q by (simp only: prod.case Let_def) (simp add: power_int_def)
  have max1: "max (1024 - 52) (- 1074) = (972 :: int)" by simp
  have "(2 ^ 1024 :: rat) / 2 powi 972 = of_int (2 ^ 52)" by (simp add: power_int_def)
  then have "float_of_pos_rat (2 ^ 1024) = of_int (2 ^ 52) * 2 powi 972"
    unfolding float_of_pos_rat_def e Let_def max1 by (simp only: round_half_even_int)
  also have "\<dots> = 2 ^ 1024" by (simp add: power_int_def)
  finally have r: "float_of_pos_rat (2 ^ 1024) = 2 ^ 1024" .
  have ab: "\<bar>2 ^ 1024 :: rat\<bar> = 2 ^ 1024" by simp
  have "float_of_rat (2 ^ 1024) = Infinite False"
    unfolding float_of_rat_def Let_def ab r by (rule trans [OF if_not_P if_P [THEN trans]]) simp_all
  then show ?thesis unfolding float_of_int_def by (simp only: of_int_power of_int_numeral) simp
qed

lemma py_getitem_Inr [result_simps]: "py_getitem d k = Inr v \<longleftrightarrow> map_of d k = Some v"
  by (auto simp: py_getitem_def split: option.splits)

lemma py_getitem_Inl [result_simps]: "py_getitem d k = Inl e \<longleftrightarrow> map_of d k = None \<and> e = KeyError k"
  by (auto simp: py_getitem_def split: option.splits)

lemma py_getitem_keys:
  "keys_are d ks \<Longrightarrow> k \<in> set ks \<Longrightarrow> \<exists>v. py_getitem d k = Inr v"
  using keys_are_lookup by (fastforce simp: py_getitem_def)

end
