(* ===== verification/Json_Text.thy ===== *)
theory Json_Text
  imports Py_Values
begin

text \<open>
  The text that \<open>json.dumps\<close> writes with \<open>separators=(",", ":")\<close> and
  \<open>ensure_ascii=False\<close>, and its UTF-8 bytes. The decimal text of a float is the parameter
  \<open>frepr\<close> (\<open>float.__repr__\<close> of the interpreter). With \<open>allow_nan=False\<close> a value that holds
  a NaN or an infinity is refused.
\<close>

definition utf8 :: "string \<Rightarrow> bytes" where
  "utf8 s = map (\<lambda>c. of_nat (of_char c)) s"

definition hex_digit :: "nat \<Rightarrow> char" where
  "hex_digit n = char_of (if n < 10 then 48 + n else 87 + n)"

definition escape_char :: "char \<Rightarrow> string" where
  "escape_char c =
     (if c = CHR 0x22 then [CHR 0x5C, CHR 0x22]
      else if c = CHR 0x5C then [CHR 0x5C, CHR 0x5C]
      else if c = CHR 0x0A then [CHR 0x5C, CHR ''n'']
      else if c = CHR 0x0D then [CHR 0x5C, CHR ''r'']
      else if c = CHR 0x09 then [CHR 0x5C, CHR ''t'']
      else if c = CHR 0x0C then [CHR 0x5C, CHR ''f'']
      else if c = CHR 0x08 then [CHR 0x5C, CHR ''b'']
      else if of_char c < (32 :: nat)
      then [CHR 0x5C, CHR ''u'', CHR ''0'', CHR ''0'',
            hex_digit (of_char c div 16), hex_digit (of_char c mod 16)]
      else [c])"

definition quote_string :: "string \<Rightarrow> string" where
  "quote_string s = [CHR 0x22] @ concat (map escape_char s) @ [CHR 0x22]"

fun join :: "string \<Rightarrow> string list \<Rightarrow> string" where
  "join sep [] = []"
| "join sep [x] = x"
| "join sep (x # y # ys) = x @ sep @ join sep (y # ys)"

fun json_text :: "(rat \<Rightarrow> string) \<Rightarrow> json \<Rightarrow> string" where
  "json_text frepr JNull = ''null''"
| "json_text frepr (JBool b) = (if b then ''true'' else ''false'')"
| "json_text frepr (JInt n) = show_int n"
| "json_text frepr (JFloat (Fin x)) = frepr x"
| "json_text frepr (JFloat (Infinite neg)) = (if neg then ''-Infinity'' else ''Infinity'')"
| "json_text frepr (JFloat NaN) = ''NaN''"
| "json_text frepr (JStr s) = quote_string s"
| "json_text frepr (JList xs) = ''['' @ join '','' (map (json_text frepr) xs) @ '']''"
| "json_text frepr (JDict d) =
     ''{'' @ join '','' (map (\<lambda>(k, v). quote_string k @ '':'' @ json_text frepr v) d) @ ''}''"

fun json_finite :: "json \<Rightarrow> bool" where
  "json_finite (JFloat x) = isfinite x"
| "json_finite (JList xs) = list_all json_finite xs"
| "json_finite (JDict d) = list_all (\<lambda>(k, v). json_finite v) d"
| "json_finite _ = True"

definition json_dumps :: "(rat \<Rightarrow> string) \<Rightarrow> bool \<Rightarrow> json \<Rightarrow> string result" where
  "json_dumps frepr allow_nan v =
     (if allow_nan \<or> json_finite v then Inr (json_text frepr v)
      else Inl (ValueError ''Out of range float values are not JSON compliant''))"

subsection \<open>Lemmas\<close>

lemma utf8_eq_Nil [simp]: "utf8 s = [] \<longleftrightarrow> s = []"
  by (simp add: utf8_def)

lemma length_utf8 [simp]: "length (utf8 s) = length s"
  by (simp add: utf8_def)

lemma utf8_append [simp]: "utf8 (s @ t) = utf8 s @ utf8 t"
  by (simp add: utf8_def)

lemma json_text_dict_ne [simp]: "json_text frepr (JDict d) \<noteq> []"
  by simp

lemma byte_of_char_inj: "(of_nat (of_char x) :: byte) = of_nat (of_char y) \<longleftrightarrow> x = y"
proof
  assume "(of_nat (of_char x) :: byte) = of_nat (of_char y)"
  moreover have "of_char x < (256 :: nat)" "of_char y < (256 :: nat)" by simp_all
  ultimately have "(of_char x :: nat) = of_char y"
    by (simp add: word_of_nat_eq_iff take_bit_eq_mod)
  then show "x = y" by simp
qed simp

lemma utf8_inject: "utf8 s = utf8 u \<longleftrightarrow> s = u"
proof -
  have "inj (\<lambda>c. of_nat (of_char c) :: byte)" by (rule injI) (simp add: byte_of_char_inj)
  then show ?thesis by (simp add: utf8_def inj_map_eq_map)
qed

subsection \<open>Rendered values are self-delimiting\<close>

definition hex_value :: "char \<Rightarrow> nat" where
  "hex_value c = (if of_char c < (58 :: nat) then of_char c - 48 else of_char c - 87)"

lemma hex_value_digit: "n < 16 \<Longrightarrow> hex_value (hex_digit n) = n"
  by (simp add: hex_value_def hex_digit_def)

text \<open>Reading one escaped character back.\<close>

fun unescape :: "string \<Rightarrow> char \<times> string" where
  "unescape (c # d # r) =
     (if c \<noteq> CHR 0x5C then (c, d # r)
      else if d = CHR ''n'' then (CHR 0x0A, r)
      else if d = CHR ''r'' then (CHR 0x0D, r)
      else if d = CHR ''t'' then (CHR 0x09, r)
      else if d = CHR ''f'' then (CHR 0x0C, r)
      else if d = CHR ''b'' then (CHR 0x08, r)
      else if d = CHR ''u'' then (char_of (16 * hex_value (r ! 2) + hex_value (r ! 3)), drop 4 r)
      else (d, r))"
| "unescape s = (CHR 0x00, [])"

lemma unescape_escape: "u \<noteq> [] \<Longrightarrow> unescape (escape_char c @ u) = (c, u)"
proof (cases "of_char c < (32 :: nat)")
  case True
  then have "16 * hex_value (hex_digit (of_char c div 16)) + hex_value (hex_digit (of_char c mod 16)) = (of_char c :: nat)"
    by (subst (1 2) hex_value_digit) auto
  moreover assume "u \<noteq> []"
  ultimately show ?thesis using True by (auto simp: escape_char_def)
next
  case False
  assume "u \<noteq> []"
  then obtain x xs where "u = x # xs" by (cases u) auto
  with False show ?thesis by (auto simp: escape_char_def)
qed

lemma escape_char_head: "\<exists>x xs. escape_char c = x # xs \<and> x \<noteq> CHR 0x22"
  by (auto simp: escape_char_def)

lemma quoted_inject:
  "concat (map escape_char s) @ CHR 0x22 # u = concat (map escape_char s') @ CHR 0x22 # u' \<Longrightarrow> s = s' \<and> u = u'"
proof (induction s arbitrary: s')
  case Nil
  with escape_char_head show ?case by (cases s') (auto, metis append_Cons list.inject)+
next
  case (Cons c s)
  show ?case
  proof (cases s')
    case Nil
    with Cons.prems escape_char_head [of c] show ?thesis by auto
  next
    case (Cons c' t)
    let ?v = "concat (map escape_char s) @ CHR 0x22 # u" and ?v' = "concat (map escape_char t) @ CHR 0x22 # u'"
    from Cons.prems Cons have eq: "escape_char c @ ?v = escape_char c' @ ?v'" by simp
    have "(c, ?v) = (c', ?v')"
      using unescape_escape [of ?v c] unescape_escape [of ?v' c'] unfolding eq by simp
    with Cons.IH [of t] Cons show ?thesis by simp
  qed
qed

lemma quote_string_inject: "quote_string s @ u = quote_string s' @ u' \<longleftrightarrow> s = s' \<and> u = u'"
  using quoted_inject [of s u s' u'] by (auto simp: quote_string_def)

definition is_digit :: "char \<Rightarrow> bool" where
  "is_digit c \<longleftrightarrow> 48 \<le> (of_char c :: nat) \<and> (of_char c :: nat) < 58"

definition nat_value :: "string \<Rightarrow> nat" where
  "nat_value s = foldl (\<lambda>n c. 10 * n + (of_char c - 48)) 0 s"

lemma is_digit_char: "is_digit (char_of (48 + n mod 10 :: nat))"
  by (simp add: is_digit_def)

lemma show_nat_digits: "list_all is_digit (show_nat n)"
proof (induction n rule: show_nat.induct)
  case (1 n)
  then show ?case using is_digit_char [of n] by (subst show_nat.simps) (auto simp: Let_def)
qed

lemma show_nat_value: "nat_value (show_nat n) = n"
  by (induction n rule: show_nat.induct) (subst show_nat.simps, simp add: nat_value_def Let_def)

lemma digits_inject:
  assumes "list_all is_digit s" "list_all is_digit s'" "\<not> is_digit c" "\<not> is_digit c'" "s @ c # u = s' @ c' # u'"
  shows "s = s'"
proof -
  have "takeWhile is_digit (s @ c # u) = s" "takeWhile is_digit (s' @ c' # u') = s'"
    using assms(1-4) by (simp_all add: takeWhile_append2 list_all_iff)
  with assms(5) show ?thesis by simp
qed

lemma show_nat_inject:
  assumes "show_nat m @ c # u = show_nat n @ c' # u'" and "\<not> is_digit c" "\<not> is_digit c'"
  shows "m = n"
  using digits_inject [OF show_nat_digits show_nat_digits assms(2,3,1)] show_nat_value by metis

lemma show_nat_head: "show_nat n \<noteq> [] \<and> hd (show_nat n) \<noteq> CHR ''-''"
proof -
  have ne: "show_nat n \<noteq> []" by (subst show_nat.simps) (simp add: Let_def)
  with show_nat_digits [of n] have "is_digit (hd (show_nat n))" by (cases "show_nat n") auto
  then have "hd (show_nat n) \<noteq> CHR ''-''" by (auto simp: is_digit_def)
  with ne show ?thesis by blast
qed

lemma show_int_inject:
  assumes "show_int m @ c # u = show_int n @ c' # u'" and c: "\<not> is_digit c" "\<not> is_digit c'"
  shows "m = n"
proof -
  have hd: "hd (show_int i @ x) = CHR ''-'' \<longleftrightarrow> i < 0" for i x
    using show_nat_head [of "nat i"] by (auto simp: show_int_def)
  have sign: "m < 0 \<longleftrightarrow> n < 0" using hd [of m] hd [of n] assms(1) by metis
  then have "show_nat (nat \<bar>m\<bar>) @ c # u = show_nat (nat \<bar>n\<bar>) @ c' # u'"
    using assms(1) by (simp add: show_int_def split: if_splits)
  from show_nat_inject [OF this c] sign show ?thesis by linarith
qed

end
