(* ===== verification/Protocol.thy ===== *)
theory Protocol
  imports Json_Text
begin

text \<open>
  The wire protocol of the client (\<open>clients/python/kim_llm_client/protocol.py\<close>): the
  dataclasses, the validators of single JSON fields, the decoder of Worker messages and
  the encoders of client messages. Parsing text (UTF-8 and \<open>json.loads\<close>) is the parameter
  \<open>loads\<close> of \<open>decode_server_message\<close>; what it may answer is the type
  \<open>json_failure + json\<close>.
\<close>

section \<open>Data\<close>

definition PROTOCOL_VERSION :: int where
  "PROTOCOL_VERSION = 1"

definition DEFAULT_MAX_FRAME_PAYLOAD_BYTES :: int where
  "DEFAULT_MAX_FRAME_PAYLOAD_BYTES = 1024 * 1024"

definition STATUS_CODES :: "string list" where
  "STATUS_CODES =
     [''ok'', ''invalid_input'', ''invalid_shape'', ''already_exists'', ''not_ready'',
      ''resource_exhausted'', ''slo_predicted_miss'', ''unavailable'', ''queue_full'',
      ''engine_not_found'', ''context_unavailable'', ''cuda_error'', ''tensorrt_error'',
      ''internal_error'', ''timeout'', ''cancelled'']"

definition FINISH_REASONS :: "string list" where
  "FINISH_REASONS = [''eos'', ''length'', ''stop'', ''cancelled'', ''timeout'', ''backpressure'']"

record ModelManifest =
  mm_model_id :: string
  mm_revision :: string
  mm_tokenizer_fingerprint :: string
  mm_chat_template_fingerprint :: string
  mm_engine_fingerprint :: string
  mm_eos_token_id :: int
  mm_pad_token_id :: int
  mm_max_input_tokens :: int
  mm_max_output_tokens :: int
  mm_max_sequence_tokens :: int
  mm_precision :: string
  mm_max_batch_size :: int

record WorkerLimits =
  wl_max_active_requests :: int
  wl_max_total_input_tokens :: int
  wl_max_reserved_output_tokens :: int
  wl_max_frame_payload_bytes :: int
  wl_max_session_egress_frames :: int
  wl_max_session_egress_bytes :: int
  wl_max_request_egress_frames :: int
  wl_max_request_egress_bytes :: int

record SamplingParameters =
  sp_temperature :: pyfloat
  sp_top_k :: int
  sp_top_p :: pyfloat
  sp_random_seed :: int

record GenerationRequest =
  gr_request_id :: int
  gr_input_token_ids :: "int list"
  gr_max_new_tokens :: int
  gr_priority :: int
  gr_timeout_ms :: "int option"
  gr_trace_id :: string
  gr_streaming :: bool
  gr_sampling :: SamplingParameters
  gr_end_id :: "int option"
  gr_pad_id :: "int option"
  gr_stop_sequences :: "int list list"

record HelloAck =
  ha_worker_epoch :: int
  ha_manifest :: ModelManifest
  ha_limits :: WorkerLimits

record TokenDelta =
  td_request_id :: int
  td_sequence_no :: int
  td_token_ids :: "int list"

record Usage =
  us_prompt_tokens :: int
  us_completion_tokens :: int

definition Usage_default :: Usage where
  "Usage_default = \<lparr>us_prompt_tokens = 0, us_completion_tokens = 0\<rparr>"

record Terminal =
  tm_request_id :: int
  tm_status :: Status
  tm_finish_reason :: "string option"
  tm_usage :: Usage

record Stats =
  ss_probe_id :: int
  ss_ready :: bool
  ss_status :: Status
  ss_uptime_ms :: int
  ss_active_requests :: int
  ss_reserved_input_tokens :: int
  ss_reserved_output_tokens :: int
  ss_session_egress_frames :: int
  ss_session_egress_bytes :: int
  ss_session_egress_high_watermark_frames :: int
  ss_session_egress_high_watermark_bytes :: int
  ss_rejected_requests :: int
  ss_backpressure_requests :: int
  ss_cancelled_requests :: int

datatype ServerMessage =
    MHelloAck HelloAck
  | MAccepted int
  | MRejected int Status
  | MTokenDelta TokenDelta
  | MTerminal Terminal
  | MStats Stats

datatype GenerationEvent = EvDelta TokenDelta | EvTerminal Terminal

section \<open>Validators of single values\<close>

definition u31_max :: int where "u31_max = 2 ^ 31 - 1"
definition u32_max :: int where "u32_max = 2 ^ 32 - 1"
definition u64_max :: int where "u64_max = 2 ^ 64 - 1"

definition require_exact_fields :: "json \<Rightarrow> string list \<Rightarrow> string \<Rightarrow> (string \<times> json) list result" where
  "require_exact_fields v expected description =
     (case v of
        JDict d \<Rightarrow>
          if keys_are d expected then Inr d
          else Inl (ProtocolError (description @ '' contains missing or unexpected fields''))
      | _ \<Rightarrow> Inl (ProtocolError (description @ '' contains missing or unexpected fields'')))"

definition require_string :: "json \<Rightarrow> string \<Rightarrow> bool \<Rightarrow> string result" where
  "require_string v description non_empty =
     (let qualifier = (if non_empty then ''non-empty '' else '''');
          err = Inl (ProtocolError (description @ '' must be a '' @ qualifier @ ''string''))
      in case v of
           JStr s \<Rightarrow> if non_empty \<and> s = [] then err else Inr s
         | _ \<Rightarrow> err)"

definition require_bool :: "json \<Rightarrow> string \<Rightarrow> bool result" where
  "require_bool v description =
     (case v of
        JBool b \<Rightarrow> Inr b
      | _ \<Rightarrow> Inl (ProtocolError (description @ '' must be a boolean'')))"

definition require_int :: "json \<Rightarrow> string \<Rightarrow> int \<Rightarrow> int \<Rightarrow> int result" where
  "require_int v description minimum maximum =
     (let err = Inl (ProtocolError (description @ '' is outside the supported integer range''))
      in case v of
           JInt n \<Rightarrow> if n < minimum \<or> maximum < n then err else Inr n
         | _ \<Rightarrow> err)"

definition require_float :: "json \<Rightarrow> string \<Rightarrow> pyfloat result" where
  "require_float v description =
     rbind (guard (is_number v) (ProtocolError (description @ '' must be numeric''))) (\<lambda>_.
     rbind (py_float v) (\<lambda>converted.
     rbind (guard (isfinite converted) (ProtocolError (description @ '' must be finite''))) (\<lambda>_.
     Inr converted)))"

definition require_protocol :: "json \<Rightarrow> unit result" where
  "require_protocol v =
     rbind (require_int v ''protocol_version'' 0 u32_max) (\<lambda>version.
     guard (version = PROTOCOL_VERSION)
       (ProtocolError (''unsupported protocol version '' @ show_int version)))"

definition require_epoch :: "json \<Rightarrow> int option \<Rightarrow> int result" where
  "require_epoch v expected_epoch =
     rbind (require_int v ''worker_epoch'' 1 u64_max) (\<lambda>epoch.
     if expected_epoch \<noteq> None \<and> Some epoch \<noteq> expected_epoch
     then Inl (ProtocolError ''worker_epoch does not match the active Worker'')
     else Inr epoch)"

text \<open>\<open>d["k"]\<close> followed by a validator, the pattern of every field of a message.\<close>

definition field_int :: "(string \<times> json) list \<Rightarrow> string \<Rightarrow> int \<Rightarrow> int \<Rightarrow> int result" where
  "field_int d k minimum maximum =
     rbind (py_getitem d k) (\<lambda>v. require_int v k minimum maximum)"

definition field_string :: "(string \<times> json) list \<Rightarrow> string \<Rightarrow> string result" where
  "field_string d k = rbind (py_getitem d k) (\<lambda>v. require_string v k True)"

section \<open>Nested objects\<close>

definition status_from_json :: "json \<Rightarrow> Status result" where
  "status_from_json v =
     rbind (require_exact_fields v [''code'', ''message''] ''status'') (\<lambda>d.
     rbind (rbind (py_getitem d ''code'') (\<lambda>c. require_string c ''status.code'' True)) (\<lambda>code.
     rbind (guard (code \<in> set STATUS_CODES) (ProtocolError (''unknown status code '' @ code))) (\<lambda>_.
     rbind (rbind (py_getitem d ''message'') (\<lambda>m. require_string m ''status.message'' False)) (\<lambda>message.
     Inr \<lparr>st_code = code, st_message = message\<rparr>))))"

definition manifest_fields :: "string list" where
  "manifest_fields =
     [''model_id'', ''revision'', ''tokenizer_fingerprint'', ''chat_template_fingerprint'',
      ''engine_fingerprint'', ''eos_token_id'', ''pad_token_id'', ''max_input_tokens'',
      ''max_output_tokens'', ''max_sequence_tokens'', ''precision'', ''max_batch_size'']"

definition manifest_limits_ok :: "ModelManifest \<Rightarrow> bool" where
  "manifest_limits_ok m \<longleftrightarrow>
     \<not> (mm_max_sequence_tokens m < mm_max_input_tokens m \<or>
        mm_max_sequence_tokens m < mm_max_output_tokens m)"

definition manifest_from_json :: "json \<Rightarrow> ModelManifest result" where
  "manifest_from_json v =
     rbind (require_exact_fields v manifest_fields ''manifest'') (\<lambda>d.
     rbind (field_string d ''model_id'') (\<lambda>model_id.
     rbind (field_string d ''revision'') (\<lambda>revision.
     rbind (field_string d ''tokenizer_fingerprint'') (\<lambda>tokenizer_fingerprint.
     rbind (field_string d ''chat_template_fingerprint'') (\<lambda>chat_template_fingerprint.
     rbind (field_string d ''engine_fingerprint'') (\<lambda>engine_fingerprint.
     rbind (field_int d ''eos_token_id'' 0 u31_max) (\<lambda>eos_token_id.
     rbind (field_int d ''pad_token_id'' 0 u31_max) (\<lambda>pad_token_id.
     rbind (field_int d ''max_input_tokens'' 1 u32_max) (\<lambda>max_input_tokens.
     rbind (field_int d ''max_output_tokens'' 1 u32_max) (\<lambda>max_output_tokens.
     rbind (field_int d ''max_sequence_tokens'' 1 u32_max) (\<lambda>max_sequence_tokens.
     rbind (field_string d ''precision'') (\<lambda>precision.
     rbind (field_int d ''max_batch_size'' 1 u32_max) (\<lambda>max_batch_size.
     let manifest =
       \<lparr>mm_model_id = model_id, mm_revision = revision,
        mm_tokenizer_fingerprint = tokenizer_fingerprint,
        mm_chat_template_fingerprint = chat_template_fingerprint,
        mm_engine_fingerprint = engine_fingerprint,
        mm_eos_token_id = eos_token_id, mm_pad_token_id = pad_token_id,
        mm_max_input_tokens = max_input_tokens, mm_max_output_tokens = max_output_tokens,
        mm_max_sequence_tokens = max_sequence_tokens, mm_precision = precision,
        mm_max_batch_size = max_batch_size\<rparr>
     in rbind (guard (manifest_limits_ok manifest)
                 (ProtocolError ''manifest token limits exceed max_sequence_tokens'')) (\<lambda>_.
        Inr manifest))))))))))))))"

definition limits_fields :: "string list" where
  "limits_fields =
     [''max_active_requests'', ''max_total_input_tokens'', ''max_reserved_output_tokens'',
      ''max_frame_payload_bytes'', ''max_session_egress_frames'', ''max_session_egress_bytes'',
      ''max_request_egress_frames'', ''max_request_egress_bytes'']"

definition limits_hierarchy_ok :: "WorkerLimits \<Rightarrow> bool" where
  "limits_hierarchy_ok l \<longleftrightarrow>
     \<not> (wl_max_session_egress_frames l < wl_max_request_egress_frames l \<or>
        wl_max_session_egress_bytes l < wl_max_request_egress_bytes l \<or>
        wl_max_request_egress_bytes l < wl_max_frame_payload_bytes l)"

definition limits_from_json :: "json \<Rightarrow> WorkerLimits result" where
  "limits_from_json v =
     rbind (require_exact_fields v limits_fields ''limits'') (\<lambda>d.
     rbind (field_int d ''max_active_requests'' 1 u32_max) (\<lambda>active.
     rbind (field_int d ''max_total_input_tokens'' 1 u64_max) (\<lambda>total_input.
     rbind (field_int d ''max_reserved_output_tokens'' 1 u64_max) (\<lambda>reserved_output.
     rbind (field_int d ''max_frame_payload_bytes'' 1 u32_max) (\<lambda>frame_bytes.
     rbind (field_int d ''max_session_egress_frames'' 1 u32_max) (\<lambda>session_frames.
     rbind (field_int d ''max_session_egress_bytes'' 1 u64_max) (\<lambda>session_bytes.
     rbind (field_int d ''max_request_egress_frames'' 1 u32_max) (\<lambda>request_frames.
     rbind (field_int d ''max_request_egress_bytes'' 1 u64_max) (\<lambda>request_bytes.
     let limits =
       \<lparr>wl_max_active_requests = active, wl_max_total_input_tokens = total_input,
        wl_max_reserved_output_tokens = reserved_output,
        wl_max_frame_payload_bytes = frame_bytes,
        wl_max_session_egress_frames = session_frames,
        wl_max_session_egress_bytes = session_bytes,
        wl_max_request_egress_frames = request_frames,
        wl_max_request_egress_bytes = request_bytes\<rparr>
     in rbind (guard (limits_hierarchy_ok limits)
                 (ProtocolError ''Worker limit hierarchy is inconsistent'')) (\<lambda>_.
        Inr limits))))))))))"

definition usage_from_json :: "json \<Rightarrow> Usage result" where
  "usage_from_json v =
     rbind (require_exact_fields v [''prompt_tokens'', ''completion_tokens''] ''usage'') (\<lambda>d.
     rbind (field_int d ''prompt_tokens'' 0 u64_max) (\<lambda>prompt.
     rbind (field_int d ''completion_tokens'' 0 u64_max) (\<lambda>completion.
     Inr \<lparr>us_prompt_tokens = prompt, us_completion_tokens = completion\<rparr>)))"

definition request_envelope :: "(string \<times> json) list \<Rightarrow> int \<Rightarrow> int result" where
  "request_envelope d expected_epoch =
     rbind (rbind (py_getitem d ''protocol_version'') require_protocol) (\<lambda>_.
     rbind (rbind (py_getitem d ''worker_epoch'') (\<lambda>v. require_epoch v (Some expected_epoch))) (\<lambda>_.
     field_int d ''request_id'' 1 u64_max))"


section \<open>Decoding Worker messages\<close>

definition decode_hello_ack :: "json \<Rightarrow> int option \<Rightarrow> ServerMessage result" where
  "decode_hello_ack v expected_epoch =
     rbind (require_exact_fields v
       [''type'', ''protocol_version'', ''worker_epoch'', ''manifest'', ''limits''] ''HelloAck'') (\<lambda>d.
     rbind (rbind (py_getitem d ''protocol_version'') require_protocol) (\<lambda>_.
     rbind (rbind (py_getitem d ''worker_epoch'') (\<lambda>e. require_epoch e expected_epoch)) (\<lambda>epoch.
     rbind (rbind (py_getitem d ''manifest'') manifest_from_json) (\<lambda>manifest.
     rbind (rbind (py_getitem d ''limits'') limits_from_json) (\<lambda>limits.
     Inr (MHelloAck \<lparr>ha_worker_epoch = epoch, ha_manifest = manifest, ha_limits = limits\<rparr>))))))"

definition decode_accepted :: "json \<Rightarrow> int \<Rightarrow> ServerMessage result" where
  "decode_accepted v epoch =
     rbind (require_exact_fields v
       [''type'', ''protocol_version'', ''worker_epoch'', ''request_id''] ''Accepted'') (\<lambda>d.
     rbind (request_envelope d epoch) (\<lambda>request_id. Inr (MAccepted request_id)))"

definition decode_rejected :: "json \<Rightarrow> int \<Rightarrow> ServerMessage result" where
  "decode_rejected v epoch =
     rbind (require_exact_fields v
       [''type'', ''protocol_version'', ''worker_epoch'', ''request_id'', ''status''] ''Rejected'') (\<lambda>d.
     rbind (rbind (py_getitem d ''status'') status_from_json) (\<lambda>status.
     rbind (guard (\<not> status_ok status) (ProtocolError ''Rejected status must not be ok'')) (\<lambda>_.
     rbind (request_envelope d epoch) (\<lambda>request_id.
     Inr (MRejected request_id status)))))"

definition decode_token_ids :: "json \<Rightarrow> int list result" where
  "decode_token_ids v =
     (case v of
        JList (x # xs) \<Rightarrow> rmap (\<lambda>t. require_int t ''token_id'' 0 u31_max) (x # xs)
      | _ \<Rightarrow> Inl (ProtocolError ''token_ids must be a non-empty array''))"

definition decode_token_delta :: "json \<Rightarrow> int \<Rightarrow> ServerMessage result" where
  "decode_token_delta v epoch =
     rbind (require_exact_fields v
       [''type'', ''protocol_version'', ''worker_epoch'', ''request_id'', ''sequence_no'',
        ''token_ids''] ''TokenDelta'') (\<lambda>d.
     rbind (rbind (py_getitem d ''token_ids'') decode_token_ids) (\<lambda>tokens.
     rbind (request_envelope d epoch) (\<lambda>request_id.
     rbind (field_int d ''sequence_no'' 0 u64_max) (\<lambda>sequence_no.
     Inr (MTokenDelta \<lparr>td_request_id = request_id, td_sequence_no = sequence_no,
                       td_token_ids = tokens\<rparr>)))))"

definition decode_finish_reason :: "json \<Rightarrow> string option result" where
  "decode_finish_reason v =
     (case v of
        JNull \<Rightarrow> Inr None
      | _ \<Rightarrow>
          rbind (require_string v ''finish_reason'' True) (\<lambda>r.
          rbind (guard (r \<in> set FINISH_REASONS) (ProtocolError (''unknown finish reason '' @ r))) (\<lambda>_.
          Inr (Some r))))"

definition decode_terminal :: "json \<Rightarrow> int \<Rightarrow> ServerMessage result" where
  "decode_terminal v epoch =
     rbind (require_exact_fields v
       [''type'', ''protocol_version'', ''worker_epoch'', ''request_id'', ''status'',
        ''finish_reason'', ''usage''] ''Terminal'') (\<lambda>d.
     rbind (rbind (py_getitem d ''status'') status_from_json) (\<lambda>status.
     rbind (rbind (py_getitem d ''finish_reason'') decode_finish_reason) (\<lambda>finish_reason.
     rbind (guard (\<not> (status_ok status \<and> finish_reason = None))
              (ProtocolError ''successful Terminal requires finish_reason'')) (\<lambda>_.
     rbind (request_envelope d epoch) (\<lambda>request_id.
     rbind (rbind (py_getitem d ''usage'') usage_from_json) (\<lambda>usage.
     Inr (MTerminal \<lparr>tm_request_id = request_id, tm_status = status,
                     tm_finish_reason = finish_reason, tm_usage = usage\<rparr>)))))))"

definition stats_fields :: "string list" where
  "stats_fields =
     [''type'', ''protocol_version'', ''worker_epoch'', ''probe_id'', ''ready'', ''status'',
      ''uptime_ms'', ''active_requests'', ''reserved_input_tokens'', ''reserved_output_tokens'',
      ''session_egress_frames'', ''session_egress_bytes'',
      ''session_egress_high_watermark_frames'', ''session_egress_high_watermark_bytes'',
      ''rejected_requests'', ''backpressure_requests'', ''cancelled_requests'']"

definition stats_watermarks_ok :: "Stats \<Rightarrow> bool" where
  "stats_watermarks_ok s \<longleftrightarrow>
     \<not> (ss_session_egress_high_watermark_frames s < ss_session_egress_frames s \<or>
        ss_session_egress_high_watermark_bytes s < ss_session_egress_bytes s)"

definition decode_stats :: "json \<Rightarrow> int \<Rightarrow> ServerMessage result" where
  "decode_stats v epoch =
     rbind (require_exact_fields v stats_fields ''Stats'') (\<lambda>d.
     rbind (rbind (py_getitem d ''protocol_version'') require_protocol) (\<lambda>_.
     rbind (rbind (py_getitem d ''worker_epoch'') (\<lambda>e. require_epoch e (Some epoch))) (\<lambda>_.
     rbind (rbind (py_getitem d ''status'') status_from_json) (\<lambda>status.
     rbind (rbind (py_getitem d ''ready'') (\<lambda>b. require_bool b ''ready'')) (\<lambda>ready.
     rbind (guard (ready = status_ok status)
              (ProtocolError ''Stats ready and status are inconsistent'')) (\<lambda>_.
     rbind (field_int d ''probe_id'' 1 u64_max) (\<lambda>probe_id.
     rbind (field_int d ''uptime_ms'' 0 u64_max) (\<lambda>uptime_ms.
     rbind (field_int d ''active_requests'' 0 u64_max) (\<lambda>active_requests.
     rbind (field_int d ''reserved_input_tokens'' 0 u64_max) (\<lambda>reserved_input.
     rbind (field_int d ''reserved_output_tokens'' 0 u64_max) (\<lambda>reserved_output.
     rbind (field_int d ''session_egress_frames'' 0 u64_max) (\<lambda>frames.
     rbind (field_int d ''session_egress_bytes'' 0 u64_max) (\<lambda>nbytes.
     rbind (field_int d ''session_egress_high_watermark_frames'' 0 u64_max) (\<lambda>high_frames.
     rbind (field_int d ''session_egress_high_watermark_bytes'' 0 u64_max) (\<lambda>high_bytes.
     rbind (field_int d ''rejected_requests'' 0 u64_max) (\<lambda>rejected.
     rbind (field_int d ''backpressure_requests'' 0 u64_max) (\<lambda>backpressure.
     rbind (field_int d ''cancelled_requests'' 0 u64_max) (\<lambda>cancelled.
     let stats =
       \<lparr>ss_probe_id = probe_id, ss_ready = ready, ss_status = status, ss_uptime_ms = uptime_ms,
        ss_active_requests = active_requests, ss_reserved_input_tokens = reserved_input,
        ss_reserved_output_tokens = reserved_output, ss_session_egress_frames = frames,
        ss_session_egress_bytes = nbytes,
        ss_session_egress_high_watermark_frames = high_frames,
        ss_session_egress_high_watermark_bytes = high_bytes,
        ss_rejected_requests = rejected, ss_backpressure_requests = backpressure,
        ss_cancelled_requests = cancelled\<rparr>
     in rbind (guard (stats_watermarks_ok stats)
                 (ProtocolError ''Stats high watermark is below the current value'')) (\<lambda>_.
        Inr (MStats stats))))))))))))))))))))"

text \<open>The part of \<open>decode_server_message\<close> after the text has been parsed.\<close>

definition decode_server_value :: "json \<Rightarrow> int option \<Rightarrow> ServerMessage result" where
  "decode_server_value v expected_epoch =
     (case v of
        JDict d \<Rightarrow>
          rbind (require_string (py_get d ''type'' JNull) ''message type'' True) (\<lambda>message_type.
          if message_type = ''hello_ack'' then decode_hello_ack v expected_epoch
          else case expected_epoch of
            None \<Rightarrow> Inl (ProtocolError ''lifecycle message arrived before HelloAck'')
          | Some epoch \<Rightarrow>
              if message_type = ''accepted'' then decode_accepted v epoch
              else if message_type = ''rejected'' then decode_rejected v epoch
              else if message_type = ''token_delta'' then decode_token_delta v epoch
              else if message_type = ''terminal'' then decode_terminal v epoch
              else if message_type = ''stats'' then decode_stats v epoch
              else Inl (ProtocolError
                     (''message type '' @ message_type @ '' is not allowed from Worker'')))
      | _ \<Rightarrow> Inl (ProtocolError ''payload must be a JSON object''))"

text \<open>
  What decoding the UTF-8 text of a payload and parsing it can answer besides a value:
  malformed UTF-8, malformed JSON, one of the constants \<open>NaN\<close>, \<open>Infinity\<close> and
  \<open>-Infinity\<close> handed to \<open>parse_constant\<close>, nesting deeper than the interpreter allows, or an
  integer literal with more digits than the interpreter converts (a plain \<open>ValueError\<close>).
\<close>

datatype json_failure =
    UnicodeDecodeError string
  | JSONDecodeError string
  | JSONConstant string
  | RecursionError string
  | IntegerDigits string

fun reject_json :: "json_failure \<Rightarrow> exn" where
  "reject_json (JSONConstant c) = ProtocolError (''invalid JSON constant '' @ c)"
| "reject_json (UnicodeDecodeError m) = ProtocolError (''invalid JSON payload: '' @ m)"
| "reject_json (JSONDecodeError m) = ProtocolError (''invalid JSON payload: '' @ m)"
| "reject_json (RecursionError m) = RuntimeError m"
| "reject_json (IntegerDigits m) = ValueError m"

type_synonym loads_fun = "bytes \<Rightarrow> json_failure + json"

definition decode_server_message :: "loads_fun \<Rightarrow> bytes \<Rightarrow> int option \<Rightarrow> ServerMessage result" where
  "decode_server_message loads payload expected_epoch =
     (case loads payload of
        Inl f \<Rightarrow> Inl (reject_json f)
      | Inr v \<Rightarrow> decode_server_value v expected_epoch)"

section \<open>Validating and encoding client messages\<close>

definition validate_manifest :: "ModelManifest \<Rightarrow> unit result" where
  "validate_manifest m =
     rbind (guard (mm_model_id m \<noteq> [] \<and> mm_revision m \<noteq> [] \<and> mm_tokenizer_fingerprint m \<noteq> [] \<and>
                   mm_chat_template_fingerprint m \<noteq> [] \<and> mm_engine_fingerprint m \<noteq> [] \<and>
                   mm_precision m \<noteq> [])
              (ProtocolError ''ModelManifest string fields must not be empty'')) (\<lambda>_.
     rbind (rmap (\<lambda>t. require_int (JInt t) ''manifest token id'' 0 u31_max)
              [mm_eos_token_id m, mm_pad_token_id m]) (\<lambda>_.
     rbind (rmap (\<lambda>(x, name). require_int (JInt x) name 1 u32_max)
              [(mm_max_input_tokens m, ''max_input_tokens''),
               (mm_max_output_tokens m, ''max_output_tokens''),
               (mm_max_sequence_tokens m, ''max_sequence_tokens''),
               (mm_max_batch_size m, ''max_batch_size'')]) (\<lambda>_.
     guard (manifest_limits_ok m)
       (ProtocolError ''manifest token limits exceed max_sequence_tokens''))))"

definition validate_optional_int :: "int option \<Rightarrow> string \<Rightarrow> int \<Rightarrow> int \<Rightarrow> unit result" where
  "validate_optional_int v description minimum maximum =
     (case v of
        None \<Rightarrow> Inr ()
      | Some n \<Rightarrow> rbind (require_int (JInt n) description minimum maximum) (\<lambda>_. Inr ()))"

definition validate_stop_sequence :: "int list \<Rightarrow> unit result" where
  "validate_stop_sequence sequence =
     rbind (guard (sequence \<noteq> []) (ProtocolError ''stop_sequences entries must not be empty'')) (\<lambda>_.
     rbind (rmap (\<lambda>t. require_int (JInt t) ''stop token id'' 0 u31_max) sequence) (\<lambda>_. Inr ()))"

definition validate_request :: "GenerationRequest \<Rightarrow> unit result" where
  "validate_request r =
     rbind (require_int (JInt (gr_request_id r)) ''request_id'' 1 u64_max) (\<lambda>_.
     rbind (guard (gr_input_token_ids r \<noteq> []) (ProtocolError ''input_token_ids must not be empty'')) (\<lambda>_.
     rbind (rmap (\<lambda>t. require_int (JInt t) ''input_token_id'' 0 u31_max) (gr_input_token_ids r)) (\<lambda>_.
     rbind (require_int (JInt (gr_max_new_tokens r)) ''max_new_tokens'' 1 u32_max) (\<lambda>_.
     rbind (require_int (JInt (gr_priority r)) ''priority'' (- (2 ^ 31)) u31_max) (\<lambda>_.
     rbind (validate_optional_int (gr_timeout_ms r) ''timeout_ms'' 1 u64_max) (\<lambda>_.
     rbind (require_string (JStr (gr_trace_id r)) ''trace_id'' False) (\<lambda>_.
     rbind (require_bool (JBool (gr_streaming r)) ''streaming'') (\<lambda>_.
     rbind (require_float (JFloat (sp_temperature (gr_sampling r))) ''temperature'') (\<lambda>temperature.
     rbind (guard (\<not> float_le temperature (Fin 0)) (ProtocolError ''temperature must be positive'')) (\<lambda>_.
     rbind (require_int (JInt (sp_top_k (gr_sampling r))) ''top_k'' 0 u31_max) (\<lambda>_.
     rbind (require_float (JFloat (sp_top_p (gr_sampling r))) ''top_p'') (\<lambda>top_p.
     rbind (guard (\<not> (float_le top_p (Fin 0) \<or> float_lt (Fin 1) top_p))
              (ProtocolError ''top_p must be in (0, 1]'')) (\<lambda>_.
     rbind (require_int (JInt (sp_random_seed (gr_sampling r))) ''random_seed'' 0 u64_max) (\<lambda>_.
     rbind (rmap (\<lambda>t. validate_optional_int t ''optional token id'' 0 u31_max)
              [gr_end_id r, gr_pad_id r]) (\<lambda>_.
     rbind (rmap validate_stop_sequence (gr_stop_sequences r)) (\<lambda>_. Inr ()))))))))))))))))"

definition json_option_int :: "int option \<Rightarrow> json" where
  "json_option_int v = (case v of None \<Rightarrow> JNull | Some n \<Rightarrow> JInt n)"

definition encode_json :: "(rat \<Rightarrow> string) \<Rightarrow> json \<Rightarrow> bytes result" where
  "encode_json frepr v = rbind (json_dumps frepr False v) (\<lambda>t. Inr (utf8 t))"

definition encode_hello :: "(rat \<Rightarrow> string) \<Rightarrow> ModelManifest \<Rightarrow> bytes result" where
  "encode_hello frepr m =
     rbind (validate_manifest m) (\<lambda>_.
     encode_json frepr (JDict
       [(''type'', JStr ''hello''), (''protocol_version'', JInt PROTOCOL_VERSION),
        (''model_id'', JStr (mm_model_id m)), (''revision'', JStr (mm_revision m))]))"

definition encode_submit :: "(rat \<Rightarrow> string) \<Rightarrow> GenerationRequest \<Rightarrow> int \<Rightarrow> bytes result" where
  "encode_submit frepr r worker_epoch =
     rbind (validate_request r) (\<lambda>_.
     rbind (require_int (JInt worker_epoch) ''worker_epoch'' 1 u64_max) (\<lambda>_.
     encode_json frepr (JDict
       [(''type'', JStr ''submit''), (''protocol_version'', JInt PROTOCOL_VERSION),
        (''worker_epoch'', JInt worker_epoch), (''request_id'', JInt (gr_request_id r)),
        (''priority'', JInt (gr_priority r)), (''timeout_ms'', json_option_int (gr_timeout_ms r)),
        (''trace_id'', JStr (gr_trace_id r)),
        (''input_token_ids'', JList (map JInt (gr_input_token_ids r))),
        (''max_new_tokens'', JInt (gr_max_new_tokens r)),
        (''streaming'', JBool (gr_streaming r)),
        (''sampling'', JDict
           [(''temperature'', JFloat (sp_temperature (gr_sampling r))),
            (''top_k'', JInt (sp_top_k (gr_sampling r))),
            (''top_p'', JFloat (sp_top_p (gr_sampling r))),
            (''random_seed'', JInt (sp_random_seed (gr_sampling r)))]),
        (''end_id'', json_option_int (gr_end_id r)), (''pad_id'', json_option_int (gr_pad_id r)),
        (''stop_sequences'', JList (map (\<lambda>s. JList (map JInt s)) (gr_stop_sequences r)))])))"

definition encode_cancel :: "(rat \<Rightarrow> string) \<Rightarrow> int \<Rightarrow> int \<Rightarrow> bytes result" where
  "encode_cancel frepr request_id worker_epoch =
     rbind (require_int (JInt request_id) ''request_id'' 1 u64_max) (\<lambda>_.
     rbind (require_int (JInt worker_epoch) ''worker_epoch'' 1 u64_max) (\<lambda>_.
     encode_json frepr (JDict
       [(''type'', JStr ''cancel''), (''protocol_version'', JInt PROTOCOL_VERSION),
        (''worker_epoch'', JInt worker_epoch), (''request_id'', JInt request_id)])))"

definition encode_health :: "(rat \<Rightarrow> string) \<Rightarrow> int \<Rightarrow> int \<Rightarrow> bytes result" where
  "encode_health frepr probe_id worker_epoch =
     rbind (require_int (JInt probe_id) ''probe_id'' 1 u64_max) (\<lambda>_.
     rbind (require_int (JInt worker_epoch) ''worker_epoch'' 1 u64_max) (\<lambda>_.
     encode_json frepr (JDict
       [(''type'', JStr ''health''), (''protocol_version'', JInt PROTOCOL_VERSION),
        (''worker_epoch'', JInt worker_epoch), (''probe_id'', JInt probe_id)])))"


section \<open>Inversion of the validators\<close>

lemma require_exact_fields_Inr [result_simps]:
  "require_exact_fields v ks descr = Inr d \<longleftrightarrow> v = JDict d \<and> keys_are d ks"
  by (auto simp: require_exact_fields_def split: json.splits)

lemma require_string_Inr [result_simps]:
  "require_string v descr ne = Inr s \<longleftrightarrow> v = JStr s \<and> (ne \<longrightarrow> s \<noteq> [])"
  by (auto simp: require_string_def Let_def split: json.splits)

lemma require_bool_Inr [result_simps]: "require_bool v descr = Inr b \<longleftrightarrow> v = JBool b"
  by (auto simp: require_bool_def split: json.splits)

lemma require_int_Inr [result_simps]:
  "require_int v descr lo hi = Inr n \<longleftrightarrow> v = JInt n \<and> lo \<le> n \<and> n \<le> hi"
  by (auto simp: require_int_def Let_def split: json.splits)

lemma require_int_Inl [result_simps]:
  "require_int v descr lo hi = Inl e \<longleftrightarrow>
     (\<forall>n. v = JInt n \<longrightarrow> n < lo \<or> hi < n) \<and>
     e = ProtocolError (descr @ '' is outside the supported integer range'')"
  by (auto simp: require_int_def Let_def split: json.splits)

lemma require_int_ok [simp]: "lo \<le> n \<Longrightarrow> n \<le> hi \<Longrightarrow> require_int (JInt n) descr lo hi = Inr n"
  by (simp add: require_int_Inr)

lemma require_float_JFloat [simp]:
  "require_float (JFloat (Fin x)) descr = Inr (Fin x)"
  by (simp add: require_float_def is_number_def py_float_def)

lemma require_float_Inr:
  "require_float v descr = Inr x \<longleftrightarrow> is_number v \<and> py_float v = Inr x \<and> isfinite x"
  by (auto simp: require_float_def result_simps)

lemma require_protocol_Inr [result_simps]: "require_protocol v = Inr u \<longleftrightarrow> v = JInt PROTOCOL_VERSION"
  by (auto simp: require_protocol_def result_simps PROTOCOL_VERSION_def u32_max_def)

lemma require_epoch_Inr [result_simps]:
  "require_epoch v ex = Inr e \<longleftrightarrow>
     v = JInt e \<and> 1 \<le> e \<and> e \<le> u64_max \<and> (\<forall>e'. ex = Some e' \<longrightarrow> e = e')"
  by (cases ex) (auto simp: require_epoch_def result_simps)

lemma field_int_Inr [result_simps]:
  "field_int d k lo hi = Inr n \<longleftrightarrow> map_of d k = Some (JInt n) \<and> lo \<le> n \<and> n \<le> hi"
  by (auto simp: field_int_def result_simps)

lemma field_string_Inr [result_simps]:
  "field_string d k = Inr s \<longleftrightarrow> map_of d k = Some (JStr s) \<and> s \<noteq> []"
  by (auto simp: field_string_def result_simps)

lemma request_envelope_Inr [result_simps]:
  "request_envelope d e = Inr i \<longleftrightarrow>
     map_of d ''protocol_version'' = Some (JInt PROTOCOL_VERSION) \<and>
     map_of d ''worker_epoch'' = Some (JInt e) \<and> 1 \<le> e \<and> e \<le> u64_max \<and>
     map_of d ''request_id'' = Some (JInt i) \<and> 1 \<le> i \<and> i \<le> u64_max"
  by (auto simp: request_envelope_def result_simps)

lemma decode_token_ids_Inr [result_simps]:
  "decode_token_ids v = Inr ts \<longleftrightarrow>
     v = JList (map JInt ts) \<and> ts \<noteq> [] \<and> (\<forall>t \<in> set ts. 0 \<le> t \<and> t \<le> u31_max)"
proof -
  have *: "rmap (\<lambda>t. require_int t ''token_id'' 0 u31_max) xs = Inr ts \<longleftrightarrow>
      xs = map JInt ts \<and> (\<forall>t \<in> set ts. 0 \<le> t \<and> t \<le> u31_max)" for xs
  proof (induction xs arbitrary: ts)
    case Nil
    show ?case by auto
  next
    case (Cons x xs)
    then show ?case by (cases ts) (auto simp: result_simps)
  qed
  show ?thesis
  proof (cases "\<exists>x xs. v = JList (x # xs)")
    case True
    then obtain x xs where v: "v = JList (x # xs)" by blast
    then have "decode_token_ids v = rmap (\<lambda>t. require_int t ''token_id'' 0 u31_max) (x # xs)"
      by (simp add: decode_token_ids_def)
    with * [of "x # xs"] v show ?thesis by auto
  next
    case False
    then have "decode_token_ids v \<noteq> Inr ts"
      by (auto simp: decode_token_ids_def split: json.splits list.splits)
    with False show ?thesis by (cases ts) auto
  qed
qed

lemma names_nonempty [simp]: "[] \<notin> set STATUS_CODES" "[] \<notin> set FINISH_REASONS"
  by (simp_all add: STATUS_CODES_def FINISH_REASONS_def)

lemma decode_finish_reason_Inr [result_simps]:
  "decode_finish_reason v = Inr r \<longleftrightarrow>
     (v = JNull \<and> r = None) \<or> (\<exists>s. v = JStr s \<and> s \<in> set FINISH_REASONS \<and> r = Some s)"
  by (cases v) (auto simp: decode_finish_reason_def result_simps)

lemma status_from_json_Inr [result_simps]:
  "status_from_json v = Inr s \<longleftrightarrow>
     (\<exists>d. v = JDict d \<and> keys_are d [''code'', ''message''] \<and>
        map_of d ''code'' = Some (JStr (st_code s)) \<and> st_code s \<in> set STATUS_CODES \<and>
        map_of d ''message'' = Some (JStr (st_message s)))"
  by (cases s) (auto simp: status_from_json_def result_simps)

lemma usage_from_json_Inr [result_simps]:
  "usage_from_json v = Inr u \<longleftrightarrow>
     (\<exists>d. v = JDict d \<and> keys_are d [''prompt_tokens'', ''completion_tokens''] \<and>
        map_of d ''prompt_tokens'' = Some (JInt (us_prompt_tokens u)) \<and>
        map_of d ''completion_tokens'' = Some (JInt (us_completion_tokens u)) \<and>
        0 \<le> us_prompt_tokens u \<and> us_prompt_tokens u \<le> u64_max \<and>
        0 \<le> us_completion_tokens u \<and> us_completion_tokens u \<le> u64_max)"
  by (cases u) (auto simp: usage_from_json_def result_simps)

end
