(* ===== verification/Framing.thy ===== *)
theory Framing
  imports Protocol
begin

text \<open>
  Length-prefixed frames: \<open>encode_frame\<close> of the protocol module and the receiving side
  \<open>_receive_exact\<close> / \<open>_receive_frame\<close> of the client. A connected socket is the list of
  chunks the kernel will hand out; \<open>recv n\<close> returns at most \<open>n\<close> bytes of the first chunk and
  leaves the rest, and the end of the list is the peer having closed the connection.
\<close>

section \<open>Definitions\<close>

text \<open>\<open>struct.pack("!I", n)\<close> and \<open>struct.unpack("!I", b)\<close>\<close>

definition pack_u32 :: "nat \<Rightarrow> bytes" where
  "pack_u32 n =
     [of_nat (n div 2 ^ 24), of_nat (n div 2 ^ 16 mod 256), of_nat (n div 2 ^ 8 mod 256),
      of_nat (n mod 256)]"

fun unpack_be :: "bytes \<Rightarrow> nat" where
  "unpack_be [] = 0"
| "unpack_be (b # bs) = unat b * 256 ^ length bs + unpack_be bs"

definition encode_frame :: "bytes \<Rightarrow> int \<Rightarrow> bytes result" where
  "encode_frame payload max_payload_bytes =
     rbind (guard (payload \<noteq> []) (ProtocolError ''frame payload must not be empty'')) (\<lambda>_.
     rbind (guard (\<not> (max_payload_bytes < int (length payload) \<or> u32_max < int (length payload)))
              (ProtocolError ''frame payload exceeds max_payload_bytes'')) (\<lambda>_.
     Inr (pack_u32 (length payload) @ payload)))"

type_synonym stream = "bytes list"

fun recv :: "nat \<Rightarrow> stream \<Rightarrow> bytes \<times> stream" where
  "recv n [] = ([], [])"
| "recv n (c # cs) = (if length c \<le> n then (c, cs) else (take n c, drop n c # cs))"

function receive_loop :: "nat \<Rightarrow> bytes \<Rightarrow> stream \<Rightarrow> bytes result \<times> stream" where
  "receive_loop sz data cs =
     (if length data < sz then
        (case recv (sz - length data) cs of
           ([], cs') \<Rightarrow>
             (Inl (EOFError (if data \<noteq> [] then ''Worker disconnected with a partial frame''
                             else ''Worker disconnected'')), cs')
         | (b # bs, cs') \<Rightarrow> receive_loop sz (data @ b # bs) cs')
      else (Inr data, cs))"
  by pat_completeness auto
termination
  by (relation "measure (\<lambda>(sz, data, cs). sz - length data)") auto

declare receive_loop.simps [simp del]

definition receive_exact :: "nat \<Rightarrow> stream \<Rightarrow> bytes result \<times> stream" where
  "receive_exact sz cs = receive_loop sz [] cs"

definition receive_frame :: "int \<Rightarrow> stream \<Rightarrow> bytes result \<times> stream" where
  "receive_frame max_payload_bytes cs =
     (case receive_exact 4 cs of
        (Inl e, cs') \<Rightarrow> (Inl e, cs')
      | (Inr prefix, cs') \<Rightarrow>
          let payload_size = unpack_be prefix
          in if payload_size = 0
             then (Inl (ProtocolError ''frame payload length must be positive''), cs')
             else if max_payload_bytes < int payload_size
             then (Inl (ProtocolError ''frame payload length exceeds configured limit''), cs')
             else receive_exact payload_size cs')"

text \<open>A stream in which no chunk is empty: the kernel never reports a zero-length read
  before the peer closes.\<close>

definition live :: "stream \<Rightarrow> bool" where
  "live cs \<longleftrightarrow> list_all (\<lambda>c. c \<noteq> []) cs"

section \<open>Lemmas\<close>

lemma length_pack_u32 [simp]: "length (pack_u32 n) = 4"
  by (simp add: pack_u32_def)

lemma unat_byte_of_nat: "unat (of_nat n :: byte) = n mod 256"
  by (simp add: unat_of_nat)

lemma base256_digits:
  "n = n div 16777216 * 16777216 + n div 65536 mod 256 * 65536 + n div 256 mod 256 * 256 + n mod (256::nat)"
proof -
  have "n = n div 256 * 256 + n mod 256" by presburger
  moreover have "n div 256 = n div 65536 * 256 + n div 256 mod 256"
    using div_mult_mod_eq [of "n div 256" 256] by (simp add: div_mult2_eq [symmetric])
  moreover have "n div 65536 = n div 16777216 * 256 + n div 65536 mod 256"
    using div_mult_mod_eq [of "n div 65536" 256] by (simp add: div_mult2_eq [symmetric])
  ultimately show ?thesis by linarith
qed

lemma unpack_pack_u32:
  assumes "n < 2 ^ 32"
  shows "unpack_be (pack_u32 n) = n"
proof -
  from assms have "n div 16777216 mod 256 = n div 16777216"
    by (simp add: less_mult_imp_div_less)
  then have "unpack_be (pack_u32 n) =
      n div 16777216 * 16777216 + n div 65536 mod 256 * 65536 + n div 256 mod 256 * 256 + n mod 256"
    by (simp add: pack_u32_def unat_byte_of_nat)
  then show ?thesis using base256_digits [of n] by simp
qed

lemma recv_length: "recv n cs = (r, cs') \<Longrightarrow> length r \<le> n"
  by (cases cs) (auto split: if_splits)

lemma recv_live:
  assumes "live cs" and "0 < n" and "recv n cs = (r, cs')"
  shows "live cs' \<and> r @ concat cs' = concat cs \<and> length r \<le> n \<and> (r = [] \<longrightarrow> concat cs = [])"
  using assms by (cases cs) (auto simp: live_def split: if_splits)

lemma receive_loop_enough:
  assumes "live cs" and "sz \<le> length data + length (concat cs)" and "length data \<le> sz"
  shows "\<exists>cs'. receive_loop sz data cs = (Inr (take sz (data @ concat cs)), cs') \<and> live cs' \<and>
           concat cs' = drop (sz - length data) (concat cs)"
  using assms
proof (induction sz data cs rule: receive_loop.induct)
  case (1 sz data cs)
  show ?case
  proof (cases "length data < sz")
    case False
    with 1 show ?thesis by (simp add: receive_loop.simps)
  next
    case True
    obtain r cs' where r: "recv (sz - length data) cs = (r, cs')" by force
    with True 1 have *: "live cs'" "r @ concat cs' = concat cs" "length r \<le> sz - length data"
      using recv_live [of cs "sz - length data" r cs'] by auto
    have "r \<noteq> []"
    proof
      assume "r = []"
      then have "concat cs = []" using recv_live [OF "1.prems"(1) _ r] True by linarith
      with True "1.prems"(2) show False by (metis add.right_neutral leD list.size(3))
    qed
    then obtain b bs where b: "r = b # bs" by (cases r) auto
    from * b True "1.prems" have "sz \<le> length (data @ b # bs) + length (concat cs')"
      by (metis append.assoc length_append)
    moreover from * b True have "length (data @ b # bs) \<le> sz" by simp
    ultimately obtain cs'' where
      "receive_loop sz (data @ b # bs) cs' =
         (Inr (take sz ((data @ b # bs) @ concat cs')), cs'')"
      "live cs''" "concat cs'' = drop (sz - length (data @ b # bs)) (concat cs')"
      using 1(1) [OF True r [symmetric] b] *(1) by blast
    moreover have "concat cs = (b # bs) @ concat cs'" using *(2) b by simp
    moreover have "drop (sz - length data) ((b # bs) @ concat cs') =
        drop (sz - length (data @ b # bs)) (concat cs')"
      using *(3) b by (simp only: drop_append) simp
    ultimately show ?thesis
      using True r b by (simp add: receive_loop.simps [of sz data cs])
  qed
qed

lemma receive_loop_short:
  assumes "live cs" and "length data + length (concat cs) < sz"
  shows "\<exists>m. receive_loop sz data cs = (Inl (EOFError m), [])"
  using assms
proof (induction sz data cs rule: receive_loop.induct)
  case (1 sz data cs)
  then have less: "length data < sz" by simp
  obtain r cs' where r: "recv (sz - length data) cs = (r, cs')" by force
  have *: "live cs'" "r @ concat cs' = concat cs"
    using recv_live [OF "1.prems"(1) _ r] less by auto
  show ?case
  proof (cases r)
    case Nil
    with r "1.prems" less have "cs = [] \<and> cs' = []"
      by (cases cs) (auto simp: live_def split: if_splits)
    with r Nil less show ?thesis by (auto simp: receive_loop.simps [of sz data "[]"])
  next
    case (Cons b bs)
    have "length (data @ b # bs) + length (concat cs') < sz"
      using * Cons "1.prems"(2) by (metis append.assoc length_append)
    with 1(1) [OF less r [symmetric] Cons] * r Cons less show ?thesis
      by (simp add: receive_loop.simps [of sz data cs])
  qed
qed


lemma receive_exact_enough:
  assumes "live cs" and "sz \<le> length (concat cs)"
  obtains cs' where "receive_exact sz cs = (Inr (take sz (concat cs)), cs')" "live cs'"
    "concat cs' = drop sz (concat cs)"
  using receive_loop_enough [of cs sz "[]"] assms by (auto simp: receive_exact_def)

lemma receive_exact_short:
  "live cs \<Longrightarrow> length (concat cs) < sz \<Longrightarrow> \<exists>m. receive_exact sz cs = (Inl (EOFError m), [])"
  using receive_loop_short [of cs "[]" sz] by (simp add: receive_exact_def)

lemma encode_frame_Inr [result_simps]:
  "encode_frame p mx = Inr f \<longleftrightarrow>
     p \<noteq> [] \<and> int (length p) \<le> mx \<and> int (length p) \<le> u32_max \<and> f = pack_u32 (length p) @ p"
  by (auto simp: encode_frame_def result_simps)

lemma receive_loop_length:
  "receive_loop sz data cs = (Inr d, cs') \<Longrightarrow> length data \<le> sz \<Longrightarrow> length d = sz"
proof (induction sz data cs arbitrary: d rule: receive_loop.induct)
  case (1 sz data cs)
  show ?case
  proof (cases "length data < sz")
    case False
    with "1.prems" show ?thesis by (simp add: receive_loop.simps [of sz data cs])
  next
    case True
    obtain r cs1 where r: "recv (sz - length data) cs = (r, cs1)" by force
    from True "1.prems" r obtain b bs where b: "r = b # bs"
      by (cases r) (auto simp: receive_loop.simps [of sz data cs])
    from r b have "length (b # bs) \<le> sz - length data"
      using recv_length by blast
    with 1(1) [OF True r [symmetric] b] "1.prems" True r b show ?thesis
      by (simp add: receive_loop.simps [of sz data cs])
  qed
qed

section \<open>Properties\<close>

text \<open>
  C15. However the kernel splits the bytes of a connection into reads, receiving a frame
  from a stream that starts with an encoded frame returns exactly the payload and leaves
  exactly the bytes behind the frame for the next call.
\<close>

theorem frame_roundtrip:
  assumes "encode_frame payload max_send = Inr frame"
    and "live cs" and "concat cs = frame @ rest" and "int (length payload) \<le> max_recv"
  shows "\<exists>cs'. receive_frame max_recv cs = (Inr payload, cs') \<and> live cs' \<and> concat cs' = rest"
proof -
  from assms(1) have p: "payload \<noteq> []" "length payload < 2 ^ 32"
    and frame: "frame = pack_u32 (length payload) @ payload"
    by (auto simp: encode_frame_Inr u32_max_def)
  obtain cs1 where 1: "receive_exact 4 cs = (Inr (pack_u32 (length payload)), cs1)" "live cs1"
    "concat cs1 = payload @ rest"
    using receive_exact_enough [of cs 4] assms(2,3) frame by auto
  obtain cs2 where "receive_exact (length payload) cs1 = (Inr payload, cs2)" "live cs2"
    "concat cs2 = rest"
    using receive_exact_enough [of cs1 "length payload"] 1(2,3) by auto
  with 1(1) p assms(4) show ?thesis
    by (simp add: receive_frame_def unpack_pack_u32)
qed

theorem frame_roundtrip_witness:
  "\<exists>cs'. receive_frame 10 [[0, 0], [0, 2, 65], [66, 9]] = (Inr [65, 66], cs') \<and> live cs' \<and> concat cs' = [9]"
  by (rule frame_roundtrip [where max_send = 10 and frame = "[0, 0, 0, 2, 65, 66]"])
    (simp_all add: encode_frame_def pack_u32_def live_def u32_max_def)

text \<open>
  The receiving side never returns a payload that is empty or larger than the limit it
  was given, whatever bytes the peer sends: a length prefix of zero or above the limit is a
  protocol error before any payload byte is read.
\<close>

theorem receive_frame_bounds:
  assumes "receive_frame max_recv cs = (Inr payload, cs')"
  shows "payload \<noteq> [] \<and> int (length payload) \<le> max_recv"
proof -
  from assms obtain prefix cs1 where
    1: "0 < unpack_be prefix" "int (unpack_be prefix) \<le> max_recv"
      "receive_exact (unpack_be prefix) cs1 = (Inr payload, cs')"
    by (auto simp: receive_frame_def Let_def split: prod.splits sum.splits if_splits)
  then have "length payload = unpack_be prefix"
    using receive_loop_length [of "unpack_be prefix" "[]"] by (simp add: receive_exact_def)
  with 1 show ?thesis by auto
qed

theorem receive_frame_bounds_witness:
  "([65] :: bytes) \<noteq> [] \<and> int (length ([65] :: bytes)) \<le> 4"
  by (rule receive_frame_bounds [where cs = "[[0, 0, 0, 1, 65]]" and cs' = "[]"])
    (simp add: receive_frame_def receive_exact_def receive_loop.simps)

text \<open>
  A connection that ends in the middle of a frame is reported as an \<open>EOFError\<close>, never as
  a short payload: if fewer bytes than a whole frame remain, receiving raises \<open>EOFError\<close>
  and the stream is at its end.
\<close>

theorem receive_frame_truncated:
  assumes "encode_frame payload max_send = Inr frame" and "int (length payload) \<le> max_recv"
    and "live cs" and "concat cs @ missing = frame" and "missing \<noteq> []"
  shows "\<exists>m. receive_frame max_recv cs = (Inl (EOFError m), [])"
proof -
  from assms(1) have p: "payload \<noteq> []" "length payload < 2 ^ 32"
    and frame: "frame = pack_u32 (length payload) @ payload"
    by (auto simp: encode_frame_Inr u32_max_def)
  have len: "length (concat cs) < 4 + length payload"
    using arg_cong [OF assms(4), of length] assms(5) frame by (cases missing) auto
  show ?thesis
  proof (cases "length (concat cs) < 4")
    case True
    then show ?thesis
      using receive_exact_short [OF assms(3), of 4] by (auto simp: receive_frame_def)
  next
    case False
    then have "take 4 (concat cs) = take 4 (concat cs @ missing)" by simp
    then have pre: "take 4 (concat cs) = pack_u32 (length payload)"
      by (simp add: assms(4) frame)
    obtain cs1 where 1: "receive_exact 4 cs = (Inr (pack_u32 (length payload)), cs1)" "live cs1"
      "concat cs1 = drop 4 (concat cs)"
      using receive_exact_enough [of cs 4] assms(3) False pre by auto
    moreover have "length (concat cs1) < length payload" using 1(3) len False by simp
    then obtain m where "receive_exact (length payload) cs1 = (Inl (EOFError m), [])"
      using receive_exact_short [OF 1(2)] by blast
    ultimately show ?thesis
      using p assms(2) by (simp add: receive_frame_def unpack_pack_u32)
  qed
qed

theorem receive_frame_truncated_witness:
  "\<exists>m. receive_frame 10 [[0, 0], [0, 2, 65]] = (Inl (EOFError m), [])"
  by (rule receive_frame_truncated
      [where payload = "[65, 66]" and max_send = 10 and frame = "[0, 0, 0, 2, 65, 66]"
        and missing = "[66]"])
    (simp_all add: encode_frame_def pack_u32_def live_def u32_max_def)

end
