(* ===== verification/Terminal_Stream.thy ===== *)
theory Terminal_Stream
  imports Prelude
begin

text \<open>
  The contract that both bounded event buffers of the program share (the client's
  \<open>_EventBuffer\<close> and the Gateway's \<open>_AsyncEventBuffer\<close>): deltas are queued up to a
  capacity and refused once a terminal is stored, one terminal is stored besides the
  queue, and a reader sees the queued deltas in order, then the terminal once, then the end
  of the stream. The lemmas of the locale hold for any interleaving of the operations.
\<close>

datatype ('d, 't) got = GotDelta 'd | GotTerminal 't | GotStop | WouldWait | TimedOut

datatype ('d, 't) stream_op = PutDelta 'd | PutTerminal 't | Take bool

fun got_event :: "('d, 't) got \<Rightarrow> ('d + 't) list" where
  "got_event (GotDelta d) = [Inl d]"
| "got_event (GotTerminal t) = [Inr t]"
| "got_event _ = []"

text \<open>
  One operation: the events it accepted into the buffer, the events it handed to the
  reader, and the new state.
\<close>

fun stream_step ::
  "('d \<Rightarrow> 's \<Rightarrow> bool \<times> 's) \<Rightarrow> ('t \<Rightarrow> 's \<Rightarrow> bool \<times> 's) \<Rightarrow> (bool \<Rightarrow> 's \<Rightarrow> ('d, 't) got \<times> 's) \<Rightarrow>
   ('d, 't) stream_op \<Rightarrow> 's \<Rightarrow> ('d + 't) list \<times> ('d + 't) list \<times> 's" where
  "stream_step put_delta put_terminal take_event (PutDelta d) s =
     (case put_delta d s of (ok, s') \<Rightarrow> (if ok then [Inl d] else [], [], s'))"
| "stream_step put_delta put_terminal take_event (PutTerminal t) s =
     (case put_terminal t s of (ok, s') \<Rightarrow> (if ok then [Inr t] else [], [], s'))"
| "stream_step put_delta put_terminal take_event (Take expired) s =
     (case take_event expired s of (g, s') \<Rightarrow> ([], got_event g, s'))"

fun stream_run ::
  "('d \<Rightarrow> 's \<Rightarrow> bool \<times> 's) \<Rightarrow> ('t \<Rightarrow> 's \<Rightarrow> bool \<times> 's) \<Rightarrow> (bool \<Rightarrow> 's \<Rightarrow> ('d, 't) got \<times> 's) \<Rightarrow>
   ('d, 't) stream_op list \<Rightarrow> 's \<Rightarrow> ('d + 't) list \<times> ('d + 't) list \<times> 's" where
  "stream_run put_delta put_terminal take_event [] s = ([], [], s)"
| "stream_run put_delta put_terminal take_event (x # xs) s =
     (case stream_step put_delta put_terminal take_event x s of (a, r, s') \<Rightarrow>
      case stream_run put_delta put_terminal take_event xs s' of (as, rs, s'') \<Rightarrow>
        (a @ as, r @ rs, s''))"

text \<open>The events still owed to the reader, and when a buffer's fields fit together.\<close>

definition owed_events :: "'d list \<Rightarrow> 't option \<Rightarrow> bool \<Rightarrow> ('d + 't) list" where
  "owed_events pend fin deliv = map Inl pend @ (if deliv then [] else map Inr (option_list fin))"

definition fields_sound :: "'d list \<Rightarrow> 't option \<Rightarrow> bool \<Rightarrow> int \<Rightarrow> bool" where
  "fields_sound pend fin deliv cap \<longleftrightarrow>
     int (length pend) \<le> cap \<and> (deliv \<longrightarrow> fin \<noteq> None \<and> pend = [])"

locale terminal_stream =
  fixes put_delta :: "'d \<Rightarrow> 's \<Rightarrow> bool \<times> 's"
    and put_terminal :: "'t \<Rightarrow> 's \<Rightarrow> bool \<times> 's"
    and take_event :: "bool \<Rightarrow> 's \<Rightarrow> ('d, 't) got \<times> 's"
    and pending :: "'s \<Rightarrow> 'd list"
    and final :: "'s \<Rightarrow> 't option"
    and delivered :: "'s \<Rightarrow> bool"
    and capacity :: "'s \<Rightarrow> int"
  assumes put_delta_accepted:
      "put_delta d s = (True, s') \<Longrightarrow>
         final s = None \<and> int (length (pending s)) < capacity s \<and> pending s' = pending s @ [d] \<and>
         final s' = None \<and> delivered s' = delivered s \<and> capacity s' = capacity s"
    and put_delta_refused:
      "put_delta d s = (False, s') \<Longrightarrow>
         pending s' = pending s \<and> final s' = final s \<and> delivered s' = delivered s \<and>
         capacity s' = capacity s"
    and put_terminal_first:
      "final s = None \<Longrightarrow>
         \<exists>s'. put_terminal t s = (True, s') \<and> pending s' = pending s \<and> final s' = Some t \<and>
              delivered s' = delivered s \<and> capacity s' = capacity s"
    and put_terminal_again: "final s \<noteq> None \<Longrightarrow> put_terminal t s = (False, s)"
    and take_delta:
      "pending s = d # ds \<Longrightarrow>
         \<exists>s'. take_event x s = (GotDelta d, s') \<and> pending s' = ds \<and> final s' = final s \<and>
              delivered s' = delivered s \<and> capacity s' = capacity s"
    and take_terminal:
      "pending s = [] \<Longrightarrow> final s = Some t \<Longrightarrow> \<not> delivered s \<Longrightarrow>
         \<exists>s'. take_event x s = (GotTerminal t, s') \<and> pending s' = [] \<and> final s' = Some t \<and>
              delivered s' \<and> capacity s' = capacity s"
    and take_end:
      "pending s = [] \<Longrightarrow> final s = Some t \<Longrightarrow> delivered s \<Longrightarrow> take_event x s = (GotStop, s)"
    and take_nothing:
      "pending s = [] \<Longrightarrow> final s = None \<Longrightarrow>
         take_event x s = (if x then TimedOut else WouldWait, s)"
begin

abbreviation owed :: "'s \<Rightarrow> ('d + 't) list" where
  "owed s \<equiv> owed_events (pending s) (final s) (delivered s)"

abbreviation sound :: "'s \<Rightarrow> bool" where
  "sound s \<equiv> fields_sound (pending s) (final s) (delivered s) (capacity s)"

lemma step_conserves:
  assumes "sound s" and "stream_step put_delta put_terminal take_event x s = (a, r, s')"
  shows "sound s' \<and> r @ owed s' = owed s @ a \<and> capacity s' = capacity s \<and>
    (final s \<noteq> None \<longrightarrow> a = [] \<and> final s' = final s) \<and>
    (final s = None \<longrightarrow> (a = [] \<and> final s' = None) \<or> (\<exists>d. a = [Inl d] \<and> final s' = None) \<or>
       (\<exists>t. a = [Inr t] \<and> final s' = Some t))"
proof (cases x)
  case (PutDelta d)
  obtain ok s1 where p: "put_delta d s = (ok, s1)" by force
  show ?thesis
    using assms p put_delta_accepted [of d s s1] put_delta_refused [of d s s1] PutDelta
    by (cases ok) (auto simp: fields_sound_def owed_events_def)
next
  case (PutTerminal t)
  show ?thesis
  proof (cases "final s")
    case None
    with assms PutTerminal put_terminal_first [OF None, of t] show ?thesis
      by (auto simp: fields_sound_def owed_events_def)
  next
    case (Some u)
    with assms PutTerminal put_terminal_again [of s t] show ?thesis by auto
  qed
next
  case (Take e)
  consider (d) d ds where "pending s = d # ds"
    | (t) t where "pending s = []" "final s = Some t" "\<not> delivered s"
    | (e) t where "pending s = []" "final s = Some t" "delivered s"
    | (n) "pending s = []" "final s = None"
    by (cases "pending s"; cases "final s"; cases "delivered s") auto
  then show ?thesis
  proof cases
    case d
    with assms Take take_delta [OF d, of e] show ?thesis by (auto simp: fields_sound_def owed_events_def)
  next
    case t
    with assms Take take_terminal [OF t, of e] show ?thesis by (auto simp: fields_sound_def owed_events_def)
  next
    case e
    with assms Take take_end [OF e] show ?thesis by auto
  next
    case n
    with assms Take take_nothing [OF n] show ?thesis by (auto split: if_splits)
  qed
qed

lemma run_conserves:
  assumes "sound s" and "stream_run put_delta put_terminal take_event ops s = (as, rs, s')"
  shows "sound s' \<and> capacity s' = capacity s \<and> rs @ owed s' = owed s @ as"
  using assms
proof (induction ops arbitrary: s as rs)
  case Nil
  then show ?case by simp
next
  case (Cons x xs)
  obtain a r s1 where st: "stream_step put_delta put_terminal take_event x s = (a, r, s1)"
    by (metis prod_cases3)
  obtain as' rs' where run: "stream_run put_delta put_terminal take_event xs s1 = (as', rs', s')"
    and eq: "as = a @ as'" "rs = r @ rs'"
    using Cons.prems(2) st by (auto split: prod.splits)
  note stp = step_conserves [OF Cons.prems(1) st]
  with Cons.IH [OF _ run] have "sound s' \<and> capacity s' = capacity s1 \<and> rs' @ owed s' = owed s1 @ as'"
    by blast
  with stp eq show ?case by (metis append.assoc)
qed

lemma run_final:
  assumes "sound s" and "stream_run put_delta put_terminal take_event ops s = (as, rs, s')"
  shows "(final s \<noteq> None \<longrightarrow> as = [] \<and> final s' = final s) \<and>
    (final s = None \<longrightarrow> (\<exists>ds. as = map Inl ds @ map Inr (option_list (final s'))))"
  using assms
proof (induction ops arbitrary: s as rs)
  case Nil
  then show ?case by (auto intro: exI [of _ "[]"])
next
  case (Cons x xs)
  obtain a r s1 where st: "stream_step put_delta put_terminal take_event x s = (a, r, s1)"
    by (metis prod_cases3)
  obtain as' rs' where run: "stream_run put_delta put_terminal take_event xs s1 = (as', rs', s')"
    and eq: "as = a @ as'"
    using Cons.prems(2) st by (auto split: prod.splits)
  note stp = step_conserves [OF Cons.prems(1) st]
  then have IH: "(final s1 \<noteq> None \<longrightarrow> as' = [] \<and> final s' = final s1) \<and>
      (final s1 = None \<longrightarrow> (\<exists>ds. as' = map Inl ds @ map Inr (option_list (final s'))))"
    using Cons.IH [OF _ run] by blast
  show ?case
  proof (cases "final s")
    case (Some u)
    with stp IH eq show ?thesis by auto
  next
    case None
    then consider "a = []" "final s1 = None" | d where "a = [Inl d]" "final s1 = None"
      | t where "a = [Inr t]" "final s1 = Some t"
      using stp by auto
    then show ?thesis
    proof cases
      case 1
      with IH eq None show ?thesis by auto
    next
      case 2
      with IH obtain ds where "as' = map Inl ds @ map Inr (option_list (final s'))" by blast
      with 2 eq None show ?thesis by (auto intro: exI [of _ "d # ds"])
    next
      case 3
      with IH eq None show ?thesis by (auto intro: exI [of _ "[]"])
    qed
  qed
qed

text \<open>
  Whatever the interleaving, the reader of a fresh buffer receives a prefix of the accepted
  deltas in order, followed by the terminal at most once and last.
\<close>

lemma fresh_stream:
  assumes "sound s" and "pending s = []" and "final s = None"
    and "stream_run put_delta put_terminal take_event ops s = (as, rs, s')"
  shows "\<exists>ds. as = map Inl ds @ map Inr (option_list (final s')) \<and> rs @ owed s' = as \<and>
           int (length (pending s')) \<le> capacity s"
proof -
  have "\<not> delivered s" using assms(1,3) by (auto simp: fields_sound_def)
  then have "owed s = []" using assms(2,3) by (simp add: owed_events_def)
  with run_conserves [OF assms(1,4)] run_final [OF assms(1,4)] assms(3) show ?thesis
    by (auto simp: fields_sound_def)
qed

end

end
