(* ===== verification/Event_Buffer.thy ===== *)
theory Event_Buffer
  imports Protocol Terminal_Stream
begin

text \<open>
  The client's per-request event buffer and the handle that reads it
  (\<open>_EventBuffer\<close> and \<open>GenerationHandle\<close> of \<open>generation_client.py\<close>). Every method body
  runs under the buffer's condition, so each is one atomic function. \<open>eb_get\<close> is one round
  of the wait loop of \<open>get\<close>: its argument says whether the deadline has passed, and
  \<open>WouldWait\<close> is going back to \<open>condition.wait\<close>.
\<close>

section \<open>Definitions\<close>

record EventBuffer =
  eb_max_delta_events :: int
  eb_deltas :: "TokenDelta list"
  eb_terminal :: "Terminal option"
  eb_terminal_delivered :: bool
  eb_overflowed :: bool

definition EventBuffer_init :: "int \<Rightarrow> EventBuffer" where
  "EventBuffer_init max_delta_events =
     \<lparr>eb_max_delta_events = max_delta_events, eb_deltas = [], eb_terminal = None,
      eb_terminal_delivered = False, eb_overflowed = False\<rparr>"

definition eb_put_delta :: "TokenDelta \<Rightarrow> EventBuffer \<Rightarrow> bool \<times> EventBuffer" where
  "eb_put_delta delta b =
     (if eb_terminal b \<noteq> None then (False, b)
      else if eb_max_delta_events b \<le> int (length (eb_deltas b))
      then (False, b\<lparr>eb_overflowed := True\<rparr>)
      else (True, b\<lparr>eb_deltas := eb_deltas b @ [delta]\<rparr>))"

definition eb_put_terminal :: "Terminal \<Rightarrow> EventBuffer \<Rightarrow> bool \<times> EventBuffer" where
  "eb_put_terminal terminal b =
     (if eb_terminal b \<noteq> None then (False, b)
      else (True, b\<lparr>eb_terminal := Some terminal\<rparr>))"

definition eb_get :: "bool \<Rightarrow> EventBuffer \<Rightarrow> (TokenDelta, Terminal) got \<times> EventBuffer" where
  "eb_get expired b =
     (case (eb_deltas b, eb_terminal b) of
        ([], None) \<Rightarrow> (if expired then TimedOut else WouldWait, b)
      | (d # ds, _) \<Rightarrow> (GotDelta d, b\<lparr>eb_deltas := ds\<rparr>)
      | ([], Some t) \<Rightarrow>
          if eb_terminal_delivered b then (GotStop, b)
          else (GotTerminal t, b\<lparr>eb_terminal_delivered := True\<rparr>))"

text \<open>
  \<open>collect\<close>: each round first checks the deadline, then takes an event. The list holds, for
  each round, whether the deadline has passed when the round starts; running out of rounds
  or having to wait is \<open>None\<close> (the call has not returned).
\<close>

fun collect :: "bool list \<Rightarrow> int list \<Rightarrow> EventBuffer \<Rightarrow> (int list \<times> Terminal) option result \<times> EventBuffer" where
  "collect [] tokens b = (Inr None, b)"
| "collect (expired # rounds) tokens b =
     (if expired then (Inl (TimeoutError ''timed out collecting generation result''), b)
      else case eb_get False b of
             (GotDelta d, b') \<Rightarrow> collect rounds (tokens @ td_token_ids d) b'
           | (GotTerminal t, b') \<Rightarrow> (Inr (Some (tokens, t)), b')
           | (GotStop, b') \<Rightarrow> (Inl StopIteration, b')
           | (_, b') \<Rightarrow> (Inr None, b'))"

text \<open>\<open>iter_events\<close>: what the generator yields within a number of rounds.\<close>

fun iter_events :: "nat \<Rightarrow> EventBuffer \<Rightarrow> GenerationEvent list \<times> EventBuffer" where
  "iter_events 0 b = ([], b)"
| "iter_events (Suc n) b =
     (case eb_get False b of
        (GotDelta d, b') \<Rightarrow> (case iter_events n b' of (es, b'') \<Rightarrow> (EvDelta d # es, b''))
      | (GotTerminal t, b') \<Rightarrow> ([EvTerminal t], b')
      | (_, b') \<Rightarrow> ([], b'))"

section \<open>The buffer implements the stream contract\<close>

lemmas event_buffer_defs = eb_put_delta_def eb_put_terminal_def eb_get_def

interpretation ebs: terminal_stream eb_put_delta eb_put_terminal eb_get
  eb_deltas eb_terminal eb_terminal_delivered eb_max_delta_events
  by unfold_locales (auto simp: event_buffer_defs split: if_splits)

abbreviation eb_run ::
  "(TokenDelta, Terminal) stream_op list \<Rightarrow> EventBuffer \<Rightarrow>
     (TokenDelta + Terminal) list \<times> (TokenDelta + Terminal) list \<times> EventBuffer" where
  "eb_run \<equiv> stream_run eb_put_delta eb_put_terminal eb_get"

abbreviation eb_owed :: "EventBuffer \<Rightarrow> (TokenDelta + Terminal) list" where
  "eb_owed b \<equiv> owed_events (eb_deltas b) (eb_terminal b) (eb_terminal_delivered b)"

section \<open>Lemmas\<close>

lemma fresh_sound [simp]:
  "0 \<le> n \<Longrightarrow> fields_sound (eb_deltas (EventBuffer_init n)) (eb_terminal (EventBuffer_init n))
     (eb_terminal_delivered (EventBuffer_init n)) (eb_max_delta_events (EventBuffer_init n))"
  by (simp add: fields_sound_def EventBuffer_init_def)

lemma overflow_only_when_full:
  assumes "eb_put_delta d b = (ok, b')" and "eb_overflowed b' \<noteq> eb_overflowed b"
  shows "\<not> ok \<and> eb_overflowed b' \<and> eb_max_delta_events b \<le> int (length (eb_deltas b))"
  using assms by (auto simp: eb_put_delta_def split: if_splits)

lemma collect_deltas:
  assumes "eb_deltas b = ds" and "eb_terminal b = Some t" and "\<not> eb_terminal_delivered b"
    and "length ds < length rounds" and "list_all Not (take (Suc (length ds)) rounds)"
  shows "fst (collect rounds tokens b) = Inr (Some (tokens @ concat (map td_token_ids ds), t))"
  using assms
proof (induction ds arbitrary: rounds tokens b)
  case Nil
  then show ?case by (cases rounds) (auto simp: eb_get_def)
next
  case (Cons d ds)
  then obtain rs where rs: "rounds = False # rs" by (cases rounds) auto
  with Cons.prems have "fst (collect rs (tokens @ td_token_ids d) (b\<lparr>eb_deltas := ds\<rparr>)) =
      Inr (Some ((tokens @ td_token_ids d) @ concat (map td_token_ids ds), t))"
    by (intro Cons.IH) auto
  with rs Cons.prems show ?case by (simp add: eb_get_def)
qed

section \<open>Properties\<close>

text \<open>
  C31. For every interleaving of writes and reads of a fresh buffer: the accepted events are
  deltas followed by at most one terminal; what the reader has received plus what the
  buffer still owes is exactly the accepted sequence in order, so the terminal is handed
  out at most once and after every accepted delta; and the queue never exceeds the
  configured capacity.
\<close>

theorem event_buffer_stream:
  assumes "0 \<le> n" and "eb_run ops (EventBuffer_init n) = (accepted, received, b)"
  shows "(\<exists>ds. accepted = map Inl ds @ map Inr (option_list (eb_terminal b))) \<and>
    received @ eb_owed b = accepted \<and> int (length (eb_deltas b)) \<le> n"
  using ebs.fresh_stream [OF fresh_sound [OF assms(1)] _ _ assms(2)]
  by (auto simp: EventBuffer_init_def)

theorem event_buffer_stream_witness:
  "let d = \<lparr>td_request_id = 1, td_sequence_no = 0, td_token_ids = [5]\<rparr>;
       t = \<lparr>tm_request_id = 1, tm_status = Status_make ''ok'' [], tm_finish_reason = Some ''eos'',
            tm_usage = Usage_default\<rparr>;
       b = (EventBuffer_init 1)\<lparr>eb_terminal := Some t, eb_terminal_delivered := True\<rparr>
   in (\<exists>ds. [Inl d, Inr t] = map Inl ds @ map Inr (option_list (eb_terminal b))) \<and>
      [Inl d, Inr t] @ eb_owed b = [Inl d, Inr t] \<and> int (length (eb_deltas b)) \<le> 1"
  unfolding Let_def
  by (rule event_buffer_stream [where ops = "[PutDelta _, PutTerminal _, PutDelta _, Take False, Take False]"])
    (simp_all add: event_buffer_defs EventBuffer_init_def)

text \<open>
  C32. \<open>collect\<close> returns: with the terminal stored and enough rounds before the deadline (one
  per queued delta and one for the terminal) it returns the concatenation of the token ids
  of all queued deltas in order, and the terminal.
\<close>

theorem collect_returns:
  assumes "eb_terminal b = Some t" and "\<not> eb_terminal_delivered b"
    and "length (eb_deltas b) < length rounds"
    and "list_all Not (take (Suc (length (eb_deltas b))) rounds)"
  shows "fst (collect rounds [] b) = Inr (Some (concat (map td_token_ids (eb_deltas b)), t))"
  using collect_deltas [OF refl assms, of "[]"] by simp

theorem collect_returns_witness:
  "let t = \<lparr>tm_request_id = 1, tm_status = Status_make ''ok'' [], tm_finish_reason = Some ''eos'',
            tm_usage = Usage_default\<rparr>;
       b = (EventBuffer_init 4)\<lparr>eb_terminal := Some t,
            eb_deltas := [\<lparr>td_request_id = 1, td_sequence_no = 0, td_token_ids = [5, 6]\<rparr>,
                          \<lparr>td_request_id = 1, td_sequence_no = 1, td_token_ids = [7]\<rparr>]\<rparr>
   in fst (collect [False, False, False] [] b) = Inr (Some ([5, 6, 7], t))"
  unfolding Let_def
  by (subst collect_returns) (simp_all add: EventBuffer_init_def)

text \<open>
  The order of the accepted events hides a gap: with room for one delta, a delta that is
  refused because the buffer is full and a read that makes room again are followed by the
  acceptance of the next delta, so the reader receives sequence numbers 0 and 2, and only the
  flag \<open>overflowed\<close> records that 1 is missing.
\<close>

theorem overflow_gap:
  "let d = (\<lambda>i. \<lparr>td_request_id = 1, td_sequence_no = i, td_token_ids = [i]\<rparr>);
       b = EventBuffer_init 1
   in eb_run [PutDelta (d 0), PutDelta (d 1), Take False, PutDelta (d 2), Take False] b =
      ([Inl (d 0), Inl (d 2)], [Inl (d 0), Inl (d 2)], b\<lparr>eb_overflowed := True\<rparr>)"
  by (simp add: event_buffer_defs EventBuffer_init_def Let_def)

end
