(* ===== verification/Wire.thy ===== *)
theory Wire
  imports Protocol
begin

text \<open>
  The Worker's side of the same protocol, from \<open>src/ipc/ipc_protocol.cpp\<close>: what its
  \<open>validate\<close> overloads accept (with the ranges of the C++ integer types written out) and the
  JSON objects its \<open>messageJson\<close> overloads build. The lemmas relate them to the Python
  decoder: everything the decoder accepts is a message the Worker could validate, and every
  validated message survives the trip unchanged.
\<close>

section \<open>Worker-side validation\<close>

definition worker_status_valid :: "Status \<Rightarrow> bool" where
  "worker_status_valid s \<longleftrightarrow> st_code s \<in> set STATUS_CODES"

definition worker_manifest_valid :: "ModelManifest \<Rightarrow> bool" where
  "worker_manifest_valid m \<longleftrightarrow>
     mm_model_id m \<noteq> [] \<and> mm_revision m \<noteq> [] \<and> mm_tokenizer_fingerprint m \<noteq> [] \<and>
     mm_chat_template_fingerprint m \<noteq> [] \<and> mm_engine_fingerprint m \<noteq> [] \<and> mm_precision m \<noteq> [] \<and>
     0 \<le> mm_eos_token_id m \<and> mm_eos_token_id m \<le> u31_max \<and>
     0 \<le> mm_pad_token_id m \<and> mm_pad_token_id m \<le> u31_max \<and>
     1 \<le> mm_max_input_tokens m \<and> mm_max_input_tokens m \<le> u32_max \<and>
     1 \<le> mm_max_output_tokens m \<and> mm_max_output_tokens m \<le> u32_max \<and>
     1 \<le> mm_max_sequence_tokens m \<and> mm_max_sequence_tokens m \<le> u32_max \<and>
     1 \<le> mm_max_batch_size m \<and> mm_max_batch_size m \<le> u32_max \<and>
     manifest_limits_ok m"

definition worker_limits_valid :: "WorkerLimits \<Rightarrow> bool" where
  "worker_limits_valid l \<longleftrightarrow>
     1 \<le> wl_max_active_requests l \<and> wl_max_active_requests l \<le> u32_max \<and>
     1 \<le> wl_max_total_input_tokens l \<and> wl_max_total_input_tokens l \<le> u64_max \<and>
     1 \<le> wl_max_reserved_output_tokens l \<and> wl_max_reserved_output_tokens l \<le> u64_max \<and>
     1 \<le> wl_max_frame_payload_bytes l \<and> wl_max_frame_payload_bytes l \<le> u32_max \<and>
     1 \<le> wl_max_session_egress_frames l \<and> wl_max_session_egress_frames l \<le> u32_max \<and>
     1 \<le> wl_max_session_egress_bytes l \<and> wl_max_session_egress_bytes l \<le> u64_max \<and>
     1 \<le> wl_max_request_egress_frames l \<and> wl_max_request_egress_frames l \<le> u32_max \<and>
     1 \<le> wl_max_request_egress_bytes l \<and> wl_max_request_egress_bytes l \<le> u64_max \<and>
     limits_hierarchy_ok l"

definition u64 :: "int \<Rightarrow> bool" where
  "u64 n \<longleftrightarrow> 0 \<le> n \<and> n \<le> u64_max"

definition worker_envelope_valid :: "int \<Rightarrow> int \<Rightarrow> bool" where
  "worker_envelope_valid epoch request_id \<longleftrightarrow>
     1 \<le> epoch \<and> epoch \<le> u64_max \<and> 1 \<le> request_id \<and> request_id \<le> u64_max"

definition worker_terminal_valid :: "int \<Rightarrow> Terminal \<Rightarrow> bool" where
  "worker_terminal_valid epoch t \<longleftrightarrow>
     worker_envelope_valid epoch (tm_request_id t) \<and> worker_status_valid (tm_status t) \<and>
     \<not> (status_ok (tm_status t) \<and> tm_finish_reason t = None) \<and>
     (case tm_finish_reason t of None \<Rightarrow> True | Some r \<Rightarrow> r \<in> set FINISH_REASONS) \<and>
     u64 (us_prompt_tokens (tm_usage t)) \<and> u64 (us_completion_tokens (tm_usage t))"

definition worker_stats_valid :: "int \<Rightarrow> Stats \<Rightarrow> bool" where
  "worker_stats_valid epoch s \<longleftrightarrow>
     1 \<le> epoch \<and> epoch \<le> u64_max \<and> 1 \<le> ss_probe_id s \<and> ss_probe_id s \<le> u64_max \<and>
     worker_status_valid (ss_status s) \<and> ss_ready s = status_ok (ss_status s) \<and>
     u64 (ss_uptime_ms s) \<and> u64 (ss_active_requests s) \<and> u64 (ss_reserved_input_tokens s) \<and>
     u64 (ss_reserved_output_tokens s) \<and> u64 (ss_session_egress_frames s) \<and>
     u64 (ss_session_egress_bytes s) \<and> u64 (ss_session_egress_high_watermark_frames s) \<and>
     u64 (ss_session_egress_high_watermark_bytes s) \<and> u64 (ss_rejected_requests s) \<and>
     u64 (ss_backpressure_requests s) \<and> u64 (ss_cancelled_requests s) \<and> stats_watermarks_ok s"

fun worker_message_valid :: "int \<Rightarrow> ServerMessage \<Rightarrow> bool" where
  "worker_message_valid epoch (MHelloAck h) \<longleftrightarrow>
     ha_worker_epoch h = epoch \<and> 1 \<le> epoch \<and> epoch \<le> u64_max \<and>
     worker_manifest_valid (ha_manifest h) \<and> worker_limits_valid (ha_limits h)"
| "worker_message_valid epoch (MAccepted i) \<longleftrightarrow> worker_envelope_valid epoch i"
| "worker_message_valid epoch (MRejected i s) \<longleftrightarrow>
     worker_envelope_valid epoch i \<and> worker_status_valid s \<and> \<not> status_ok s"
| "worker_message_valid epoch (MTokenDelta t) \<longleftrightarrow>
     worker_envelope_valid epoch (td_request_id t) \<and> u64 (td_sequence_no t) \<and>
     td_token_ids t \<noteq> [] \<and> list_all (\<lambda>x. 0 \<le> x \<and> x \<le> u31_max) (td_token_ids t)"
| "worker_message_valid epoch (MTerminal t) \<longleftrightarrow> worker_terminal_valid epoch t"
| "worker_message_valid epoch (MStats s) \<longleftrightarrow> worker_stats_valid epoch s"

section \<open>Worker-side encoding\<close>

definition statusJson :: "Status \<Rightarrow> json" where
  "statusJson s = JDict [(''code'', JStr (st_code s)), (''message'', JStr (st_message s))]"

definition manifestJson :: "ModelManifest \<Rightarrow> json" where
  "manifestJson m = JDict
     [(''model_id'', JStr (mm_model_id m)), (''revision'', JStr (mm_revision m)),
      (''tokenizer_fingerprint'', JStr (mm_tokenizer_fingerprint m)),
      (''chat_template_fingerprint'', JStr (mm_chat_template_fingerprint m)),
      (''engine_fingerprint'', JStr (mm_engine_fingerprint m)),
      (''eos_token_id'', JInt (mm_eos_token_id m)), (''pad_token_id'', JInt (mm_pad_token_id m)),
      (''max_input_tokens'', JInt (mm_max_input_tokens m)),
      (''max_output_tokens'', JInt (mm_max_output_tokens m)),
      (''max_sequence_tokens'', JInt (mm_max_sequence_tokens m)),
      (''precision'', JStr (mm_precision m)), (''max_batch_size'', JInt (mm_max_batch_size m))]"

definition limitsJson :: "WorkerLimits \<Rightarrow> json" where
  "limitsJson l = JDict
     [(''max_active_requests'', JInt (wl_max_active_requests l)),
      (''max_total_input_tokens'', JInt (wl_max_total_input_tokens l)),
      (''max_reserved_output_tokens'', JInt (wl_max_reserved_output_tokens l)),
      (''max_frame_payload_bytes'', JInt (wl_max_frame_payload_bytes l)),
      (''max_session_egress_frames'', JInt (wl_max_session_egress_frames l)),
      (''max_session_egress_bytes'', JInt (wl_max_session_egress_bytes l)),
      (''max_request_egress_frames'', JInt (wl_max_request_egress_frames l)),
      (''max_request_egress_bytes'', JInt (wl_max_request_egress_bytes l))]"

definition usageJson :: "Usage \<Rightarrow> json" where
  "usageJson u = JDict
     [(''prompt_tokens'', JInt (us_prompt_tokens u)),
      (''completion_tokens'', JInt (us_completion_tokens u))]"

definition envelopeJson :: "string \<Rightarrow> int \<Rightarrow> (string \<times> json) list" where
  "envelopeJson name epoch =
     [(''type'', JStr name), (''protocol_version'', JInt PROTOCOL_VERSION), (''worker_epoch'', JInt epoch)]"

definition statsJson :: "int \<Rightarrow> Stats \<Rightarrow> json" where
  "statsJson epoch s = JDict (envelopeJson ''stats'' epoch @
     [(''probe_id'', JInt (ss_probe_id s)), (''ready'', JBool (ss_ready s)),
      (''status'', statusJson (ss_status s)), (''uptime_ms'', JInt (ss_uptime_ms s)),
      (''active_requests'', JInt (ss_active_requests s)),
      (''reserved_input_tokens'', JInt (ss_reserved_input_tokens s)),
      (''reserved_output_tokens'', JInt (ss_reserved_output_tokens s)),
      (''session_egress_frames'', JInt (ss_session_egress_frames s)),
      (''session_egress_bytes'', JInt (ss_session_egress_bytes s)),
      (''session_egress_high_watermark_frames'', JInt (ss_session_egress_high_watermark_frames s)),
      (''session_egress_high_watermark_bytes'', JInt (ss_session_egress_high_watermark_bytes s)),
      (''rejected_requests'', JInt (ss_rejected_requests s)),
      (''backpressure_requests'', JInt (ss_backpressure_requests s)),
      (''cancelled_requests'', JInt (ss_cancelled_requests s))])"

fun messageJson :: "int \<Rightarrow> ServerMessage \<Rightarrow> json" where
  "messageJson epoch (MHelloAck h) = JDict (envelopeJson ''hello_ack'' (ha_worker_epoch h) @
     [(''manifest'', manifestJson (ha_manifest h)), (''limits'', limitsJson (ha_limits h))])"
| "messageJson epoch (MAccepted i) =
     JDict (envelopeJson ''accepted'' epoch @ [(''request_id'', JInt i)])"
| "messageJson epoch (MRejected i s) =
     JDict (envelopeJson ''rejected'' epoch @ [(''request_id'', JInt i), (''status'', statusJson s)])"
| "messageJson epoch (MTokenDelta t) = JDict (envelopeJson ''token_delta'' epoch @
     [(''request_id'', JInt (td_request_id t)), (''sequence_no'', JInt (td_sequence_no t)),
      (''token_ids'', JList (map JInt (td_token_ids t)))])"
| "messageJson epoch (MTerminal t) = JDict (envelopeJson ''terminal'' epoch @
     [(''request_id'', JInt (tm_request_id t)), (''status'', statusJson (tm_status t)),
      (''finish_reason'', case tm_finish_reason t of None \<Rightarrow> JNull | Some r \<Rightarrow> JStr r),
      (''usage'', usageJson (tm_usage t))])"
| "messageJson epoch (MStats s) = statsJson epoch s"

section \<open>Lemmas\<close>

lemmas worker_valid_defs = worker_status_valid_def worker_manifest_valid_def worker_limits_valid_def
  worker_envelope_valid_def worker_terminal_valid_def worker_stats_valid_def u64_def

lemma manifest_from_json_Inr [result_simps]:
  "manifest_from_json v = Inr m \<longleftrightarrow>
     (\<exists>d. v = JDict d \<and> keys_are d manifest_fields \<and> worker_manifest_valid m \<and>
        map_of d ''model_id'' = Some (JStr (mm_model_id m)) \<and>
        map_of d ''revision'' = Some (JStr (mm_revision m)) \<and>
        map_of d ''tokenizer_fingerprint'' = Some (JStr (mm_tokenizer_fingerprint m)) \<and>
        map_of d ''chat_template_fingerprint'' = Some (JStr (mm_chat_template_fingerprint m)) \<and>
        map_of d ''engine_fingerprint'' = Some (JStr (mm_engine_fingerprint m)) \<and>
        map_of d ''eos_token_id'' = Some (JInt (mm_eos_token_id m)) \<and>
        map_of d ''pad_token_id'' = Some (JInt (mm_pad_token_id m)) \<and>
        map_of d ''max_input_tokens'' = Some (JInt (mm_max_input_tokens m)) \<and>
        map_of d ''max_output_tokens'' = Some (JInt (mm_max_output_tokens m)) \<and>
        map_of d ''max_sequence_tokens'' = Some (JInt (mm_max_sequence_tokens m)) \<and>
        map_of d ''precision'' = Some (JStr (mm_precision m)) \<and>
        map_of d ''max_batch_size'' = Some (JInt (mm_max_batch_size m)))"
  by (cases m) (auto simp: manifest_from_json_def result_simps Let_def worker_manifest_valid_def)

lemma limits_from_json_Inr [result_simps]:
  "limits_from_json v = Inr l \<longleftrightarrow>
     (\<exists>d. v = JDict d \<and> keys_are d limits_fields \<and> worker_limits_valid l \<and>
        map_of d ''max_active_requests'' = Some (JInt (wl_max_active_requests l)) \<and>
        map_of d ''max_total_input_tokens'' = Some (JInt (wl_max_total_input_tokens l)) \<and>
        map_of d ''max_reserved_output_tokens'' = Some (JInt (wl_max_reserved_output_tokens l)) \<and>
        map_of d ''max_frame_payload_bytes'' = Some (JInt (wl_max_frame_payload_bytes l)) \<and>
        map_of d ''max_session_egress_frames'' = Some (JInt (wl_max_session_egress_frames l)) \<and>
        map_of d ''max_session_egress_bytes'' = Some (JInt (wl_max_session_egress_bytes l)) \<and>
        map_of d ''max_request_egress_frames'' = Some (JInt (wl_max_request_egress_frames l)) \<and>
        map_of d ''max_request_egress_bytes'' = Some (JInt (wl_max_request_egress_bytes l)))"
  by (cases l) (auto simp: limits_from_json_def result_simps Let_def worker_limits_valid_def)


subsection \<open>Soundness of the decoder\<close>

lemma decode_hello_ack_valid:
  "decode_hello_ack v ex = Inr m \<Longrightarrow>
     \<exists>h. m = MHelloAck h \<and> worker_message_valid (ha_worker_epoch h) m \<and>
         (\<forall>e. ex = Some e \<longrightarrow> ha_worker_epoch h = e)"
  by (auto simp: decode_hello_ack_def result_simps)

lemma decode_accepted_valid: "decode_accepted v e = Inr m \<Longrightarrow> worker_message_valid e m"
  by (auto simp: decode_accepted_def result_simps worker_envelope_valid_def)

lemma decode_rejected_valid: "decode_rejected v e = Inr m \<Longrightarrow> worker_message_valid e m"
  by (auto simp: decode_rejected_def result_simps worker_envelope_valid_def worker_status_valid_def)

lemma decode_token_delta_valid: "decode_token_delta v e = Inr m \<Longrightarrow> worker_message_valid e m"
  by (auto simp: decode_token_delta_def result_simps worker_envelope_valid_def u64_def list_all_iff)

lemma decode_terminal_valid: "decode_terminal v e = Inr m \<Longrightarrow> worker_message_valid e m"
  by (auto simp: decode_terminal_def result_simps worker_valid_defs)

lemma decode_stats_valid: "decode_stats v e = Inr m \<Longrightarrow> worker_message_valid e m"
  by (auto simp: decode_stats_def result_simps worker_valid_defs Let_def)

lemmas decode_valid = decode_accepted_valid decode_rejected_valid decode_token_delta_valid
  decode_terminal_valid decode_stats_valid

lemma decode_server_value_valid:
  assumes "decode_server_value v (Some e) = Inr m"
  shows "worker_message_valid e m"
  using assms decode_valid decode_hello_ack_valid [of v "Some e" m]
  by (auto simp: decode_server_value_def result_simps split: json.splits if_splits)

lemma decode_server_value_None:
  assumes "decode_server_value v None = Inr m"
  shows "\<exists>h. m = MHelloAck h \<and> worker_message_valid (ha_worker_epoch h) m"
  using assms decode_hello_ack_valid [of v None m]
  by (auto simp: decode_server_value_def result_simps split: json.splits if_splits)

subsection \<open>Round trips\<close>

lemma statusJson_roundtrip: "status_from_json (statusJson s) = Inr s \<longleftrightarrow> worker_status_valid s"
  by (simp add: status_from_json_Inr statusJson_def worker_status_valid_def keys_are_def)

lemma usageJson_roundtrip:
  "usage_from_json (usageJson u) = Inr u \<longleftrightarrow> u64 (us_prompt_tokens u) \<and> u64 (us_completion_tokens u)"
  by (simp add: usage_from_json_Inr usageJson_def keys_are_def u64_def)

lemma manifestJson_roundtrip:
  "manifest_from_json (manifestJson m) = Inr m \<longleftrightarrow> worker_manifest_valid m"
  by (simp add: manifest_from_json_Inr manifestJson_def manifest_fields_def keys_are_def)

lemma limitsJson_roundtrip:
  "limits_from_json (limitsJson l) = Inr l \<longleftrightarrow> worker_limits_valid l"
  by (simp add: limits_from_json_Inr limitsJson_def limits_fields_def keys_are_def)


lemmas nested_roundtrips [simp] = statusJson_roundtrip [THEN iffD2] usageJson_roundtrip [THEN iffD2, OF conjI]
  manifestJson_roundtrip [THEN iffD2] limitsJson_roundtrip [THEN iffD2]

text \<open>The decoders run forwards on the objects the Worker builds.\<close>

lemmas decode_forward = require_exact_fields_def py_getitem_def py_get_def envelopeJson_def
  require_protocol_def require_epoch_def require_bool_def field_int_def request_envelope_def
  keys_are_def PROTOCOL_VERSION_def u32_max_def

lemma rmap_token_ids [simp]:
  "list_all (\<lambda>x. 0 \<le> x \<and> x \<le> u31_max) ts \<Longrightarrow>
     rmap (\<lambda>t. require_int t ''token_id'' 0 u31_max) (map JInt ts) = Inr ts"
  by (induction ts) auto

lemma decode_token_ids_map [simp]:
  "ts \<noteq> [] \<Longrightarrow> list_all (\<lambda>x. 0 \<le> x \<and> x \<le> u31_max) ts \<Longrightarrow>
     decode_token_ids (JList (map JInt ts)) = Inr ts"
  by (simp add: decode_token_ids_Inr list_all_iff)

lemma hello_ack_roundtrip:
  assumes "worker_message_valid e (MHelloAck h)" and "ex = None \<or> ex = Some e"
  shows "decode_server_value (messageJson e (MHelloAck h)) ex = Inr (MHelloAck h)"
  using assms
  by (auto simp: decode_server_value_def decode_hello_ack_def decode_forward require_string_def)

lemma accepted_roundtrip:
  "worker_message_valid e (MAccepted i) \<Longrightarrow>
     decode_server_value (messageJson e (MAccepted i)) (Some e) = Inr (MAccepted i)"
  by (simp add: decode_server_value_def decode_accepted_def decode_forward require_string_def
      worker_envelope_valid_def)

lemma rejected_roundtrip:
  "worker_message_valid e (MRejected i s) \<Longrightarrow>
     decode_server_value (messageJson e (MRejected i s)) (Some e) = Inr (MRejected i s)"
  by (simp add: decode_server_value_def decode_rejected_def decode_forward require_string_def
      worker_envelope_valid_def)

lemma token_delta_roundtrip:
  "worker_message_valid e (MTokenDelta t) \<Longrightarrow>
     decode_server_value (messageJson e (MTokenDelta t)) (Some e) = Inr (MTokenDelta t)"
  by (simp add: decode_server_value_def decode_token_delta_def decode_forward require_string_def
      worker_envelope_valid_def u64_def)

lemma decode_finish_reason_forward:
  "case r of None \<Rightarrow> True | Some s \<Rightarrow> s \<in> set FINISH_REASONS \<Longrightarrow>
     decode_finish_reason (case r of None \<Rightarrow> JNull | Some s \<Rightarrow> JStr s) = Inr r"
  by (auto simp: decode_finish_reason_Inr split: option.splits)

lemma terminal_roundtrip:
  "worker_message_valid e (MTerminal t) \<Longrightarrow>
     decode_server_value (messageJson e (MTerminal t)) (Some e) = Inr (MTerminal t)"
  by (simp add: decode_server_value_def decode_terminal_def decode_forward require_string_def
      worker_terminal_valid_def worker_envelope_valid_def decode_finish_reason_forward)

lemma stats_roundtrip:
  "worker_message_valid e (MStats s) \<Longrightarrow>
     decode_server_value (messageJson e (MStats s)) (Some e) = Inr (MStats s)"
  by (cases s) (simp add: decode_server_value_def decode_stats_def decode_forward require_string_def
      worker_stats_valid_def u64_def statsJson_def stats_fields_def Let_def stats_watermarks_ok_def)

lemmas message_roundtrips = hello_ack_roundtrip [of _ _ "Some _", simplified] accepted_roundtrip
  rejected_roundtrip token_delta_roundtrip terminal_roundtrip stats_roundtrip


section \<open>Properties\<close>



text \<open>
  C8. The decoder is sound: whatever the payload, a message it returns for an expected epoch
  is one that the Worker's own validation accepts under exactly that epoch (ranges of all
  integers, known status codes and finish reasons, consistent limits, watermarks and
  readiness); before the handshake it returns nothing but a valid HelloAck.
\<close>

theorem decode_server_message_sound:
  assumes "decode_server_message loads payload expected = Inr m"
  shows "case expected of
           Some e \<Rightarrow> worker_message_valid e m
         | None \<Rightarrow> (\<exists>h. m = MHelloAck h \<and> worker_message_valid (ha_worker_epoch h) m)"
  using assms decode_server_value_valid decode_server_value_None
  by (auto simp: decode_server_message_def split: sum.splits option.splits)

theorem decode_server_message_sound_witness:
  "worker_message_valid 7 (MAccepted 3)"
  using decode_server_message_sound
    [of "\<lambda>_. Inr (messageJson 7 (MAccepted 3))" "[]" "Some 7" "MAccepted 3"]
  by (simp add: decode_server_message_def accepted_roundtrip worker_envelope_valid_def u64_max_def)

end
