(* ===== verification/Client.thy ===== *)
theory Client
  imports Framing Event_Buffer Wire
begin

text \<open>
  \<open>GenerationClient\<close> of \<open>generation_client.py\<close>. The object's fields are the record
  \<open>Client\<close>. \<open>_RequestState\<close> objects and probe queues are shared between the dictionaries,
  the submitting or probing thread and the handle, so they live in stores (\<open>cl_states\<close>,
  \<open>cl_queues\<close>) and are named by their index; a reader thread is named by the number of the
  connection it reads. Every \<open>with self._state_condition\<close> block is one function; the
  methods are compositions of these blocks with the sends between them. What the kernel
  answers is passed in: \<open>sendall\<close> maps a frame to the message of the \<open>OSError\<close> it raises, if
  any; a connection's input is a \<open>stream\<close>. A method returns its result or exception paired
  with the new state.
\<close>

section \<open>State\<close>

record GenerationClientConfig =
  gc_socket_path :: string
  gc_expected_manifest :: ModelManifest
  gc_connect_timeout :: pyfloat
  gc_handshake_timeout :: pyfloat
  gc_max_frame_payload_bytes :: int
  gc_max_pending_requests :: int
  gc_max_delta_events_per_request :: int

record RequestState =
  rs_request_id :: int
  rs_events :: EventBuffer
  rs_accepted :: bool
  rs_rejected :: "Status option"
  rs_failure :: "Status option"
  rs_next_sequence_no :: int
  rs_terminal_received :: bool
  rs_cancel_sent :: bool

record Client =
  cl_config :: GenerationClientConfig
  cl_socket :: "nat option"
  cl_reader_thread :: "nat option"
  cl_hello_ack :: "HelloAck option"
  cl_connected :: bool
  cl_requests :: "(int, nat) dict"
  cl_probes :: "(int, nat) dict"
  cl_next_probe_id :: int
  cl_states :: "RequestState list"
  cl_queues :: "Stats option option list"
  cl_live_readers :: "nat list"
  cl_next_conn :: nat
  cl_sent :: "(nat \<times> bytes) list"

type_synonym sendall_fun = "bytes \<Rightarrow> string option"

definition RequestState_init :: "int \<Rightarrow> int \<Rightarrow> RequestState" where
  "RequestState_init request_id max_delta_events =
     \<lparr>rs_request_id = request_id, rs_events = EventBuffer_init max_delta_events,
      rs_accepted = False, rs_rejected = None, rs_failure = None, rs_next_sequence_no = 0,
      rs_terminal_received = False, rs_cancel_sent = False\<rparr>"

definition upd_state :: "nat \<Rightarrow> (RequestState \<Rightarrow> RequestState) \<Rightarrow> Client \<Rightarrow> Client" where
  "upd_state r f c = c\<lparr>cl_states := (cl_states c)[r := f (cl_states c ! r)]\<rparr>"

definition upd_events :: "(EventBuffer \<Rightarrow> EventBuffer) \<Rightarrow> RequestState \<Rightarrow> RequestState" where
  "upd_events f s = s\<lparr>rs_events := f (rs_events s)\<rparr>"

section \<open>Construction\<close>

definition validate_config :: "GenerationClientConfig \<Rightarrow> unit result" where
  "validate_config config =
     rbind (guard (gc_socket_path config \<noteq> []) (ValueError ''socket_path must not be empty'')) (\<lambda>_.
     rbind (guard (\<not> (float_le (gc_connect_timeout config) (Fin 0) \<or>
                      float_le (gc_handshake_timeout config) (Fin 0)))
              (ValueError ''connect and handshake timeouts must be positive'')) (\<lambda>_.
     guard (\<not> (gc_max_frame_payload_bytes config \<le> 0 \<or> gc_max_pending_requests config \<le> 0 \<or>
               gc_max_delta_events_per_request config \<le> 0))
       (ValueError ''GenerationClient capacities must be positive'')))"

definition GenerationClient_init :: "GenerationClientConfig \<Rightarrow> Client result" where
  "GenerationClient_init config =
     rbind (validate_config config) (\<lambda>_.
     Inr \<lparr>cl_config = config, cl_socket = None, cl_reader_thread = None, cl_hello_ack = None,
          cl_connected = False, cl_requests = [], cl_probes = [], cl_next_probe_id = 1,
          cl_states = [], cl_queues = [], cl_live_readers = [], cl_next_conn = 0, cl_sent = []\<rparr>)"

section \<open>Failure\<close>

definition not_connected :: exn where
  "not_connected = WorkerUnavailableError ''GenerationClient is not connected''"

definition require_connected_locked :: "Client \<Rightarrow> HelloAck result" where
  "require_connected_locked c =
     (if \<not> cl_connected c \<or> cl_socket c = None then Inl not_connected
      else case cl_hello_ack c of None \<Rightarrow> Inl not_connected | Some h \<Rightarrow> Inr h)"

text \<open>The properties \<open>worker_epoch\<close>, \<open>manifest\<close> and \<open>limits\<close> read the stored HelloAck.\<close>

definition hello_property :: "(HelloAck \<Rightarrow> 'a) \<Rightarrow> Client \<Rightarrow> 'a result" where
  "hello_property f c = (case cl_hello_ack c of None \<Rightarrow> Inl not_connected | Some h \<Rightarrow> Inr (f h))"

text \<open>
  The locked part of \<open>_fail\<close>: the connection, HelloAck, requests and probes are dropped in
  one block and every dropped request learns the failure. The requests and probes that
  were registered are returned.
\<close>

definition fail_locked :: "Status \<Rightarrow> Client \<Rightarrow> nat list \<times> nat list \<times> Client" where
  "fail_locked status c =
     (let requests = map snd (cl_requests c); probes = map snd (cl_probes c);
          c' = c\<lparr>cl_socket := None, cl_connected := False, cl_hello_ack := None,
                 cl_requests := [], cl_probes := []\<rparr>
      in (requests, probes,
          fold (\<lambda>r. upd_state r (\<lambda>s. s\<lparr>rs_failure := Some status\<rparr>)) requests c'))"

definition failure_terminal :: "Status \<Rightarrow> RequestState \<Rightarrow> Terminal" where
  "failure_terminal status s =
     \<lparr>tm_request_id = rs_request_id s, tm_status = Status_make ''unavailable'' (st_message status),
      tm_finish_reason = None, tm_usage = Usage_default\<rparr>"

text \<open>After the lock: a terminal for every dropped request that is accepted and has none.\<close>

definition needs_terminal :: "RequestState \<Rightarrow> bool" where
  "needs_terminal s \<longleftrightarrow> rs_accepted s \<and> \<not> rs_terminal_received s"

definition deliver_terminal :: "Terminal \<Rightarrow> nat \<Rightarrow> Client \<Rightarrow> Client" where
  "deliver_terminal t r c = upd_state r (upd_events (\<lambda>b. snd (eb_put_terminal t b))) c"

definition fail_deliver :: "Status \<Rightarrow> nat \<Rightarrow> Client \<Rightarrow> Client" where
  "fail_deliver status r c =
     (if needs_terminal (cl_states c ! r)
      then deliver_terminal (failure_terminal status (cl_states c ! r)) r c else c)"

text \<open>\<open>put_nowait\<close> on a queue of capacity one; a full queue keeps its content.\<close>

definition queue_put :: "nat \<Rightarrow> Stats option \<Rightarrow> Client \<Rightarrow> Client" where
  "queue_put q v c =
     (case cl_queues c ! q of
        None \<Rightarrow> c\<lparr>cl_queues := (cl_queues c)[q := Some v]\<rparr>
      | Some _ \<Rightarrow> c)"

text \<open>Joining waits until the reader has ended; a dead reader is forgotten.\<close>

definition fail_reap :: "bool \<Rightarrow> nat option \<Rightarrow> Client \<Rightarrow> Client" where
  "fail_reap join_reader reader c =
     (case reader of
        None \<Rightarrow> c
      | Some t \<Rightarrow>
          let c1 = (if join_reader then c\<lparr>cl_live_readers := removeAll t (cl_live_readers c)\<rparr> else c)
          in if t \<notin> set (cl_live_readers c1) \<and> cl_reader_thread c1 = Some t
             then c1\<lparr>cl_reader_thread := None\<rparr> else c1)"

definition fail :: "bool \<Rightarrow> Status \<Rightarrow> Client \<Rightarrow> Client" where
  "fail join_reader status c =
     (case fail_locked status c of (requests, probes, c1) \<Rightarrow>
        fail_reap join_reader (cl_reader_thread c)
          (fold (\<lambda>q. queue_put q None) probes (fold (fail_deliver status) requests c1)))"

section \<open>Sending\<close>

definition unavailable :: "string \<Rightarrow> Status" where
  "unavailable m = Status_make ''unavailable'' m"

text \<open>The locked part of \<open>_send_payload\<close>: which socket to write to and the frame limit.\<close>

definition send_prepare :: "Client \<Rightarrow> (nat \<times> int) result" where
  "send_prepare c =
     rbind (require_connected_locked c) (\<lambda>h.
     Inr (the (cl_socket c), wl_max_frame_payload_bytes (ha_limits h)))"

definition send_write :: "sendall_fun \<Rightarrow> nat \<Rightarrow> int \<Rightarrow> bytes \<Rightarrow> Client \<Rightarrow> unit result \<times> Client" where
  "send_write sendall connection max_payload payload c =
     (case encode_frame payload max_payload of
        Inl e \<Rightarrow> (Inl e, c)
      | Inr frame \<Rightarrow>
          (case sendall frame of
             None \<Rightarrow> (Inr (), c\<lparr>cl_sent := cl_sent c @ [(connection, frame)]\<rparr>)
           | Some m \<Rightarrow>
               let failure = unavailable (''Worker IPC write failed: '' @ m)
               in (Inl (WorkerUnavailableError (st_message failure)), fail False failure c)))"

definition send_payload :: "sendall_fun \<Rightarrow> bytes \<Rightarrow> Client \<Rightarrow> unit result \<times> Client" where
  "send_payload sendall payload c =
     (case send_prepare c of
        Inl e \<Rightarrow> (Inl e, c)
      | Inr (connection, max_payload) \<Rightarrow> send_write sendall connection max_payload payload c)"

definition send_encoded :: "sendall_fun \<Rightarrow> bytes result \<Rightarrow> Client \<Rightarrow> unit result \<times> Client" where
  "send_encoded sendall encoded c =
     (case encoded of Inl e \<Rightarrow> (Inl e, c) | Inr payload \<Rightarrow> send_payload sendall payload c)"

section \<open>Submitting\<close>

definition validate_request_against_worker :: "GenerationRequest \<Rightarrow> HelloAck \<Rightarrow> unit result" where
  "validate_request_against_worker request h =
     (let manifest = ha_manifest h; n = int (length (gr_input_token_ids request)) in
      rbind (guard (n \<le> mm_max_input_tokens manifest)
               (ValueError ''request input exceeds Worker max_input_tokens'')) (\<lambda>_.
      rbind (guard (gr_max_new_tokens request \<le> mm_max_output_tokens manifest)
               (ValueError ''request output exceeds Worker max_output_tokens'')) (\<lambda>_.
      guard (n + gr_max_new_tokens request \<le> mm_max_sequence_tokens manifest)
        (ValueError ''request exceeds Worker max_sequence_tokens''))))"

definition request_limit :: "Client \<Rightarrow> HelloAck \<Rightarrow> int" where
  "request_limit c h =
     min (gc_max_pending_requests (cl_config c)) (wl_max_active_requests (ha_limits h))"

text \<open>The checks made under the state lock before a request is registered; the result is the epoch.\<close>

definition submit_check :: "GenerationRequest \<Rightarrow> Client \<Rightarrow> int result" where
  "submit_check request c =
     (let rid = gr_request_id request in
      rbind (require_connected_locked c) (\<lambda>h.
      rbind (validate_request_against_worker request h) (\<lambda>_.
      rbind (guard (map_of (cl_requests c) rid = None)
               (GenerationClientError (''request '' @ show_int rid @ '' is already active''))) (\<lambda>_.
      rbind (guard (int (length (cl_requests c)) < request_limit c h)
               (ClientCapacityError ''GenerationClient request capacity is full'')) (\<lambda>_.
      Inr (ha_worker_epoch h))))))"

definition register_request :: "int \<Rightarrow> Client \<Rightarrow> Client" where
  "register_request rid c =
     c\<lparr>cl_states := cl_states c @
          [RequestState_init rid (gc_max_delta_events_per_request (cl_config c))],
       cl_requests := AList.update rid (length (cl_states c)) (cl_requests c)\<rparr>"

definition submit_register :: "GenerationRequest \<Rightarrow> Client \<Rightarrow> (nat \<times> int) result \<times> Client" where
  "submit_register request c =
     (case submit_check request c of
        Inl e \<Rightarrow> (Inl e, c)
      | Inr epoch \<Rightarrow>
          (Inr (length (cl_states c), epoch), register_request (gr_request_id request) c))"

definition submit_send ::
  "(rat \<Rightarrow> string) \<Rightarrow> sendall_fun \<Rightarrow> GenerationRequest \<Rightarrow> int \<Rightarrow> Client \<Rightarrow> unit result \<times> Client" where
  "submit_send frepr sendall request epoch c =
     (case send_encoded sendall (encode_submit frepr request epoch) c of
        (Inl e, c') \<Rightarrow>
          (Inl e, c'\<lparr>cl_requests := AList.delete (gr_request_id request) (cl_requests c')\<rparr>)
      | (Inr _, c') \<Rightarrow> (Inr (), c'))"

datatype submit_outcome =
    SubmitHandle int nat
  | SubmitRaise exn
  | SubmitWait

text \<open>One round of the wait for acceptance; giving up tears the connection down.\<close>

definition submit_poll :: "bool \<Rightarrow> int \<Rightarrow> nat \<Rightarrow> Client \<Rightarrow> submit_outcome \<times> Client" where
  "submit_poll expired rid r c =
     (let s = cl_states c ! r in
      if rs_accepted s then (SubmitHandle rid r, c)
      else case rs_rejected s of
        Some status \<Rightarrow> (SubmitRaise (RequestRejectedError rid status), c)
      | None \<Rightarrow>
          (case rs_failure s of
             Some status \<Rightarrow> (SubmitRaise (WorkerUnavailableError (st_message status)), c)
           | None \<Rightarrow>
               if expired then
                 let failure = unavailable (''timed out waiting for request '' @ show_int rid @ '' acceptance'')
                 in (SubmitRaise (WorkerUnavailableError (st_message failure)), fail True failure c)
               else (SubmitWait, c)))"

text \<open>
  \<open>submit\<close>: the three parts in order. \<open>others\<close> is what the other threads do to the client
  between the send and the round of the wait that settles the call.
\<close>

definition submit ::
  "(rat \<Rightarrow> string) \<Rightarrow> sendall_fun \<Rightarrow> (Client \<Rightarrow> Client) \<Rightarrow> bool \<Rightarrow> GenerationRequest \<Rightarrow> Client \<Rightarrow>
     submit_outcome \<times> Client" where
  "submit frepr sendall others expired request c =
     (case submit_register request c of
        (Inl e, c1) \<Rightarrow> (SubmitRaise e, c1)
      | (Inr (r, epoch), c1) \<Rightarrow>
          (case submit_send frepr sendall request epoch c1 of
             (Inl e, c2) \<Rightarrow> (SubmitRaise e, c2)
           | (Inr _, c2) \<Rightarrow> submit_poll expired (gr_request_id request) r (others c2)))"

section \<open>Cancelling and probing\<close>

datatype cancel_decision = CancelReturn bool | CancelSend int

definition cancel_locked :: "int \<Rightarrow> Client \<Rightarrow> cancel_decision result \<times> Client" where
  "cancel_locked request_id c =
     (case require_connected_locked c of
        Inl e \<Rightarrow> (Inl e, c)
      | Inr h \<Rightarrow>
          (case map_of (cl_requests c) request_id of
             None \<Rightarrow> (Inr (CancelReturn False), c)
           | Some r \<Rightarrow>
               let s = cl_states c ! r in
               if \<not> rs_accepted s \<or> rs_terminal_received s then (Inr (CancelReturn False), c)
               else if rs_cancel_sent s then (Inr (CancelReturn True), c)
               else (Inr (CancelSend (ha_worker_epoch h)),
                     upd_state r (\<lambda>s. s\<lparr>rs_cancel_sent := True\<rparr>) c)))"

definition cancel :: "(rat \<Rightarrow> string) \<Rightarrow> sendall_fun \<Rightarrow> int \<Rightarrow> Client \<Rightarrow> bool result \<times> Client" where
  "cancel frepr sendall request_id c =
     (case cancel_locked request_id c of
        (Inl e, c1) \<Rightarrow> (Inl e, c1)
      | (Inr (CancelReturn b), c1) \<Rightarrow> (Inr b, c1)
      | (Inr (CancelSend epoch), c1) \<Rightarrow>
          (case send_encoded sendall (encode_cancel frepr request_id epoch) c1 of
             (Inl e, c2) \<Rightarrow> (Inl e, c2)
           | (Inr _, c2) \<Rightarrow> (Inr True, c2)))"

definition health_register :: "pyfloat \<Rightarrow> Client \<Rightarrow> (int \<times> nat \<times> int) result \<times> Client" where
  "health_register timeout c =
     (if float_le timeout (Fin 0) then (Inl (ValueError ''health timeout must be positive''), c)
      else case require_connected_locked c of
        Inl e \<Rightarrow> (Inl e, c)
      | Inr h \<Rightarrow>
          let probe_id = cl_next_probe_id c; q = length (cl_queues c)
          in (Inr (probe_id, q, ha_worker_epoch h),
              c\<lparr>cl_next_probe_id := probe_id + 1, cl_queues := cl_queues c @ [None],
                cl_probes := AList.update probe_id q (cl_probes c)\<rparr>))"

definition health_unregister :: "int \<Rightarrow> Client \<Rightarrow> Client" where
  "health_unregister probe_id c = c\<lparr>cl_probes := AList.delete probe_id (cl_probes c)\<rparr>"

definition health_result :: "nat \<Rightarrow> Client \<Rightarrow> Stats result" where
  "health_result q c =
     (case cl_queues c ! q of
        None \<Rightarrow> Inl (TimeoutError ''timed out waiting for Worker Stats'')
      | Some None \<Rightarrow> Inl (WorkerUnavailableError ''Worker disconnected during health probe'')
      | Some (Some stats) \<Rightarrow> Inr stats)"

definition health ::
  "(rat \<Rightarrow> string) \<Rightarrow> sendall_fun \<Rightarrow> (Client \<Rightarrow> Client) \<Rightarrow> pyfloat \<Rightarrow> Client \<Rightarrow> Stats result \<times> Client" where
  "health frepr sendall others timeout c =
     (case health_register timeout c of
        (Inl e, c1) \<Rightarrow> (Inl e, c1)
      | (Inr (probe_id, q, epoch), c1) \<Rightarrow>
          (case send_encoded sendall (encode_health frepr probe_id epoch) c1 of
             (Inl e, c2) \<Rightarrow> (Inl e, health_unregister probe_id c2)
           | (Inr _, c2) \<Rightarrow>
               let c3 = others c2 in (health_result q c3, health_unregister probe_id c3)))"

definition close :: "Client \<Rightarrow> Client" where
  "close c = fail True (unavailable ''GenerationClient closed'') c"

end
