(* ===== verification/Client_Reader.thy ===== *)
theory Client_Reader
  imports Client
begin

text \<open>
  The receiving half of \<open>GenerationClient\<close>: \<open>_dispatch\<close>, the reader thread's loop, and
  \<open>connect\<close> with its handshake.
\<close>

section \<open>Dispatching a Worker message\<close>

text \<open>What \<open>_dispatch\<close> still has to do once it has released the state lock.\<close>

record dispatch_rest =
  terminal_to_deliver :: "(nat \<times> Terminal) option"
  send_cancel :: "(int \<times> int) option"

definition nothing_left :: dispatch_rest where
  "nothing_left = \<lparr>terminal_to_deliver = None, send_cancel = None\<rparr>"

definition dispatch_stats :: "Stats \<Rightarrow> Client \<Rightarrow> Client" where
  "dispatch_stats stats c =
     (case map_of (cl_probes c) (ss_probe_id stats) of
        None \<Rightarrow> c
      | Some q \<Rightarrow> queue_put q (Some stats) c)"

definition dispatch_accepted :: "nat \<Rightarrow> Client \<Rightarrow> dispatch_rest result \<times> Client" where
  "dispatch_accepted r c =
     (let s = cl_states c ! r in
      if rs_accepted s \<or> rs_rejected s \<noteq> None
      then (Inl (ProtocolError ''request received duplicate acceptance''), c)
      else (Inr nothing_left, upd_state r (\<lambda>s. s\<lparr>rs_accepted := True\<rparr>) c))"

definition dispatch_rejected :: "int \<Rightarrow> Status \<Rightarrow> nat \<Rightarrow> Client \<Rightarrow> dispatch_rest result \<times> Client" where
  "dispatch_rejected request_id status r c =
     (if rs_accepted (cl_states c ! r)
      then (Inl (ProtocolError ''Accepted request was later Rejected''), c)
      else (Inr nothing_left,
            (upd_state r (\<lambda>s. s\<lparr>rs_rejected := Some status\<rparr>) c)
              \<lparr>cl_requests := AList.delete request_id (cl_requests c)\<rparr>))"

text \<open>The checks common to TokenDelta and Terminal.\<close>

definition dispatch_event_check :: "RequestState \<Rightarrow> unit result" where
  "dispatch_event_check s =
     rbind (guard (rs_accepted s) (ProtocolError ''request event arrived before Accepted'')) (\<lambda>_.
     guard (\<not> rs_terminal_received s) (ProtocolError ''request event arrived after Terminal''))"

definition dispatch_delta :: "TokenDelta \<Rightarrow> int \<Rightarrow> nat \<Rightarrow> Client \<Rightarrow> dispatch_rest result \<times> Client" where
  "dispatch_delta delta epoch r c =
     (let s = cl_states c ! r in
      case dispatch_event_check s of
        Inl e \<Rightarrow> (Inl e, c)
      | Inr _ \<Rightarrow>
          if td_sequence_no delta \<noteq> rs_next_sequence_no s
          then (Inl (ProtocolError ''TokenDelta sequence is not contiguous''), c)
          else
            (case eb_put_delta delta (rs_events s) of (stored, b) \<Rightarrow>
               let s1 = s\<lparr>rs_next_sequence_no := rs_next_sequence_no s + 1, rs_events := b\<rparr>
               in if \<not> stored \<and> \<not> rs_cancel_sent s
                  then (Inr (nothing_left\<lparr>send_cancel := Some (td_request_id delta, epoch)\<rparr>),
                        upd_state r (\<lambda>_. s1\<lparr>rs_cancel_sent := True\<rparr>) c)
                  else (Inr nothing_left, upd_state r (\<lambda>_. s1) c)))"

definition dispatch_terminal :: "Terminal \<Rightarrow> nat \<Rightarrow> Client \<Rightarrow> dispatch_rest result \<times> Client" where
  "dispatch_terminal terminal r c =
     (case dispatch_event_check (cl_states c ! r) of
        Inl e \<Rightarrow> (Inl e, c)
      | Inr _ \<Rightarrow>
          (Inr (nothing_left\<lparr>terminal_to_deliver := Some (r, terminal)\<rparr>),
           (upd_state r (\<lambda>s. s\<lparr>rs_terminal_received := True\<rparr>) c)
             \<lparr>cl_requests := AList.delete (tm_request_id terminal) (cl_requests c)\<rparr>))"

definition with_request ::
  "int \<Rightarrow> (nat \<Rightarrow> Client \<Rightarrow> dispatch_rest result \<times> Client) \<Rightarrow> Client \<Rightarrow> dispatch_rest result \<times> Client" where
  "with_request request_id f c =
     (case map_of (cl_requests c) request_id of
        None \<Rightarrow> (Inl (ProtocolError (''message references unknown request '' @ show_int request_id)), c)
      | Some r \<Rightarrow> f r c)"

definition dispatch_locked :: "ServerMessage \<Rightarrow> Client \<Rightarrow> dispatch_rest result \<times> Client" where
  "dispatch_locked message c =
     (case require_connected_locked c of
        Inl e \<Rightarrow> (Inl e, c)
      | Inr h \<Rightarrow>
          (case message of
             MStats stats \<Rightarrow> (Inr nothing_left, dispatch_stats stats c)
           | MHelloAck _ \<Rightarrow> (Inl (ProtocolError ''duplicate HelloAck''), c)
           | MAccepted i \<Rightarrow> with_request i dispatch_accepted c
           | MRejected i status \<Rightarrow> with_request i (dispatch_rejected i status) c
           | MTokenDelta delta \<Rightarrow>
               with_request (td_request_id delta) (dispatch_delta delta (ha_worker_epoch h)) c
           | MTerminal terminal \<Rightarrow>
               with_request (tm_request_id terminal) (dispatch_terminal terminal) c))"

definition dispatch :: "(rat \<Rightarrow> string) \<Rightarrow> sendall_fun \<Rightarrow> ServerMessage \<Rightarrow> Client \<Rightarrow> unit result \<times> Client" where
  "dispatch frepr sendall message c =
     (case dispatch_locked message c of
        (Inl e, c1) \<Rightarrow> (Inl e, c1)
      | (Inr rest, c1) \<Rightarrow>
          (case terminal_to_deliver rest of
             Some (r, t) \<Rightarrow>
               if fst (eb_put_terminal t (rs_events (cl_states c1 ! r)))
               then (Inr (), deliver_terminal t r c1)
               else (Inl (ProtocolError ''request received duplicate Terminal''), c1)
           | None \<Rightarrow>
               (case send_cancel rest of
                  Some (request_id, epoch) \<Rightarrow>
                    send_encoded sendall (encode_cancel frepr request_id epoch) c1
                | None \<Rightarrow> (Inr (), c1))))"

section \<open>The reader loop\<close>

definition reader_failure :: "exn \<Rightarrow> Status" where
  "reader_failure e =
     (case e of
        ProtocolError _ \<Rightarrow> unavailable (''IPC protocol failure: '' @ exn_str e)
      | EOFError _ \<Rightarrow> unavailable (''Worker IPC disconnected: '' @ exn_str e)
      | _ \<Rightarrow> if is_OSError e then unavailable (''Worker IPC disconnected: '' @ exn_str e)
             else unavailable (''GenerationClient reader failed: '' @ exn_str e))"

lemma recv_bytes: "recv n cs = (r, cs') \<Longrightarrow> r @ concat cs' = concat cs"
  by (cases cs) (auto split: if_splits)

lemma receive_loop_bytes:
  "receive_loop sz data cs = (Inr d, cs') \<Longrightarrow> data @ concat cs = d @ concat cs'"
proof (induction sz data cs arbitrary: d rule: receive_loop.induct)
  case (1 sz data cs)
  show ?case
  proof (cases "length data < sz")
    case False
    with "1.prems" show ?thesis by (simp add: receive_loop.simps [of sz data cs])
  next
    case True
    obtain r cs1 where r: "recv (sz - length data) cs = (r, cs1)" by force
    from True "1.prems" r obtain b bs where b: "r = b # bs"
      by (cases r) (auto simp: receive_loop.simps [of sz data cs])
    with True r "1.prems" have "receive_loop sz (data @ b # bs) cs1 = (Inr d, cs')"
      by (simp add: receive_loop.simps [of sz data cs])
    then have "(data @ b # bs) @ concat cs1 = d @ concat cs'"
      by (rule 1(1) [OF True r [symmetric] b])
    with recv_bytes [OF r] b show ?thesis by simp
  qed
qed

lemma receive_frame_progress:
  assumes "receive_frame mx cs = (Inr payload, cs')"
  shows "length (concat cs') < length (concat cs)"
proof -
  from assms obtain prefix cs1 where
    1: "receive_exact 4 cs = (Inr prefix, cs1)"
      "receive_exact (unpack_be prefix) cs1 = (Inr payload, cs')"
    by (auto simp: receive_frame_def Let_def split: prod.splits sum.splits if_splits)
  have "concat cs = prefix @ concat cs1" "concat cs1 = payload @ concat cs'" "length prefix = 4"
    using 1 receive_loop_bytes [of _ "[]"] receive_loop_length [of _ "[]"]
    by (auto simp: receive_exact_def)
  then show ?thesis by simp
qed

function reader_loop ::
  "loads_fun \<Rightarrow> (rat \<Rightarrow> string) \<Rightarrow> sendall_fun \<Rightarrow> stream \<Rightarrow> Client \<Rightarrow> Client" where
  "reader_loop loads frepr sendall cs c =
     (if \<not> cl_connected c \<or> cl_socket c = None then c
      else case cl_hello_ack c of
        None \<Rightarrow> fail False (reader_failure (RuntimeError [])) c
      | Some h \<Rightarrow>
          (case receive_frame (wl_max_frame_payload_bytes (ha_limits h)) cs of
             (Inl e, cs') \<Rightarrow> fail False (reader_failure e) c
           | (Inr payload, cs') \<Rightarrow>
               (case decode_server_message loads payload (Some (ha_worker_epoch h)) of
                  Inl e \<Rightarrow> fail False (reader_failure e) c
                | Inr message \<Rightarrow>
                    (case dispatch frepr sendall message c of
                       (Inl e, c') \<Rightarrow> fail False (reader_failure e) c'
                     | (Inr _, c') \<Rightarrow> reader_loop loads frepr sendall cs' c'))))"
  by pat_completeness auto
termination
  by (relation "measure (\<lambda>(loads, frepr, sendall, cs, c). length (concat cs))")
    (auto dest!: receive_frame_progress [OF sym])

declare reader_loop.simps [simp del]

section \<open>Connecting\<close>

record connect_env =
  ce_connect :: "string option" \<comment> \<open>the OSError of \<open>socket.connect\<close>, if any\<close>
  ce_sendall :: sendall_fun
  ce_stream :: stream \<comment> \<open>what the Worker sends\<close>
  ce_thread :: "string option" \<comment> \<open>the error of \<open>Thread.start\<close>, if any\<close>

definition already_connected :: "Client \<Rightarrow> bool" where
  "already_connected c \<longleftrightarrow>
     cl_connected c \<or> cl_socket c \<noteq> None \<or>
     (case cl_reader_thread c of None \<Rightarrow> False | Some t \<Rightarrow> t \<in> set (cl_live_readers c))"

text \<open>The handshake on the new socket; any exception closes it and leaves the client as it was.\<close>

definition handshake ::
  "loads_fun \<Rightarrow> (rat \<Rightarrow> string) \<Rightarrow> connect_env \<Rightarrow> GenerationClientConfig \<Rightarrow> HelloAck result" where
  "handshake loads frepr env config =
     rbind (case ce_connect env of None \<Rightarrow> Inr () | Some m \<Rightarrow> Inl (OSError m)) (\<lambda>_.
     rbind (encode_hello frepr (gc_expected_manifest config)) (\<lambda>hello.
     rbind (encode_frame hello (gc_max_frame_payload_bytes config)) (\<lambda>frame.
     rbind (case ce_sendall env frame of None \<Rightarrow> Inr () | Some m \<Rightarrow> Inl (OSError m)) (\<lambda>_.
     rbind (fst (receive_frame (gc_max_frame_payload_bytes config) (ce_stream env))) (\<lambda>payload.
     rbind (decode_server_message loads payload None) (\<lambda>message.
     case message of
       MHelloAck h \<Rightarrow>
         rbind (guard (ha_manifest h = gc_expected_manifest config)
                  (ProtocolError ''Worker ModelManifest does not match Gateway'')) (\<lambda>_.
         rbind (guard (wl_max_frame_payload_bytes (ha_limits h) \<le> gc_max_frame_payload_bytes config)
                  (ProtocolError ''Worker frame limit exceeds GenerationClient capacity'')) (\<lambda>_.
         Inr h))
     | _ \<Rightarrow> Inl (ProtocolError ''Worker did not reply with HelloAck'')))))))"

definition connect ::
  "loads_fun \<Rightarrow> (rat \<Rightarrow> string) \<Rightarrow> connect_env \<Rightarrow> Client \<Rightarrow> unit result \<times> Client" where
  "connect loads frepr env c =
     (if already_connected c
      then (Inl (GenerationClientError ''GenerationClient is already connected''), c)
      else
        let conn = cl_next_conn c; c0 = c\<lparr>cl_next_conn := conn + 1\<rparr> in
        case handshake loads frepr env (cl_config c) of
          Inl e \<Rightarrow> (Inl e, c0)
        | Inr h \<Rightarrow>
            let c1 = c0\<lparr>cl_socket := Some conn, cl_hello_ack := Some h, cl_connected := True,
                        cl_reader_thread := Some conn\<rparr>
            in case ce_thread env of
                 None \<Rightarrow> (Inr (), c1\<lparr>cl_live_readers := conn # cl_live_readers c1\<rparr>)
               | Some m \<Rightarrow>
                   (Inl (RuntimeError m),
                    fail False (unavailable (''failed to start reader: '' @ m)) c1))"

text \<open>The reader thread ends after its loop.\<close>

definition reader_exit :: "nat \<Rightarrow> Client \<Rightarrow> Client" where
  "reader_exit t c = c\<lparr>cl_live_readers := removeAll t (cl_live_readers c)\<rparr>"

end
