(* ===== verification/Client_Inv.thy ===== *)
theory Client_Inv
  imports Client_Reader
begin

text \<open>
  The well-formedness invariant of the client and its preservation by every operation: the
  connection fields agree with each other, the request table holds distinct live requests
  within the negotiated limit, and every event buffer is sound.
\<close>

section \<open>The invariant\<close>

definition buffer_sound :: "EventBuffer \<Rightarrow> bool" where
  "buffer_sound b \<longleftrightarrow>
     fields_sound (eb_deltas b) (eb_terminal b) (eb_terminal_delivered b) (eb_max_delta_events b)"

text \<open>The queued deltas are in sequence order, and contiguous as long as none was dropped.\<close>

definition sequence_ok :: "RequestState \<Rightarrow> bool" where
  "sequence_ok s \<longleftrightarrow>
     (let numbers = map td_sequence_no (eb_deltas (rs_events s)); next_no = rs_next_sequence_no s in
      sorted_wrt (<) numbers \<and> list_all (\<lambda>x. x < next_no) numbers \<and>
      (eb_overflowed (rs_events s) \<or> numbers = [next_no - int (length numbers)..next_no - 1]))"

definition state_ok :: "RequestState \<Rightarrow> bool" where
  "state_ok s \<longleftrightarrow> buffer_sound (rs_events s) \<and> sequence_ok s \<and>
     \<not> (rs_accepted s \<and> rs_rejected s \<noteq> None)"

text \<open>A registered request: still running, with no terminal in its buffer.\<close>

definition live_state :: "RequestState \<Rightarrow> bool" where
  "live_state s \<longleftrightarrow> \<not> rs_terminal_received s \<and> rs_rejected s = None \<and> rs_failure s = None \<and>
     eb_terminal (rs_events s) = None"

definition entry_ok :: "RequestState list \<Rightarrow> int \<times> nat \<Rightarrow> bool" where
  "entry_ok states e \<longleftrightarrow>
     snd e < length states \<and> rs_request_id (states ! snd e) = fst e \<and> live_state (states ! snd e)"

definition table_ok :: "(int, nat) dict \<Rightarrow> RequestState list \<Rightarrow> bool" where
  "table_ok requests states \<longleftrightarrow>
     dict_ok requests \<and> distinct (map snd requests) \<and> list_all (entry_ok states) requests"

definition probes_ok :: "Client \<Rightarrow> bool" where
  "probes_ok c \<longleftrightarrow>
     dict_ok (cl_probes c) \<and> 1 \<le> cl_next_probe_id c \<and>
     list_all (\<lambda>(p, q). p < cl_next_probe_id c \<and> q < length (cl_queues c)) (cl_probes c)"

definition hello_ok :: "GenerationClientConfig \<Rightarrow> HelloAck \<Rightarrow> bool" where
  "hello_ok config h \<longleftrightarrow>
     worker_message_valid (ha_worker_epoch h) (MHelloAck h) \<and>
     ha_manifest h = gc_expected_manifest config \<and>
     wl_max_frame_payload_bytes (ha_limits h) \<le> gc_max_frame_payload_bytes config"

definition link_ok :: "Client \<Rightarrow> bool" where
  "link_ok c \<longleftrightarrow>
     (if cl_connected c
      then cl_socket c \<noteq> None \<and>
           (case cl_hello_ack c of
              None \<Rightarrow> False
            | Some h \<Rightarrow> hello_ok (cl_config c) h \<and> int (length (cl_requests c)) \<le> request_limit c h)
      else cl_socket c = None \<and> cl_hello_ack c = None \<and> cl_requests c = [] \<and> cl_probes c = [])"

definition client_ok :: "Client \<Rightarrow> bool" where
  "client_ok c \<longleftrightarrow>
     validate_config (cl_config c) = Inr () \<and> link_ok c \<and>
     table_ok (cl_requests c) (cl_states c) \<and> list_all state_ok (cl_states c) \<and> probes_ok c"

lemma client_okI [intro]:
  "validate_config (cl_config c) = Inr () \<Longrightarrow> link_ok c \<Longrightarrow> table_ok (cl_requests c) (cl_states c) \<Longrightarrow>
     list_all state_ok (cl_states c) \<Longrightarrow> probes_ok c \<Longrightarrow> client_ok c"
  by (simp add: client_ok_def)

lemma client_okD:
  assumes "client_ok c"
  shows "validate_config (cl_config c) = Inr ()" "link_ok c" "table_ok (cl_requests c) (cl_states c)"
    "list_all state_ok (cl_states c)" "probes_ok c"
  using assms by (simp_all add: client_ok_def)

section \<open>Frame facts\<close>

lemma upd_state_fields [simp]:
  "cl_config (upd_state r f c) = cl_config c" "cl_socket (upd_state r f c) = cl_socket c"
  "cl_reader_thread (upd_state r f c) = cl_reader_thread c"
  "cl_hello_ack (upd_state r f c) = cl_hello_ack c" "cl_connected (upd_state r f c) = cl_connected c"
  "cl_requests (upd_state r f c) = cl_requests c" "cl_probes (upd_state r f c) = cl_probes c"
  "cl_next_probe_id (upd_state r f c) = cl_next_probe_id c"
  "cl_states (upd_state r f c) = (cl_states c)[r := f (cl_states c ! r)]"
  "cl_queues (upd_state r f c) = cl_queues c" "cl_live_readers (upd_state r f c) = cl_live_readers c"
  "cl_next_conn (upd_state r f c) = cl_next_conn c" "cl_sent (upd_state r f c) = cl_sent c"
  by (simp_all add: upd_state_def)

definition failed_state :: "Status \<Rightarrow> RequestState \<Rightarrow> RequestState" where
  "failed_state status s = s\<lparr>rs_failure := Some status\<rparr>"

definition terminated_state :: "Status \<Rightarrow> RequestState \<Rightarrow> RequestState" where
  "terminated_state status s =
     (if needs_terminal s
      then upd_events (\<lambda>b. snd (eb_put_terminal (failure_terminal status s) b)) s else s)"

lemma fail_deliver_upd: "fail_deliver status r c = upd_state r (terminated_state status) c"
  by (simp add: fail_deliver_def terminated_state_def deliver_terminal_def upd_state_def)

lemma fold_upd_state_only:
  "\<exists>ss. fold (\<lambda>r. upd_state r f) rs c = c\<lparr>cl_states := ss\<rparr> \<and> length ss = length (cl_states c)"
proof (induction rs arbitrary: c)
  case Nil
  show ?case by (auto intro: exI [of _ "cl_states c"])
next
  case (Cons r rs)
  from Cons.IH [of "upd_state r f c"] show ?case by (auto simp: upd_state_def)
qed

lemma fold_upd_state_nth:
  "distinct rs \<Longrightarrow> i < length (cl_states c) \<Longrightarrow>
     cl_states (fold (\<lambda>r. upd_state r f) rs c) ! i =
       (if i \<in> set rs then f (cl_states c ! i) else cl_states c ! i)"
proof (induction rs arbitrary: c)
  case Nil
  show ?case by simp
next
  case (Cons r rs)
  have "cl_states (upd_state r f c) ! i = (if i = r then f (cl_states c ! i) else cl_states c ! i)"
    using Cons.prems(2) by simp
  moreover have "cl_states (fold (\<lambda>r. upd_state r f) rs (upd_state r f c)) ! i =
      (if i \<in> set rs then f (cl_states (upd_state r f c) ! i) else cl_states (upd_state r f c) ! i)"
    using Cons by simp
  ultimately show ?case using Cons.prems(1) by auto
qed

lemma queue_put_fields [simp]:
  "cl_config (queue_put q v c) = cl_config c" "cl_socket (queue_put q v c) = cl_socket c"
  "cl_reader_thread (queue_put q v c) = cl_reader_thread c"
  "cl_hello_ack (queue_put q v c) = cl_hello_ack c" "cl_connected (queue_put q v c) = cl_connected c"
  "cl_requests (queue_put q v c) = cl_requests c" "cl_probes (queue_put q v c) = cl_probes c"
  "cl_next_probe_id (queue_put q v c) = cl_next_probe_id c" "cl_states (queue_put q v c) = cl_states c"
  "length (cl_queues (queue_put q v c)) = length (cl_queues c)"
  "cl_live_readers (queue_put q v c) = cl_live_readers c"
  "cl_next_conn (queue_put q v c) = cl_next_conn c" "cl_sent (queue_put q v c) = cl_sent c"
  by (simp_all add: queue_put_def split: option.splits)

lemma fold_queue_put_fields [simp]:
  "cl_config (fold (\<lambda>q. queue_put q v) qs c) = cl_config c"
  "cl_socket (fold (\<lambda>q. queue_put q v) qs c) = cl_socket c"
  "cl_reader_thread (fold (\<lambda>q. queue_put q v) qs c) = cl_reader_thread c"
  "cl_hello_ack (fold (\<lambda>q. queue_put q v) qs c) = cl_hello_ack c"
  "cl_connected (fold (\<lambda>q. queue_put q v) qs c) = cl_connected c"
  "cl_requests (fold (\<lambda>q. queue_put q v) qs c) = cl_requests c"
  "cl_probes (fold (\<lambda>q. queue_put q v) qs c) = cl_probes c"
  "cl_next_probe_id (fold (\<lambda>q. queue_put q v) qs c) = cl_next_probe_id c"
  "cl_states (fold (\<lambda>q. queue_put q v) qs c) = cl_states c"
  "length (cl_queues (fold (\<lambda>q. queue_put q v) qs c)) = length (cl_queues c)"
  "cl_live_readers (fold (\<lambda>q. queue_put q v) qs c) = cl_live_readers c"
  "cl_next_conn (fold (\<lambda>q. queue_put q v) qs c) = cl_next_conn c"
  "cl_sent (fold (\<lambda>q. queue_put q v) qs c) = cl_sent c"
  by (induction qs arbitrary: c) simp_all

lemma fail_reap_fields [simp]:
  "cl_config (fail_reap j t c) = cl_config c" "cl_socket (fail_reap j t c) = cl_socket c"
  "cl_hello_ack (fail_reap j t c) = cl_hello_ack c" "cl_connected (fail_reap j t c) = cl_connected c"
  "cl_requests (fail_reap j t c) = cl_requests c" "cl_probes (fail_reap j t c) = cl_probes c"
  "cl_next_probe_id (fail_reap j t c) = cl_next_probe_id c" "cl_states (fail_reap j t c) = cl_states c"
  "cl_queues (fail_reap j t c) = cl_queues c" "cl_next_conn (fail_reap j t c) = cl_next_conn c"
  "cl_sent (fail_reap j t c) = cl_sent c"
  by (simp_all add: fail_reap_def Let_def split: option.splits)

section \<open>What a failure does\<close>

lemma fail_locked_split:
  "fail_locked status c =
     (map snd (cl_requests c), map snd (cl_probes c),
      fold (\<lambda>r. upd_state r (failed_state status)) (map snd (cl_requests c))
        (c\<lparr>cl_socket := None, cl_connected := False, cl_hello_ack := None,
           cl_requests := [], cl_probes := []\<rparr>))"
  by (simp add: fail_locked_def Let_def failed_state_def [abs_def])

lemma fail_fields [simp]:
  "cl_config (fail j st c) = cl_config c" "cl_socket (fail j st c) = None"
  "cl_hello_ack (fail j st c) = None" "cl_connected (fail j st c) = False"
  "cl_requests (fail j st c) = []" "cl_probes (fail j st c) = []"
  "cl_next_probe_id (fail j st c) = cl_next_probe_id c"
  "length (cl_states (fail j st c)) = length (cl_states c)"
  "length (cl_queues (fail j st c)) = length (cl_queues c)"
  "cl_sent (fail j st c) = cl_sent c" "cl_next_conn (fail j st c) = cl_next_conn c"
proof -
  let ?c0 = "c\<lparr>cl_socket := None, cl_connected := False, cl_hello_ack := None,
           cl_requests := [], cl_probes := []\<rparr>"
  obtain s1 where 1: "fold (\<lambda>r. upd_state r (failed_state st)) (map snd (cl_requests c)) ?c0 =
      ?c0\<lparr>cl_states := s1\<rparr>" "length s1 = length (cl_states c)"
    using fold_upd_state_only [of "failed_state st" "map snd (cl_requests c)" ?c0] by auto
  obtain s2 where 2: "fold (fail_deliver st) (map snd (cl_requests c)) (?c0\<lparr>cl_states := s1\<rparr>) =
      ?c0\<lparr>cl_states := s2\<rparr>" "length s2 = length (cl_states c)"
    using fold_upd_state_only [of "terminated_state st" "map snd (cl_requests c)" "?c0\<lparr>cl_states := s1\<rparr>"] 1(2)
    by (auto simp: fail_deliver_upd [abs_def])
  show "cl_config (fail j st c) = cl_config c" "cl_socket (fail j st c) = None"
    "cl_hello_ack (fail j st c) = None" "cl_connected (fail j st c) = False"
    "cl_requests (fail j st c) = []" "cl_probes (fail j st c) = []"
    "cl_next_probe_id (fail j st c) = cl_next_probe_id c"
    "length (cl_states (fail j st c)) = length (cl_states c)"
    "length (cl_queues (fail j st c)) = length (cl_queues c)"
    "cl_sent (fail j st c) = cl_sent c" "cl_next_conn (fail j st c) = cl_next_conn c"
    by (simp_all add: fail_def fail_locked_split 1 2)
qed

lemma fail_states:
  assumes "distinct (map snd (cl_requests c))" and "i < length (cl_states c)"
  shows "cl_states (fail j st c) ! i =
    (if i \<in> snd ` set (cl_requests c)
     then terminated_state st (failed_state st (cl_states c ! i)) else cl_states c ! i)"
proof -
  let ?rs = "map snd (cl_requests c)"
  let ?c0 = "c\<lparr>cl_socket := None, cl_connected := False, cl_hello_ack := None,
           cl_requests := [], cl_probes := []\<rparr>"
  let ?c1 = "fold (\<lambda>r. upd_state r (failed_state st)) ?rs ?c0"
  have len: "length (cl_states ?c1) = length (cl_states c)"
    using fold_upd_state_only [of "failed_state st" ?rs ?c0] by auto
  have "cl_states (fold (fail_deliver st) ?rs ?c1) ! i =
      (if i \<in> set ?rs then terminated_state st (cl_states ?c1 ! i) else cl_states ?c1 ! i)"
    using fold_upd_state_nth [OF assms(1), of i ?c1 "terminated_state st"] assms(2) len
    by (simp add: fail_deliver_upd [abs_def])
  moreover have "cl_states ?c1 ! i =
      (if i \<in> set ?rs then failed_state st (cl_states c ! i) else cl_states c ! i)"
    using fold_upd_state_nth [OF assms(1), of i ?c0 "failed_state st"] assms(2) by simp
  ultimately show ?thesis
    by (simp add: fail_def fail_locked_split)
qed

section \<open>The request table\<close>

lemma table_ok_lookup:
  "table_ok q ss \<Longrightarrow> map_of q i = Some r \<Longrightarrow>
     r < length ss \<and> rs_request_id (ss ! r) = i \<and> live_state (ss ! r)"
  by (auto simp: table_ok_def entry_ok_def list_all_iff dest!: map_of_SomeD)

lemma table_ok_update:
  assumes "table_ok q ss"
    and "r \<in> snd ` set q \<Longrightarrow> live_state (ss ! r) \<Longrightarrow>
           live_state s' \<and> rs_request_id s' = rs_request_id (ss ! r)"
  shows "table_ok q (ss[r := s'])"
proof -
  have "entry_ok (ss[r := s']) e" if e: "e \<in> set q" for e
  proof (cases "snd e = r")
    case True
    then show ?thesis using assms e by (auto simp: table_ok_def entry_ok_def list_all_iff)
  next
    case False
    then show ?thesis using assms(1) e by (auto simp: table_ok_def entry_ok_def list_all_iff)
  qed
  with assms(1) show ?thesis by (simp add: table_ok_def list_all_iff)
qed

lemma table_ok_delete [simp]: "table_ok q ss \<Longrightarrow> table_ok (AList.delete i q) ss"
  using dict_ok_delete [of q i] by (auto simp: table_ok_def list_all_iff AList.delete_eq distinct_map_filter)

lemma delete_unregisters:
  assumes "dict_ok q" and "distinct (map snd q)" and "map_of q i = Some r"
  shows "r \<notin> snd ` set (AList.delete i q)"
proof
  assume "r \<in> snd ` set (AList.delete i q)"
  then obtain k where "(k, r) \<in> set q" "k \<noteq> i"
    using assms(1) by (auto simp: set_delete_dict)
  moreover have "(i, r) \<in> set q" using assms(3) by (rule map_of_SomeD)
  ultimately show False
    using assms(2) by (auto simp: distinct_map dest: inj_onD [of snd "set q" "(k, r)" "(i, r)"])
qed

lemma table_ok_remove:
  assumes "table_ok q ss" and "map_of q i = Some r"
  shows "table_ok (AList.delete i q) (ss[r := s'])"
proof (rule table_ok_update)
  show "table_ok (AList.delete i q) ss" using assms(1) by simp
  assume "r \<in> snd ` set (AList.delete i q)"
  with delete_unregisters [of q i r] assms
  show "live_state s' \<and> rs_request_id s' = rs_request_id (ss ! r)" by (auto simp: table_ok_def)
qed

lemma table_ok_register:
  assumes "table_ok q ss" and "map_of q i = None" and "live_state s" and "rs_request_id s = i"
  shows "table_ok (AList.update i (length ss) q) (ss @ [s])"
proof -
  have new: "AList.update i (length ss) q = q @ [(i, length ss)]"
    using assms(2) by (induction q) (auto split: if_splits)
  have "\<forall>r \<in> snd ` set q. r < length ss"
    using assms(1) by (auto simp: table_ok_def list_all_iff entry_ok_def)
  with assms show ?thesis
    by (auto simp: new table_ok_def dict_ok_def list_all_iff entry_ok_def nth_append
        map_of_eq_None_iff image_iff)
qed

lemma link_ok_delete [simp]: "link_ok c \<Longrightarrow> link_ok (c\<lparr>cl_requests := AList.delete i (cl_requests c)\<rparr>)"
  using length_delete_dict [of i "cl_requests c"]
  by (auto simp: link_ok_def request_limit_def split: option.splits)

lemma link_ok_states [simp]: "link_ok (c\<lparr>cl_states := ss\<rparr>) = link_ok c"
  by (simp add: link_ok_def request_limit_def cong: option.case_cong)

lemma link_ok_upd [simp]: "link_ok (upd_state r f c) = link_ok c"
  by (simp add: upd_state_def)

lemma probes_ok_cong:
  "cl_probes c' = cl_probes c \<Longrightarrow> cl_next_probe_id c' = cl_next_probe_id c \<Longrightarrow>
     length (cl_queues c') = length (cl_queues c) \<Longrightarrow> probes_ok c' = probes_ok c"
  by (simp add: probes_ok_def)

section \<open>States\<close>

lemma put_delta_sound:
  "buffer_sound b \<Longrightarrow> buffer_sound (snd (eb_put_delta d b))"
  by (cases "eb_put_delta d b") (auto simp: buffer_sound_def dest: ebs.step_conserves [of b "PutDelta d"])

lemma put_terminal_sound:
  "buffer_sound b \<Longrightarrow> buffer_sound (snd (eb_put_terminal t b))"
  by (cases "eb_put_terminal t b") (auto simp: buffer_sound_def dest: ebs.step_conserves [of b "PutTerminal t"])

lemma get_sound: "buffer_sound b \<Longrightarrow> buffer_sound (snd (eb_get x b))"
  by (cases "eb_get x b") (auto simp: buffer_sound_def dest: ebs.step_conserves [of b "Take x"])

lemma put_delta_terminal [simp]: "eb_terminal (snd (eb_put_delta d b)) = eb_terminal b"
  by (simp add: eb_put_delta_def)

lemma upto_snoc: "a \<le> b + 1 \<Longrightarrow> [a..b] @ [b + 1] = [a..b + (1::int)]"
  by (simp add: upto_rec2)

lemma put_delta_sequence:
  assumes "sequence_ok s" and "eb_terminal (rs_events s) = None"
    and "td_sequence_no d = rs_next_sequence_no s"
  shows "sequence_ok (s\<lparr>rs_next_sequence_no := rs_next_sequence_no s + 1,
           rs_events := snd (eb_put_delta d (rs_events s))\<rparr>)"
  using assms upto_snoc [of "rs_next_sequence_no s - int (length (eb_deltas (rs_events s)))" "rs_next_sequence_no s - 1"]
  by (auto simp: sequence_ok_def eb_put_delta_def Let_def sorted_wrt_append list_all_iff less_le_not_le)

lemma put_terminal_sequence [simp]:
  "sequence_ok (s\<lparr>rs_events := snd (eb_put_terminal t (rs_events s))\<rparr>) = sequence_ok s"
  by (simp add: sequence_ok_def eb_put_terminal_def)

lemma get_sequence:
  assumes "sequence_ok s"
  shows "sequence_ok (s\<lparr>rs_events := snd (eb_get x (rs_events s))\<rparr>)"
proof (cases "eb_deltas (rs_events s)")
  case Nil
  with assms show ?thesis by (auto simp: sequence_ok_def eb_get_def split: option.split)
next
  case (Cons d ds)
  with assms show ?thesis
    by (auto simp: sequence_ok_def eb_get_def Let_def upto_rec1 algebra_simps)
qed

lemma sequence_ok_flags [simp]:
  "sequence_ok (s\<lparr>rs_accepted := a\<rparr>) = sequence_ok s" "sequence_ok (s\<lparr>rs_rejected := j\<rparr>) = sequence_ok s"
  "sequence_ok (s\<lparr>rs_failure := f\<rparr>) = sequence_ok s"
  "sequence_ok (s\<lparr>rs_terminal_received := b\<rparr>) = sequence_ok s"
  "sequence_ok (s\<lparr>rs_cancel_sent := b\<rparr>) = sequence_ok s"
  by (simp_all add: sequence_ok_def)

lemma failed_state_ok: "state_ok s \<Longrightarrow> state_ok (failed_state st s)"
  by (simp add: state_ok_def failed_state_def)

lemma terminated_state_ok: "state_ok s \<Longrightarrow> state_ok (terminated_state st s)"
  by (simp add: state_ok_def terminated_state_def upd_events_def put_terminal_sound)

lemma state_ok_init [simp]: "0 < n \<Longrightarrow> state_ok (RequestState_init i n)"
  by (simp add: state_ok_def RequestState_init_def buffer_sound_def sequence_ok_def EventBuffer_init_def
      fields_sound_def)

lemma live_state_init [simp]: "live_state (RequestState_init i n)" "rs_request_id (RequestState_init i n) = i"
  by (simp_all add: live_state_def RequestState_init_def EventBuffer_init_def)

section \<open>Every operation keeps the invariant\<close>

lemma client_ok_upd:
  assumes "client_ok c"
    and "r < length (cl_states c) \<Longrightarrow> state_ok (cl_states c ! r) \<Longrightarrow> state_ok (f (cl_states c ! r))"
    and "r \<in> snd ` set (cl_requests c) \<Longrightarrow> live_state (cl_states c ! r) \<Longrightarrow>
           live_state (f (cl_states c ! r)) \<and>
           rs_request_id (f (cl_states c ! r)) = rs_request_id (cl_states c ! r)"
  shows "client_ok (upd_state r f c)"
proof (rule client_okI)
  note ok = client_okD [OF assms(1)]
  show "list_all state_ok (cl_states (upd_state r f c))"
  proof (cases "r < length (cl_states c)")
    case True
    with ok(4) assms(2) show ?thesis
      by (simp add: list_all_length nth_list_update)
  next
    case False
    with ok(4) show ?thesis by (simp add: list_update_beyond)
  qed
  show "table_ok (cl_requests (upd_state r f c)) (cl_states (upd_state r f c))"
    using table_ok_update [OF ok(3), of r "f (cl_states c ! r)"] assms(3) by simp
  show "probes_ok (upd_state r f c)" using ok(5) by (simp add: probes_ok_def)
qed (use client_okD [OF assms(1)] in simp_all)

lemma client_ok_remove:
  assumes "client_ok c" and "map_of (cl_requests c) i = Some r"
    and "state_ok (cl_states c ! r) \<Longrightarrow> state_ok (f (cl_states c ! r))"
  shows "client_ok ((upd_state r f c)\<lparr>cl_requests := AList.delete i (cl_requests c)\<rparr>)"
proof (rule client_okI)
  note ok = client_okD [OF assms(1)]
  have r: "r < length (cl_states c)" using table_ok_lookup [OF ok(3) assms(2)] by simp
  with ok(4) assms(3)
  show "list_all state_ok (cl_states ((upd_state r f c)\<lparr>cl_requests := AList.delete i (cl_requests c)\<rparr>))"
    by (simp add: list_all_length nth_list_update)
  show "table_ok (cl_requests ((upd_state r f c)\<lparr>cl_requests := AList.delete i (cl_requests c)\<rparr>))
      (cl_states ((upd_state r f c)\<lparr>cl_requests := AList.delete i (cl_requests c)\<rparr>))"
    using table_ok_remove [OF ok(3) assms(2)] by simp
  show "link_ok ((upd_state r f c)\<lparr>cl_requests := AList.delete i (cl_requests c)\<rparr>)"
    using link_ok_delete [of "upd_state r f c" i] ok(2) by simp
  show "probes_ok ((upd_state r f c)\<lparr>cl_requests := AList.delete i (cl_requests c)\<rparr>)"
    using ok(5) by (simp add: probes_ok_def)
qed (use client_okD [OF assms(1)] in simp_all)

lemma client_ok_delete:
  assumes "client_ok c"
  shows "client_ok (c\<lparr>cl_requests := AList.delete i (cl_requests c)\<rparr>)"
  using client_okD [OF assms] by (intro client_okI) (simp_all add: probes_ok_def)

lemma client_ok_cong:
  assumes "client_ok c" and "cl_config c' = cl_config c" and "cl_socket c' = cl_socket c"
    and "cl_hello_ack c' = cl_hello_ack c" and "cl_connected c' = cl_connected c"
    and "cl_requests c' = cl_requests c" and "cl_states c' = cl_states c"
    and "cl_probes c' = cl_probes c" and "cl_next_probe_id c' = cl_next_probe_id c"
    and "length (cl_queues c') = length (cl_queues c)"
  shows "client_ok c'"
proof -
  have "link_ok c' = link_ok c"
    by (simp only: link_ok_def request_limit_def assms(2-))
  with assms show ?thesis by (simp add: client_ok_def probes_ok_def)
qed

lemma client_ok_queue_put: "client_ok c \<Longrightarrow> client_ok (queue_put q v c)"
  by (erule client_ok_cong) simp_all

lemma client_ok_sent: "client_ok c \<Longrightarrow> client_ok (c\<lparr>cl_sent := x\<rparr>)"
  by (erule client_ok_cong) simp_all

lemma client_ok_fail:
  assumes "client_ok c"
  shows "client_ok (fail j st c)"
proof (rule client_okI)
  note ok = client_okD [OF assms]
  have d: "distinct (map snd (cl_requests c))" using ok(3) by (simp add: table_ok_def)
  show "list_all state_ok (cl_states (fail j st c))"
    using ok(4) by (auto simp: list_all_length fail_states [OF d] intro: terminated_state_ok failed_state_ok)
  show "table_ok (cl_requests (fail j st c)) (cl_states (fail j st c))"
    by (simp add: table_ok_def)
  show "link_ok (fail j st c)" by (simp add: link_ok_def)
  show "probes_ok (fail j st c)" using ok(5) by (simp add: probes_ok_def)
qed (use client_okD [OF assms] in simp_all)

lemma client_ok_send_payload: "client_ok c \<Longrightarrow> client_ok (snd (send_payload sendall payload c))"
  by (auto simp: send_payload_def send_write_def Let_def client_ok_fail client_ok_sent
      split: sum.splits option.splits prod.splits)

lemma client_ok_send_encoded: "client_ok c \<Longrightarrow> client_ok (snd (send_encoded sendall e c))"
  by (auto simp: send_encoded_def client_ok_send_payload split: sum.splits)

lemma require_connected_Inr:
  "client_ok c \<Longrightarrow> require_connected_locked c = Inr h \<longleftrightarrow> cl_connected c \<and> cl_hello_ack c = Some h"
  by (auto simp: require_connected_locked_def client_ok_def link_ok_def split: option.splits if_splits)

lemma submit_check_Inr:
  assumes "client_ok c" and "submit_check request c = Inr epoch"
  obtains h where "cl_connected c" "cl_hello_ack c = Some h" "epoch = ha_worker_epoch h"
    "map_of (cl_requests c) (gr_request_id request) = None"
    "int (length (cl_requests c)) < request_limit c h"
    "validate_request_against_worker request h = Inr ()"
  using assms by (auto simp: submit_check_def Let_def result_simps require_connected_Inr)

lemma client_ok_submit_register:
  assumes "client_ok c"
  shows "client_ok (snd (submit_register request c))"
proof (cases "submit_check request c")
  case (Inl e)
  with assms show ?thesis by (simp add: submit_register_def)
next
  case (Inr epoch)
  note ok = client_okD [OF assms]
  obtain h where h: "cl_connected c" "cl_hello_ack c = Some h"
    "map_of (cl_requests c) (gr_request_id request) = None"
    "int (length (cl_requests c)) < request_limit c h"
    by (rule submit_check_Inr [OF assms Inr])
  let ?c = "register_request (gr_request_id request) c"
  have cap: "0 < gc_max_delta_events_per_request (cl_config c)"
    using ok(1) by (simp add: validate_config_def result_simps)
  have "client_ok ?c"
  proof (rule client_okI)
    show "validate_config (cl_config ?c) = Inr ()" using ok(1) by (simp add: register_request_def)
    show "table_ok (cl_requests ?c) (cl_states ?c)"
      using table_ok_register [OF ok(3) h(3)] by (simp add: register_request_def)
    show "list_all state_ok (cl_states ?c)" using ok(4) cap by (simp add: register_request_def)
    show "link_ok ?c" using ok(2) h length_update_new [OF h(3)]
      by (simp add: link_ok_def request_limit_def register_request_def)
    show "probes_ok ?c" using ok(5) by (simp add: probes_ok_def register_request_def)
  qed
  with Inr show ?thesis by (simp add: submit_register_def)
qed

lemma client_ok_submit_send: "client_ok c \<Longrightarrow> client_ok (snd (submit_send frepr sendall request epoch c))"
  using client_ok_send_encoded [of c sendall "encode_submit frepr request epoch"]
  by (auto simp: submit_send_def client_ok_delete split: prod.splits sum.splits)

lemma client_ok_submit_poll: "client_ok c \<Longrightarrow> client_ok (snd (submit_poll x rid r c))"
  by (auto simp: submit_poll_def Let_def client_ok_fail split: option.splits)

lemma client_ok_submit:
  assumes "client_ok c" and "\<And>c. client_ok c \<Longrightarrow> client_ok (others c)"
  shows "client_ok (snd (submit frepr sendall others x request c))"
proof -
  have 1: "client_ok (snd (submit_register request c))" by (rule client_ok_submit_register [OF assms(1)])
  have 2: "client_ok (snd (submit_send frepr sendall request e (snd (submit_register request c))))" for e
    by (rule client_ok_submit_send [OF 1])
  show ?thesis
    using 1 2 assms(2) client_ok_submit_poll
    by (auto simp: submit_def split: prod.splits sum.splits) (metis snd_conv)+
qed

lemma cancel_locked_shape:
  "snd (cancel_locked i c) = c \<or>
     (\<exists>r. map_of (cl_requests c) i = Some r \<and>
          snd (cancel_locked i c) = upd_state r (\<lambda>s. s\<lparr>rs_cancel_sent := True\<rparr>) c)"
  by (auto simp: cancel_locked_def Let_def split: sum.splits option.splits)

lemma client_ok_cancel_locked:
  assumes "client_ok c"
  shows "client_ok (snd (cancel_locked i c))"
proof -
  have "client_ok (upd_state r (\<lambda>s. s\<lparr>rs_cancel_sent := True\<rparr>) c)" for r
    by (rule client_ok_upd [OF assms]) (simp_all add: state_ok_def live_state_def)
  with cancel_locked_shape [of i c] assms show ?thesis by auto
qed

lemma client_ok_cancel: "client_ok c \<Longrightarrow> client_ok (snd (cancel frepr sendall i c))"
  using client_ok_cancel_locked [of c i] client_ok_send_encoded [of "snd (cancel_locked i c)" sendall]
  by (auto simp: cancel_def split: prod.splits sum.splits cancel_decision.splits) (metis snd_conv)+

lemma client_ok_health_register:
  assumes "client_ok c"
  shows "client_ok (snd (health_register t c))"
proof (cases "fst (health_register t c)")
  case (Inl e)
  then have "snd (health_register t c) = c"
    by (auto simp: health_register_def Let_def split: sum.splits if_splits)
  with assms show ?thesis by simp
next
  case (Inr v)
  note ok = client_okD [OF assms]
  have conn: "cl_connected c" and eq: "snd (health_register t c) =
      c\<lparr>cl_next_probe_id := cl_next_probe_id c + 1, cl_queues := cl_queues c @ [None],
        cl_probes := AList.update (cl_next_probe_id c) (length (cl_queues c)) (cl_probes c)\<rparr>" (is "_ = ?c")
    using Inr by (cases "require_connected_locked c";
        auto simp: health_register_def Let_def dest!: require_connected_Inr [OF assms, THEN iffD1]
        split: if_splits)+
  have "client_ok ?c"
  proof (rule client_okI)
    show "link_ok ?c" using ok(2) conn by (auto simp: link_ok_def request_limit_def split: option.splits)
    have "set (AList.update p q d) \<subseteq> insert (p, q) (set d)" for p :: int and q :: nat and d
      by (induction d) auto
    with ok(5) show "probes_ok ?c"
      by (fastforce simp: probes_ok_def list_all_iff)
  qed (use ok in simp_all)
  with eq show ?thesis by simp
qed

lemma client_ok_health_unregister: "client_ok c \<Longrightarrow> client_ok (health_unregister p c)"
proof -
  assume c: "client_ok c"
  note ok = client_okD [OF c]
  show ?thesis
  proof (rule client_okI)
    show "link_ok (health_unregister p c)"
      using ok(2) by (auto simp only: link_ok_def request_limit_def health_unregister_def)
        (auto split: if_splits option.splits)
    show "probes_ok (health_unregister p c)"
      using ok(5) by (auto simp: probes_ok_def health_unregister_def list_all_iff AList.delete_eq
          dest: dict_ok_delete [of _ p])
  qed (use ok in \<open>simp_all add: health_unregister_def\<close>)
qed

lemma client_ok_health:
  assumes "client_ok c" and "\<And>c. client_ok c \<Longrightarrow> client_ok (others c)"
  shows "client_ok (snd (health frepr sendall others t c))"
proof -
  have 1: "client_ok (snd (health_register t c))" by (rule client_ok_health_register [OF assms(1)])
  then have 2: "client_ok (snd (send_encoded sendall x (snd (health_register t c))))" for x
    by (rule client_ok_send_encoded)
  show ?thesis
    using 1 2 assms(2)
    by (auto simp: health_def Let_def intro!: client_ok_health_unregister split: prod.splits sum.splits)
      (metis snd_conv)+
qed

lemma client_ok_close: "client_ok c \<Longrightarrow> client_ok (close c)"
  by (simp add: close_def client_ok_fail)

lemma client_ok_init: "GenerationClient_init config = Inr c \<Longrightarrow> client_ok c"
  by (auto simp: GenerationClient_init_def result_simps client_ok_def link_ok_def table_ok_def probes_ok_def)

section \<open>Dispatching\<close>

lemma dispatch_delta_shape:
  assumes "dispatch_delta d epoch r c = (res, c')"
  shows "(\<exists>e. res = Inl e \<and> c' = c) \<or>
    (rs_accepted (cl_states c ! r) \<and> td_sequence_no d = rs_next_sequence_no (cl_states c ! r) \<and>
     (\<exists>x k. res = Inr (nothing_left\<lparr>send_cancel := x\<rparr>) \<and>
        c' = upd_state r (\<lambda>s. s\<lparr>rs_next_sequence_no := rs_next_sequence_no s + 1,
              rs_events := snd (eb_put_delta d (rs_events s)), rs_cancel_sent := k\<rparr>) c))"
proof (cases "dispatch_event_check (cl_states c ! r)")
  case (Inl e)
  with assms show ?thesis by (auto simp: dispatch_delta_def)
next
  case (Inr u)
  let ?s = "cl_states c ! r"
  let ?up = "\<lambda>k. upd_state r (\<lambda>s. s\<lparr>rs_next_sequence_no := rs_next_sequence_no s + 1,
              rs_events := snd (eb_put_delta d (rs_events s)), rs_cancel_sent := k\<rparr>) c"
  show ?thesis
  proof (cases "td_sequence_no d = rs_next_sequence_no ?s")
    case False
    with assms Inr show ?thesis by (auto simp: dispatch_delta_def)
  next
    case True
    have acc: "rs_accepted ?s" using Inr by (simp add: dispatch_event_check_def result_simps)
    have same: "?up (rs_cancel_sent ?s) = upd_state r (\<lambda>_. ?s\<lparr>rs_next_sequence_no := rs_next_sequence_no ?s + 1,
              rs_events := snd (eb_put_delta d (rs_events ?s))\<rparr>) c"
      by (simp add: upd_state_def)
    have "\<exists>x k. res = Inr (nothing_left\<lparr>send_cancel := x\<rparr>) \<and> c' = ?up k"
    proof (cases "\<not> fst (eb_put_delta d (rs_events ?s)) \<and> \<not> rs_cancel_sent ?s")
      case c: True
      with assms Inr True have "res = Inr (nothing_left\<lparr>send_cancel := Some (td_request_id d, epoch)\<rparr>)"
        "c' = ?up True"
        by (auto simp: dispatch_delta_def Let_def upd_state_def split: prod.splits)
      then show ?thesis by blast
    next
      case False
      with assms Inr True have "res = Inr (nothing_left\<lparr>send_cancel := None\<rparr>)"
        "c' = ?up (rs_cancel_sent ?s)"
        unfolding same by (auto simp: dispatch_delta_def Let_def nothing_left_def split: prod.splits if_splits)
      then show ?thesis by blast
    qed
    with acc True show ?thesis by blast
  qed
qed

lemma dispatch_locked_cases:
  assumes "client_ok c" and "dispatch_locked m c = (res, c')"
  obtains (error) e where "res = Inl e" "c' = c"
  | (stats) st where "m = MStats st" "res = Inr nothing_left" "c' = dispatch_stats st c"
  | (accepted) i r where "m = MAccepted i" "map_of (cl_requests c) i = Some r" "\<not> rs_accepted (cl_states c ! r)"
      "res = Inr nothing_left" "c' = upd_state r (\<lambda>s. s\<lparr>rs_accepted := True\<rparr>) c"
  | (rejected) i st r where "m = MRejected i st" "map_of (cl_requests c) i = Some r"
      "\<not> rs_accepted (cl_states c ! r)" "res = Inr nothing_left"
      "c' = (upd_state r (\<lambda>s. s\<lparr>rs_rejected := Some st\<rparr>) c)\<lparr>cl_requests := AList.delete i (cl_requests c)\<rparr>"
  | (delta) d r x k where "m = MTokenDelta d" "map_of (cl_requests c) (td_request_id d) = Some r"
      "rs_accepted (cl_states c ! r)" "td_sequence_no d = rs_next_sequence_no (cl_states c ! r)"
      "res = Inr (nothing_left\<lparr>send_cancel := x\<rparr>)"
      "c' = upd_state r (\<lambda>s. s\<lparr>rs_next_sequence_no := rs_next_sequence_no s + 1,
              rs_events := snd (eb_put_delta d (rs_events s)), rs_cancel_sent := k\<rparr>) c"
  | (terminal) t r where "m = MTerminal t" "map_of (cl_requests c) (tm_request_id t) = Some r"
      "rs_accepted (cl_states c ! r)"
      "res = Inr (nothing_left\<lparr>terminal_to_deliver := Some (r, t)\<rparr>)"
      "c' = (upd_state r (\<lambda>s. s\<lparr>rs_terminal_received := True\<rparr>) c)
              \<lparr>cl_requests := AList.delete (tm_request_id t) (cl_requests c)\<rparr>"
proof (cases "require_connected_locked c")
  case (Inl e)
  with assms(2) show ?thesis by (auto simp: dispatch_locked_def intro: error)
next
  case (Inr h)
  have look: "rs_rejected (cl_states c ! r) = None" if "map_of (cl_requests c) i = Some r" for i r
    using table_ok_lookup [OF client_okD(3) [OF assms(1)] that] by (simp add: live_state_def)
  show ?thesis
  proof (cases m)
    case (MTokenDelta d)
    show ?thesis
    proof (cases "map_of (cl_requests c) (td_request_id d)")
      case None
      with MTokenDelta Inr assms(2) show ?thesis
        by (auto simp: dispatch_locked_def with_request_def intro: error)
    next
      case (Some r)
      with MTokenDelta Inr assms(2) have "dispatch_delta d (ha_worker_epoch h) r c = (res, c')"
        by (simp add: dispatch_locked_def with_request_def)
      from dispatch_delta_shape [OF this] show ?thesis
        using error delta [OF MTokenDelta Some] by blast
    qed
  next
    case (MHelloAck h')
    with Inr assms(2) show ?thesis by (auto simp: dispatch_locked_def intro: error)
  next
    case (MStats st)
    with Inr assms(2) show ?thesis by (auto simp: dispatch_locked_def intro: stats)
  next
    case (MAccepted i)
    show ?thesis
    proof (cases "map_of (cl_requests c) i")
      case None
      with MAccepted Inr assms(2) show ?thesis
        by (auto simp: dispatch_locked_def with_request_def intro: error)
    next
      case (Some r)
      with MAccepted Inr assms(2) look [OF Some] show ?thesis
        by (cases "rs_accepted (cl_states c ! r)")
          (auto simp: dispatch_locked_def with_request_def dispatch_accepted_def
            intro: error accepted [OF MAccepted Some])
    qed
  next
    case (MRejected i st)
    show ?thesis
    proof (cases "map_of (cl_requests c) i")
      case None
      with MRejected Inr assms(2) show ?thesis
        by (auto simp: dispatch_locked_def with_request_def intro: error)
    next
      case (Some r)
      with MRejected Inr assms(2) show ?thesis
        by (cases "rs_accepted (cl_states c ! r)")
          (auto simp: dispatch_locked_def with_request_def dispatch_rejected_def
            intro: error rejected [OF MRejected Some])
    qed
  next
    case (MTerminal t)
    show ?thesis
    proof (cases "map_of (cl_requests c) (tm_request_id t)")
      case None
      with MTerminal Inr assms(2) show ?thesis
        by (auto simp: dispatch_locked_def with_request_def intro: error)
    next
      case (Some r)
      with MTerminal Inr assms(2) show ?thesis
        by (cases "dispatch_event_check (cl_states c ! r)")
          (auto simp: dispatch_locked_def with_request_def dispatch_terminal_def
            dispatch_event_check_def result_simps intro: error terminal [OF MTerminal Some])
    qed
  qed
qed

text \<open>After the locked part, a terminal about to be delivered belongs to a request that is out
  of the table and has none yet.\<close>

lemma dispatch_locked_terminal:
  assumes "client_ok c" and "dispatch_locked m c = (Inr rest, c')"
    and "terminal_to_deliver rest = Some (r, t)"
  shows "r < length (cl_states c')" "r \<notin> snd ` set (cl_requests c')"
    "eb_terminal (rs_events (cl_states c' ! r)) = None" "rs_accepted (cl_states c' ! r)"
    "send_cancel rest = None"
proof -
  note ok = client_okD [OF assms(1)]
  from assms(1,2) obtain "map_of (cl_requests c) (tm_request_id t) = Some r"
    "rs_accepted (cl_states c ! r)" "send_cancel rest = None"
    "c' = (upd_state r (\<lambda>s. s\<lparr>rs_terminal_received := True\<rparr>) c)
              \<lparr>cl_requests := AList.delete (tm_request_id t) (cl_requests c)\<rparr>"
    by (rule dispatch_locked_cases) (use assms(3) in \<open>auto simp: nothing_left_def\<close>)
  moreover from this table_ok_lookup [OF ok(3)] delete_unregisters [of "cl_requests c"] ok(3)
  have "r < length (cl_states c)" "live_state (cl_states c ! r)"
    "r \<notin> snd ` set (AList.delete (tm_request_id t) (cl_requests c))"
    by (auto simp: table_ok_def)
  ultimately show "r < length (cl_states c')" "r \<notin> snd ` set (cl_requests c')"
    "eb_terminal (rs_events (cl_states c' ! r)) = None" "rs_accepted (cl_states c' ! r)"
    "send_cancel rest = None"
    by (simp_all add: live_state_def)
qed

lemma client_ok_dispatch_locked:
  assumes "client_ok c" and "dispatch_locked m c = (res, c')"
  shows "client_ok c'"
  using assms
proof (cases rule: dispatch_locked_cases)
  case (stats st)
  with assms(1) show ?thesis by (simp add: dispatch_stats_def client_ok_queue_put split: option.split)
next
  case (accepted i r)
  have "rs_rejected (cl_states c ! r) = None"
    using table_ok_lookup [OF client_okD(3) [OF assms(1)] accepted(2)] by (simp add: live_state_def)
  with accepted show ?thesis
    by (auto intro!: client_ok_upd [OF assms(1)] simp: state_ok_def live_state_def)
next
  case (rejected i st r)
  with client_ok_remove [OF assms(1) rejected(2), of "\<lambda>s. s\<lparr>rs_rejected := Some st\<rparr>"]
  show ?thesis by (simp add: state_ok_def)
next
  case (delta d r x k)
  have "eb_terminal (rs_events (cl_states c ! r)) = None"
    using table_ok_lookup [OF client_okD(3) [OF assms(1)] delta(2)] by (simp add: live_state_def)
  with delta show ?thesis
    by (auto intro!: client_ok_upd [OF assms(1)] put_delta_sequence
        simp: state_ok_def live_state_def put_delta_sound)
next
  case (terminal t r)
  with client_ok_remove [OF assms(1) terminal(2), of "\<lambda>s. s\<lparr>rs_terminal_received := True\<rparr>"]
  show ?thesis by (simp add: state_ok_def)
qed (use assms in simp)

lemma client_ok_deliver:
  assumes "client_ok c" and "r \<notin> snd ` set (cl_requests c)"
  shows "client_ok (deliver_terminal t r c)"
  unfolding deliver_terminal_def using assms
  by (intro client_ok_upd) (auto simp: state_ok_def upd_events_def put_terminal_sound)

lemma dispatch_unfold:
  assumes "client_ok c"
  shows "dispatch frepr sendall m c =
    (case dispatch_locked m c of
       (Inl e, c1) \<Rightarrow> (Inl e, c1)
     | (Inr rest, c1) \<Rightarrow>
         (case terminal_to_deliver rest of
            Some (r, t) \<Rightarrow> (Inr (), deliver_terminal t r c1)
          | None \<Rightarrow>
              (case send_cancel rest of
                 Some (request_id, epoch) \<Rightarrow>
                   send_encoded sendall (encode_cancel frepr request_id epoch) c1
               | None \<Rightarrow> (Inr (), c1))))"
  using dispatch_locked_terminal(3) [OF assms, of m]
  by (auto simp: dispatch_def eb_put_terminal_def split: sum.splits prod.splits option.splits)

lemma client_ok_dispatch:
  assumes "client_ok c"
  shows "client_ok (snd (dispatch frepr sendall m c))"
proof -
  obtain res c1 where d: "dispatch_locked m c = (res, c1)" by force
  note ok1 = client_ok_dispatch_locked [OF assms d]
  have "client_ok (deliver_terminal t r c1)"
    if "res = Inr rest" "terminal_to_deliver rest = Some (r, t)" for rest r t
    using client_ok_deliver [OF ok1 dispatch_locked_terminal(2) [OF assms]] that d by blast
  then show ?thesis
    using d ok1 client_ok_send_encoded [OF ok1]
    by (auto simp: dispatch_unfold [OF assms] split: sum.splits option.splits)
qed

lemma client_ok_reader_loop: "client_ok c \<Longrightarrow> client_ok (reader_loop loads frepr sendall cs c)"
proof (induction loads frepr sendall cs c rule: reader_loop.induct)
  case (1 loads frepr sendall cs c)
  have dis: "client_ok c'" if "dispatch frepr sendall m c = (x, c')" for m x c'
    using client_ok_dispatch [OF 1(2), of frepr sendall m] that by simp
  show ?case
    using 1(2) dis
    by (subst reader_loop.simps)
      (auto intro!: client_ok_fail 1(1) split: option.splits sum.splits prod.splits)
qed

lemma decode_before_handshake:
  "decode_server_message loads payload None = Inr m \<Longrightarrow>
     \<exists>h. m = MHelloAck h \<and> worker_message_valid (ha_worker_epoch h) m"
  using decode_server_value_None by (auto simp: decode_server_message_def split: sum.splits)

lemma decode_after_handshake:
  "decode_server_message loads payload (Some e) = Inr m \<Longrightarrow> worker_message_valid e m"
  using decode_server_value_valid by (auto simp: decode_server_message_def split: sum.splits)

lemma handshake_Inr:
  assumes "handshake loads frepr env config = Inr h"
  shows "hello_ok config h"
proof -
  from assms obtain payload m where m: "decode_server_message loads payload None = Inr m"
    "(case m of
       MHelloAck h \<Rightarrow>
         rbind (guard (ha_manifest h = gc_expected_manifest config)
                  (ProtocolError ''Worker ModelManifest does not match Gateway'')) (\<lambda>_.
         rbind (guard (wl_max_frame_payload_bytes (ha_limits h) \<le> gc_max_frame_payload_bytes config)
                  (ProtocolError ''Worker frame limit exceeds GenerationClient capacity'')) (\<lambda>_.
         Inr h))
     | _ \<Rightarrow> Inl (ProtocolError ''Worker did not reply with HelloAck'')) = Inr h"
    by (simp only: handshake_def rbind_Inr) blast
  from decode_before_handshake [OF m(1)] m(2) show ?thesis
    by (auto simp: hello_ok_def result_simps)
qed

text \<open>A new connection on a client that has none.\<close>

definition connected_client :: "nat \<Rightarrow> HelloAck \<Rightarrow> Client \<Rightarrow> Client" where
  "connected_client conn h c =
     c\<lparr>cl_next_conn := conn + 1, cl_socket := Some conn, cl_hello_ack := Some h, cl_connected := True,
       cl_reader_thread := Some conn\<rparr>"

lemma client_ok_connected:
  assumes "client_ok c" and "\<not> cl_connected c" and "hello_ok (cl_config c) h"
  shows "client_ok (connected_client conn h c)"
proof (rule client_okI)
  note ok = client_okD [OF assms(1)]
  have "0 \<le> request_limit c h"
    using assms(3) ok(1) by (auto simp: request_limit_def hello_ok_def worker_limits_valid_def
        validate_config_def result_simps)
  with ok(2) assms show "link_ok (connected_client conn h c)"
    by (simp add: link_ok_def connected_client_def request_limit_def)
  show "probes_ok (connected_client conn h c)"
    using ok(5) by (simp add: probes_ok_def connected_client_def)
qed (use client_okD [OF assms(1)] in \<open>simp_all add: connected_client_def\<close>)

lemma connect_shape:
  "connect loads frepr env c =
     (if already_connected c
      then (Inl (GenerationClientError ''GenerationClient is already connected''), c)
      else case handshake loads frepr env (cl_config c) of
          Inl e \<Rightarrow> (Inl e, c\<lparr>cl_next_conn := cl_next_conn c + 1\<rparr>)
        | Inr h \<Rightarrow>
            let c1 = connected_client (cl_next_conn c) h c
            in case ce_thread env of
                 None \<Rightarrow> (Inr (), c1\<lparr>cl_live_readers := cl_next_conn c # cl_live_readers c1\<rparr>)
               | Some m \<Rightarrow>
                   (Inl (RuntimeError m),
                    fail False (unavailable (''failed to start reader: '' @ m)) c1))"
  by (simp add: connect_def connected_client_def Let_def split: sum.split)

lemma client_ok_connect:
  assumes "client_ok c"
  shows "client_ok (snd (connect loads frepr env c))"
proof (cases "already_connected c")
  case True
  with assms show ?thesis by (simp add: connect_shape)
next
  case False
  then have nc: "\<not> cl_connected c" by (simp add: already_connected_def)
  show ?thesis
  proof (cases "handshake loads frepr env (cl_config c)")
    case (Inl e)
    have "client_ok (c\<lparr>cl_next_conn := cl_next_conn c + 1\<rparr>)"
      using assms by (rule client_ok_cong) simp_all
    with False Inl show ?thesis by (simp add: connect_shape)
  next
    case (Inr h)
    let ?c = "connected_client (cl_next_conn c) h c"
    have ok: "client_ok ?c" by (rule client_ok_connected [OF assms nc handshake_Inr [OF Inr]])
    then have "client_ok (?c\<lparr>cl_live_readers := cl_next_conn c # cl_live_readers ?c\<rparr>)"
      by (rule client_ok_cong) simp_all
    with False Inr ok show ?thesis by (simp add: connect_shape Let_def client_ok_fail split: option.split)
  qed
qed

end
