(* ===== verification/Client_Samples.thy ===== *)
theory Client_Samples
  imports Client_Inv
begin

text \<open>A concrete configuration, HelloAck and connected client with one accepted request, on
  which the properties of the client are exercised.\<close>

definition sample_manifest :: ModelManifest where
  "sample_manifest =
     \<lparr>mm_model_id = ''m'', mm_revision = ''r'', mm_tokenizer_fingerprint = ''t'',
      mm_chat_template_fingerprint = ''c'', mm_engine_fingerprint = ''e'', mm_eos_token_id = 2,
      mm_pad_token_id = 0, mm_max_input_tokens = 16, mm_max_output_tokens = 16,
      mm_max_sequence_tokens = 32, mm_precision = ''fp16'', mm_max_batch_size = 2\<rparr>"

definition sample_limits :: WorkerLimits where
  "sample_limits =
     \<lparr>wl_max_active_requests = 4, wl_max_total_input_tokens = 64, wl_max_reserved_output_tokens = 64,
      wl_max_frame_payload_bytes = 1024, wl_max_session_egress_frames = 16,
      wl_max_session_egress_bytes = 4096, wl_max_request_egress_frames = 8,
      wl_max_request_egress_bytes = 2048\<rparr>"

definition sample_hello :: HelloAck where
  "sample_hello = \<lparr>ha_worker_epoch = 7, ha_manifest = sample_manifest, ha_limits = sample_limits\<rparr>"

definition sample_config :: GenerationClientConfig where
  "sample_config =
     \<lparr>gc_socket_path = ''/w'', gc_expected_manifest = sample_manifest, gc_connect_timeout = Fin 2,
      gc_handshake_timeout = Fin 2, gc_max_frame_payload_bytes = 4096, gc_max_pending_requests = 8,
      gc_max_delta_events_per_request = 2\<rparr>"

definition sample_request :: "int \<Rightarrow> GenerationRequest" where
  "sample_request i =
     \<lparr>gr_request_id = i, gr_input_token_ids = [1, 2], gr_max_new_tokens = 4, gr_priority = 0,
      gr_timeout_ms = None, gr_trace_id = [], gr_streaming = True,
      gr_sampling = \<lparr>sp_temperature = Fin 1, sp_top_k = 1, sp_top_p = Fin 1, sp_random_seed = 0\<rparr>,
      gr_end_id = None, gr_pad_id = None, gr_stop_sequences = []\<rparr>"

definition sample_start :: Client where
  "sample_start =
     \<lparr>cl_config = sample_config, cl_socket = None, cl_reader_thread = None, cl_hello_ack = None,
      cl_connected = False, cl_requests = [], cl_probes = [], cl_next_probe_id = 1,
      cl_states = [], cl_queues = [], cl_live_readers = [], cl_next_conn = 0, cl_sent = []\<rparr>"

definition sample_connected :: Client where
  "sample_connected = connected_client 0 sample_hello sample_start"

definition sample_client :: Client where
  "sample_client = snd (dispatch_locked (MAccepted 5) (snd (submit_register (sample_request 5) sample_connected)))"

lemma sample_hello_ok: "hello_ok sample_config sample_hello"
  by (simp add: hello_ok_def sample_hello_def sample_config_def sample_manifest_def sample_limits_def
      worker_manifest_valid_def worker_limits_valid_def limits_hierarchy_ok_def manifest_limits_ok_def
      u31_max_def u32_max_def u64_max_def)

lemma sample_init: "GenerationClient_init sample_config = Inr sample_start"
  by (simp add: GenerationClient_init_def validate_config_def sample_config_def sample_start_def)

lemma sample_connected_ok: "client_ok sample_connected"
  unfolding sample_connected_def
  by (rule client_ok_connected [OF client_ok_init [OF sample_init]])
    (simp_all add: sample_start_def sample_hello_ok)

lemma sample_connected_eq:
  "sample_connected = sample_start\<lparr>cl_next_conn := 1, cl_socket := Some 0,
     cl_hello_ack := Some sample_hello, cl_connected := True, cl_reader_thread := Some 0\<rparr>"
  by (simp add: sample_connected_def connected_client_def)

lemma sample_submit_check: "submit_check (sample_request 5) sample_connected = Inr 7"
  by (simp add: submit_check_def sample_request_def sample_connected_eq sample_start_def
      require_connected_locked_def sample_hello_def validate_request_against_worker_def
      sample_manifest_def sample_limits_def sample_config_def request_limit_def)

lemma sample_client_ok: "client_ok sample_client"
  unfolding sample_client_def
  by (rule client_ok_dispatch_locked [OF client_ok_submit_register [OF sample_connected_ok]])
    (rule prod.collapse [symmetric])

lemma sample_client_eq:
  "sample_client = sample_connected\<lparr>cl_requests := [(5, 0)],
     cl_states := [(RequestState_init 5 2)\<lparr>rs_accepted := True\<rparr>]\<rparr>"
proof -
  have "gr_request_id (sample_request 5) = 5" by (simp add: sample_request_def)
  then have "snd (submit_register (sample_request 5) sample_connected) =
      sample_connected\<lparr>cl_requests := [(5, 0)], cl_states := [RequestState_init 5 2]\<rparr>"
    by (simp add: submit_register_def sample_submit_check register_request_def)
      (simp add: sample_connected_eq sample_start_def sample_config_def)
  then show ?thesis
    by (simp add: sample_client_def dispatch_locked_def require_connected_locked_def with_request_def
        dispatch_accepted_def upd_state_def RequestState_init_def sample_connected_eq)
qed

end
