(* ===== verification/Client_Settle.thy ===== *)
theory Client_Settle
  imports Client_Samples
begin

text \<open>
  What the client promises about its requests: the reader loop always ends, and when the
  connection is gone every request has been answered exactly once.
\<close>

section \<open>Settling every request\<close>

text \<open>
  A request is settled when its submitter or its consumer has an answer: a terminal event
  once it is accepted, otherwise a rejection or a connection failure.
\<close>

definition settled :: "RequestState \<Rightarrow> bool" where
  "settled s \<longleftrightarrow> (if rs_accepted s then eb_terminal (rs_events s) \<noteq> None
                  else rs_rejected s \<noteq> None \<or> rs_failure s \<noteq> None)"

definition tracked :: "Client \<Rightarrow> nat \<Rightarrow> bool" where
  "tracked c r \<longleftrightarrow> r < length (cl_states c) \<and>
     (r \<in> snd ` set (cl_requests c) \<or> settled (cl_states c ! r))"

lemma registered_live:
  "client_ok c \<Longrightarrow> r \<in> snd ` set (cl_requests c) \<Longrightarrow> r < length (cl_states c) \<and> live_state (cl_states c ! r)"
  by (auto simp: client_ok_def table_ok_def list_all_iff entry_ok_def)

lemma fail_settles:
  assumes "client_ok c" and "tracked c r"
  shows "tracked (fail j st c) r" "settled (cl_states (fail j st c) ! r)"
proof -
  have d: "distinct (map snd (cl_requests c))"
    using client_okD(3) [OF assms(1)] by (simp add: table_ok_def)
  have r: "r < length (cl_states c)" using assms(2) by (simp add: tracked_def)
  show s: "settled (cl_states (fail j st c) ! r)"
    using assms(2) registered_live [OF assms(1), of r]
    by (auto simp: fail_states [OF d r] settled_def terminated_state_def failed_state_def
        needs_terminal_def upd_events_def eb_put_terminal_def live_state_def tracked_def)
  then show "tracked (fail j st c) r" using r by (simp add: tracked_def)
qed

lemma tracked_cong:
  "cl_states c' = cl_states c \<Longrightarrow> cl_requests c' = cl_requests c \<Longrightarrow> tracked c' r = tracked c r"
  by (simp add: tracked_def)

lemma send_encoded_tracks:
  assumes "client_ok c" and "tracked c r"
  shows "tracked (snd (send_encoded sendall x c)) r"
  using assms fail_settles(1) [OF assms]
  by (auto simp: send_encoded_def send_payload_def send_write_def Let_def
      split: sum.splits option.splits prod.splits) (simp add: tracked_def)

lemma upd_tracks:
  assumes "tracked c r" and "r \<in> snd ` set (cl_requests c) \<or> r \<noteq> k"
  shows "tracked (upd_state k f c) r"
  using assms by (auto simp: tracked_def)

text \<open>Removing entry \<open>i\<close> for state \<open>k\<close> keeps every other request tracked.\<close>

lemma remove_tracks:
  assumes "client_ok c" and "map_of (cl_requests c) i = Some k" and "tracked c r"
    and "r = k \<Longrightarrow> settled (f (cl_states c ! k))"
  shows "tracked ((upd_state k f c)\<lparr>cl_requests := AList.delete i (cl_requests c)\<rparr>) r"
proof (cases "r = k")
  case True
  then show ?thesis using assms by (simp add: tracked_def)
next
  case False
  have d: "dict_ok (cl_requests c)" using client_okD(3) [OF assms(1)] by (simp add: table_ok_def)
  have "r \<in> snd ` set (AList.delete i (cl_requests c))" if "r \<in> snd ` set (cl_requests c)"
    using that assms(2) False d by (intro delete_keeps_value) (auto simp: in_dict_iff)
  with False assms(3) show ?thesis by (auto simp: tracked_def)
qed

lemma dispatch_tracks:
  assumes ok: "client_ok c" and tr: "tracked c r" and dis: "dispatch frepr sendall m c = (res, c')"
  shows "tracked c' r"
proof -
  obtain lres c1 where d: "dispatch_locked m c = (lres, c1)" by force
  note ok1 = client_ok_dispatch_locked [OF ok d]
  note du = dis [unfolded dispatch_unfold [OF ok]]
  from ok d show ?thesis
  proof (cases rule: dispatch_locked_cases)
    case (error e)
    with du d tr show ?thesis by simp
  next
    case (stats st)
    with du d tr show ?thesis
      by (auto simp: nothing_left_def dispatch_stats_def tracked_def split: option.splits)
  next
    case (accepted i k)
    have "r = k \<Longrightarrow> r \<in> snd ` set (cl_requests c)"
      using map_of_SomeD [OF accepted(2)] by (auto simp: image_iff intro: bexI [of _ "(i, k)"])
    with accepted du d tr show ?thesis by (auto simp: nothing_left_def intro!: upd_tracks)
  next
    case (rejected i st k)
    with remove_tracks [OF ok rejected(2) tr, of "\<lambda>s. s\<lparr>rs_rejected := Some st\<rparr>"] du d
    show ?thesis by (auto simp: nothing_left_def settled_def)
  next
    case (delta td k x w)
    have "r = k \<Longrightarrow> r \<in> snd ` set (cl_requests c)"
      using map_of_SomeD [OF delta(2)] by (auto simp: image_iff intro: bexI [of _ "(td_request_id td, k)"])
    with delta(6) tr have t1: "tracked c1 r" by (auto intro!: upd_tracks)
    with delta(5) du d send_encoded_tracks [OF ok1 t1] show ?thesis
      by (auto simp: nothing_left_def split: option.splits) (metis snd_conv)
  next
    case (terminal t k)
    have c': "c' = deliver_terminal t k c1" using terminal(4) du d by (simp add: nothing_left_def)
    have k: "k < length (cl_states c)"
      using table_ok_lookup [OF client_okD(3) [OF ok] terminal(2)] by simp
    have "c' = (upd_state k (\<lambda>s. upd_events (\<lambda>b. snd (eb_put_terminal t b)) (s\<lparr>rs_terminal_received := True\<rparr>)) c)
        \<lparr>cl_requests := AList.delete (tm_request_id t) (cl_requests c)\<rparr>"
      using k by (simp add: c' terminal(5) deliver_terminal_def upd_state_def)
    moreover have "settled (upd_events (\<lambda>b. snd (eb_put_terminal t b)) ((cl_states c ! k)\<lparr>rs_terminal_received := True\<rparr>))"
      using terminal(3) by (simp add: settled_def upd_events_def eb_put_terminal_def)
    ultimately show ?thesis
      using remove_tracks [OF ok terminal(2) tr] by simp
  qed
qed

lemma reader_loop_tracks:
  assumes "client_ok c" and "tracked c r"
  shows "tracked (reader_loop loads frepr sendall cs c) r"
  using assms
proof (induction loads frepr sendall cs c rule: reader_loop.induct)
  case (1 loads frepr sendall cs c)
  have dis: "client_ok c' \<and> tracked c' r" if "dispatch frepr sendall m c = (x, c')" for m x c'
    using client_ok_dispatch [OF 1(2), of frepr sendall m] dispatch_tracks [OF 1(2,3) that] that by simp
  show ?case
    using 1(2,3) dis
    by (subst reader_loop.simps)
      (auto intro!: fail_settles(1) 1(1) split: option.splits sum.splits prod.splits)
qed

lemma connected_socket: "client_ok c \<Longrightarrow> cl_connected c \<Longrightarrow> cl_socket c \<noteq> None"
  by (simp add: client_ok_def link_ok_def)

lemma reader_loop_socket:
  "client_ok c \<Longrightarrow> cl_socket (reader_loop loads frepr sendall cs c) = None"
proof (induction loads frepr sendall cs c rule: reader_loop.induct)
  case (1 loads frepr sendall cs c)
  have dis: "client_ok c'" if "dispatch frepr sendall m c = (x, c')" for m x c'
    using client_ok_dispatch [OF 1(2), of frepr sendall m] that by simp
  have conn: "cl_socket c = None" if "\<not> cl_connected c \<or> cl_socket c = None"
    using that 1(2) by (auto simp: client_ok_def link_ok_def)
  show ?case
    using dis conn
    by (subst reader_loop.simps) (auto intro!: 1(1) split: option.splits sum.splits prod.splits)
qed

lemma reader_loop_disconnects:
  "client_ok c \<Longrightarrow> \<not> cl_connected (reader_loop loads frepr sendall cs c)"
  using connected_socket client_ok_reader_loop reader_loop_socket by blast

lemma disconnected_settled: "client_ok c \<Longrightarrow> \<not> cl_connected c \<Longrightarrow> tracked c r \<Longrightarrow> settled (cl_states c ! r)"
  by (auto simp: client_ok_def link_ok_def tracked_def)

lemma fold_queue_put_filled:
  "q \<in> set qs \<or> cl_queues c ! q \<noteq> None \<Longrightarrow> q < length (cl_queues c) \<Longrightarrow>
     cl_queues (fold (\<lambda>q. queue_put q v) qs c) ! q \<noteq> None"
proof (induction qs arbitrary: c)
  case Nil
  then show ?case by simp
next
  case (Cons p qs)
  have "q \<in> set qs \<or> cl_queues (queue_put p v c) ! q \<noteq> None"
    using Cons.prems by (cases "q = p") (auto simp: queue_put_def split: option.split)
  from Cons.IH [OF this] Cons.prems(2) show ?case by simp
qed

lemma fail_answers_probes:
  assumes "q \<in> snd ` set (cl_probes c)" and "q < length (cl_queues c)"
  shows "cl_queues (fail j st c) ! q \<noteq> None"
proof -
  let ?c1 = "fold (fail_deliver st) (map snd (cl_requests c))
    (fold (\<lambda>r. upd_state r (failed_state st)) (map snd (cl_requests c))
      (c\<lparr>cl_socket := None, cl_connected := False, cl_hello_ack := None, cl_requests := [], cl_probes := []\<rparr>))"
  have "length (cl_queues ?c1) = length (cl_queues c)"
    using fail_fields(9) [of j st c] by (simp add: fail_def fail_locked_split)
  with fold_queue_put_filled [of q "map snd (cl_probes c)" ?c1 None] assms show ?thesis
    by (simp add: fail_def fail_locked_split)
qed

lemma fail_no_requests: "cl_requests c = [] \<Longrightarrow> cl_states (fail j st c) = cl_states c"
  by (simp add: fail_def fail_locked_split)

lemma send_encoded_Inl:
  assumes "send_encoded sendall x c = (Inl e, c')"
  shows "c' = c \<or> (\<exists>j st. c' = fail j st c)"
  using assms by (auto simp: send_encoded_def send_payload_def send_write_def Let_def
      split: sum.splits option.splits prod.splits)

lemma update_new_append: "map_of d k = None \<Longrightarrow> AList.update k v d = d @ [(k, v)]"
  by (induction d) (auto split: if_splits)

lemma delete_append_new: "map_of d k = None \<Longrightarrow> AList.delete k (d @ [(k, v)]) = d"
  by (induction d) (auto simp: AList.delete_eq split: if_splits)

section \<open>Properties\<close>

text \<open>
  C3. The reader thread never leaves a request behind: for any bytes the Worker sends (valid
  frames, protocol violations, or a closed stream) and any write failure, the loop ends with
  the client disconnected and well formed, and every request that was registered has an
  answer: a terminal event in its buffer if it was accepted, otherwise the rejection or the
  connection failure its submitter waits for.
\<close>

theorem reader_loop_settles:
  assumes "client_ok c" and "map_of (cl_requests c) i = Some r"
  shows "let c' = reader_loop loads frepr sendall cs c in
    client_ok c' \<and> \<not> cl_connected c' \<and> settled (cl_states c' ! r)"
proof -
  have "tracked c r"
    using assms table_ok_lookup [OF client_okD(3) [OF assms(1)] assms(2)]
    by (force simp: tracked_def dest: map_of_SomeD)
  then show ?thesis
    unfolding Let_def using assms(1)
    by (simp add: client_ok_reader_loop reader_loop_disconnects reader_loop_tracks disconnected_settled)
qed

theorem reader_loop_settles_witness:
  "let c' = reader_loop (\<lambda>_. Inl (JSONDecodeError [])) (\<lambda>_. []) (\<lambda>_. None) [[0, 0]] sample_client in
    client_ok c' \<and> \<not> cl_connected c' \<and> settled (cl_states c' ! 0)"
  by (rule reader_loop_settles [of _ 5]) (simp_all add: sample_client_ok, simp add: sample_client_eq)

text \<open>
  Tearing a connection down answers everyone who waits on it: afterwards the client is
  disconnected with empty tables, every registered request is settled, every registered
  probe's queue holds an answer, and the requests that were not registered are untouched.
\<close>

theorem fail_answers_everyone:
  assumes "client_ok c"
  shows "let c' = fail j st c in
    client_ok c' \<and> \<not> cl_connected c' \<and> cl_requests c' = [] \<and> cl_probes c' = [] \<and>
    (\<forall>r \<in> snd ` set (cl_requests c). settled (cl_states c' ! r)) \<and>
    (\<forall>q \<in> snd ` set (cl_probes c). cl_queues c' ! q \<noteq> None) \<and>
    (\<forall>r < length (cl_states c). r \<notin> snd ` set (cl_requests c) \<longrightarrow> cl_states c' ! r = cl_states c ! r)"
proof -
  note ok = client_okD [OF assms]
  have d: "distinct (map snd (cl_requests c))" using ok(3) by (simp add: table_ok_def)
  have "tracked c r" if "r \<in> snd ` set (cl_requests c)" for r
    using that registered_live [OF assms] by (auto simp: tracked_def)
  moreover have "q < length (cl_queues c)" if "q \<in> snd ` set (cl_probes c)" for q
    using that ok(5) by (auto simp: probes_ok_def list_all_iff)
  ultimately show ?thesis
    using fail_settles(2) [OF assms] fail_answers_probes [of _ c j st] fail_states [OF d]
    by (simp add: client_ok_fail [OF assms] Let_def)
qed

theorem fail_answers_everyone_witness:
  "settled (cl_states (fail True (unavailable ''x'') sample_client) ! 0)"
  using fail_answers_everyone [OF sample_client_ok, of True "unavailable ''x''"]
  by (simp add: Let_def) (simp add: sample_client_eq)

text \<open>
  C28. \<open>connect\<close> either establishes a connection whose Worker has exactly the expected
  manifest and a frame limit within the client's, with empty tables, or it leaves the
  client without a connection (or, when it was already connected, unchanged) and every
  request state as it was.
\<close>

theorem connect_outcome:
  assumes "client_ok c" and "connect loads frepr env c = (res, c')"
  shows "client_ok c' \<and> cl_states c' = cl_states c \<and>
    (case res of
       Inr _ \<Rightarrow> \<not> already_connected c \<and> cl_connected c' \<and> cl_requests c' = [] \<and> cl_probes c' = [] \<and>
         (\<exists>h. cl_hello_ack c' = Some h \<and> ha_manifest h = gc_expected_manifest (cl_config c) \<and>
              wl_max_frame_payload_bytes (ha_limits h) \<le> gc_max_frame_payload_bytes (cl_config c))
     | Inl e \<Rightarrow> if already_connected c then c' = c else \<not> cl_connected c')"
proof -
  have ok': "client_ok c'" using client_ok_connect [OF assms(1), of loads frepr env] assms(2) by simp
  show ?thesis
  proof (cases "already_connected c")
    case True
    with assms show ?thesis by (auto simp: connect_def)
  next
    case False
    then have nc: "\<not> cl_connected c" "cl_requests c = []" "cl_probes c = []"
      using client_okD(2) [OF assms(1)] by (auto simp: already_connected_def link_ok_def)
    show ?thesis
    proof (cases "handshake loads frepr env (cl_config c)")
      case (Inl e)
      with False assms nc ok' show ?thesis by (auto simp: connect_shape)
    next
      case (Inr h)
      let ?c = "connected_client (cl_next_conn c) h c"
      have "cl_states (fail j st ?c) = cl_states c" for j st
        using fail_no_requests [of ?c j st] nc by (simp add: connected_client_def)
      with False Inr assms nc ok' handshake_Inr [OF Inr] show ?thesis
        by (auto simp: connect_shape Let_def connected_client_def hello_ok_def split: option.splits)
    qed
  qed
qed

theorem connect_outcome_witness:
  "let env = \<lparr>ce_connect = Some ''refused'', ce_sendall = \<lambda>_. None, ce_stream = [], ce_thread = None\<rparr>;
       c' = snd (connect (\<lambda>_. Inl (JSONDecodeError [])) (\<lambda>_. []) env sample_start)
   in client_ok c' \<and> \<not> cl_connected c'"
proof -
  let ?env = "\<lparr>ce_connect = Some ''refused'', ce_sendall = \<lambda>_. None, ce_stream = [], ce_thread = None\<rparr>"
  have 1: "\<not> already_connected sample_start" by (simp add: already_connected_def sample_start_def)
  then have 2: "connect (\<lambda>_. Inl (JSONDecodeError [])) (\<lambda>_. []) ?env sample_start =
      (Inl (OSError ''refused''), sample_start\<lparr>cl_next_conn := 1\<rparr>)"
    by (simp add: connect_shape handshake_def) (simp add: sample_start_def)
  from connect_outcome [OF client_ok_init [OF sample_init] 2] 1 2 show ?thesis
    by (simp add: Let_def)
qed

text \<open>
  C29. A submit whose send fails is undone: its id is no longer registered; if the connection
  survived (the payload could not be encoded or framed), the table is what it was before the
  call, and if it did not, the table is empty and every other registered request is settled.
\<close>

theorem submit_rollback:
  assumes "client_ok c" and "submit_register request c = (Inr (r, epoch), c1)"
    and "submit_send frepr sendall request epoch c1 = (Inl e, c2)"
  shows "client_ok c2 \<and> map_of (cl_requests c2) (gr_request_id request) = None \<and>
    (if cl_connected c2 then cl_requests c2 = cl_requests c
     else cl_requests c2 = [] \<and> (\<forall>k \<in> snd ` set (cl_requests c). settled (cl_states c2 ! k)))"
proof -
  let ?rid = "gr_request_id request"
  obtain ep where chk: "submit_check request c = Inr ep"
    using assms(2) by (auto simp: submit_register_def split: sum.splits)
  then have c1: "c1 = register_request ?rid c" using assms(2) by (simp add: submit_register_def)
  have new: "map_of (cl_requests c) ?rid = None" by (rule submit_check_Inr [OF assms(1) chk])
  have ok1: "client_ok c1" using client_ok_submit_register [OF assms(1), of request] assms(2) by simp
  have ok2: "client_ok c2" using client_ok_submit_send [OF ok1, of frepr sendall request epoch] assms(3) by simp
  obtain c2' where s: "send_encoded sendall (encode_submit frepr request epoch) c1 = (Inl e, c2')"
    and c2: "c2 = c2'\<lparr>cl_requests := AList.delete ?rid (cl_requests c2')\<rparr>"
    using assms(3) by (auto simp: submit_send_def split: prod.splits sum.splits)
  have reg: "cl_requests c1 = cl_requests c @ [(?rid, length (cl_states c))]" "cl_connected c1"
    using new submit_check_Inr [OF assms(1) chk]
    by (simp_all add: c1 register_request_def update_new_append, blast)
  from send_encoded_Inl [OF s] consider "c2' = c1" | j st where "c2' = fail j st c1" by blast
  then show ?thesis
  proof cases
    case 1
    with c2 reg new have "cl_requests c2 = cl_requests c" "cl_connected c2"
      by (simp_all add: delete_append_new)
    with ok2 new show ?thesis by simp
  next
    case (2 j st)
    have "tracked c1 k" if "k \<in> snd ` set (cl_requests c)" for k
      using that reg registered_live [OF ok1, of k] by (auto simp: tracked_def)
    with 2 c2 ok2 fail_settles(2) [OF ok1] show ?thesis by simp
  qed
qed

theorem submit_rollback_witness:
  "let c1 = snd (submit_register (sample_request 5) sample_connected);
       c2 = snd (submit_send (\<lambda>_. []) (\<lambda>_. Some ''broken pipe'') (sample_request 5) 7 c1)
   in client_ok c2 \<and> map_of (cl_requests c2) 5 = None"
proof -
  let ?c1 = "snd (submit_register (sample_request 5) sample_connected)"
  let ?s = "submit_send (\<lambda>_. []) (\<lambda>_. Some ''broken pipe'') (sample_request 5) 7 ?c1"
  have 1: "submit_register (sample_request 5) sample_connected = (Inr (0, 7), ?c1)"
    by (simp add: submit_register_def sample_submit_check) (simp add: sample_connected_eq sample_start_def)
  obtain e where "?s = (Inl e, snd ?s)"
    by (cases ?s; cases "fst ?s") (auto simp: submit_send_def send_encoded_def send_payload_def
        send_write_def Let_def split: sum.splits prod.splits)
  from submit_rollback [OF sample_connected_ok 1 this] show ?thesis
    by (simp add: sample_request_def Let_def)
qed

end
