(* ===== verification/Client_System.thy ===== *)
theory Client_System
  imports Client_Settle
begin

text \<open>
  The client with all its threads. A state holds the client object, the deliveries that
  threads have taken out of the tables under the state lock and not yet made (the terminal
  \<open>_dispatch\<close> hands over, the failure terminals and probe wake-ups of \<open>_fail\<close>), the running
  \<open>submit\<close> calls, the handles returned and the requests whose send failed. A step is one lock
  region of one thread, so a run is an interleaving of any number of submitters, probes,
  cancellations, consumers, readers and closers, with any messages from the Worker and with
  connection failures at any point.
\<close>

datatype delivery =
    DeliverTerminal nat Terminal
  | DeliverFailure nat Status
  | WakeProbe nat

fun delivery_ref :: "delivery \<Rightarrow> nat list" where
  "delivery_ref (DeliverTerminal r t) = [r]"
| "delivery_ref (DeliverFailure r st) = [r]"
| "delivery_ref (WakeProbe q) = []"

fun perform :: "delivery \<Rightarrow> Client \<Rightarrow> Client" where
  "perform (DeliverTerminal r t) c = deliver_terminal t r c"
| "perform (DeliverFailure r st) c = fail_deliver st r c"
| "perform (WakeProbe q) c = queue_put q None c"

record submitter =
  su_request_id :: int
  su_state :: nat
  su_sent :: bool

record System =
  sy_client :: Client
  sy_deliveries :: "delivery list"
  sy_submitters :: "submitter list"
  sy_handles :: "nat list"
  sy_dropped :: "nat list"

definition fail_deliveries :: "Status \<Rightarrow> nat list \<Rightarrow> nat list \<Rightarrow> delivery list" where
  "fail_deliveries status requests probes =
     map (\<lambda>r. DeliverFailure r status) requests @ map WakeProbe probes"

definition sys_fail :: "Status \<Rightarrow> System \<Rightarrow> System" where
  "sys_fail status s =
     (case fail_locked status (sy_client s) of (requests, probes, c) \<Rightarrow>
        s\<lparr>sy_client := c, sy_deliveries := sy_deliveries s @ fail_deliveries status requests probes\<rparr>)"

definition rest_deliveries :: "dispatch_rest \<Rightarrow> delivery list" where
  "rest_deliveries rest =
     (case terminal_to_deliver rest of None \<Rightarrow> [] | Some (r, t) \<Rightarrow> [DeliverTerminal r t])"

text \<open>
  The steps. \<open>register\<close>, \<open>sent\<close>, \<open>drop\<close>, \<open>handle\<close>, \<open>refused\<close> and \<open>gave_up\<close> are the parts of
  \<open>submit\<close>; a caller uses an id only while no other call is submitting it. \<open>lost\<close> is the
  locked part of \<open>_fail\<close>, whoever calls it.
\<close>

inductive sys_step :: "System \<Rightarrow> System \<Rightarrow> bool" where
  register:
    "submit_register request (sy_client s) = (Inr (r, epoch), c) \<Longrightarrow>
     gr_request_id request \<notin> su_request_id ` set (sy_submitters s) \<Longrightarrow>
     sys_step s (s\<lparr>sy_client := c,
       sy_submitters := \<lparr>su_request_id = gr_request_id request, su_state = r, su_sent = False\<rparr> # sy_submitters s\<rparr>)"
| sent:
    "u \<in> set (sy_submitters s) \<Longrightarrow> \<not> su_sent u \<Longrightarrow>
     sys_step s (s\<lparr>sy_client := (sy_client s)\<lparr>cl_sent := cl_sent (sy_client s) @ [frame]\<rparr>,
       sy_submitters := u\<lparr>su_sent := True\<rparr> # remove1 u (sy_submitters s)\<rparr>)"
| drop:
    "u \<in> set (sy_submitters s) \<Longrightarrow> \<not> su_sent u \<Longrightarrow>
     sys_step s (s\<lparr>sy_client := (sy_client s)\<lparr>cl_requests :=
         AList.delete (su_request_id u) (cl_requests (sy_client s))\<rparr>,
       sy_submitters := remove1 u (sy_submitters s), sy_dropped := su_state u # sy_dropped s\<rparr>)"
| handle:
    "u \<in> set (sy_submitters s) \<Longrightarrow> su_sent u \<Longrightarrow>
     submit_poll x (su_request_id u) (su_state u) (sy_client s) = (SubmitHandle i r, c) \<Longrightarrow>
     sys_step s (s\<lparr>sy_client := c, sy_submitters := remove1 u (sy_submitters s), sy_handles := r # sy_handles s\<rparr>)"
| refused:
    "u \<in> set (sy_submitters s) \<Longrightarrow> su_sent u \<Longrightarrow>
     submit_poll False (su_request_id u) (su_state u) (sy_client s) = (SubmitRaise e, c) \<Longrightarrow>
     sys_step s (s\<lparr>sy_client := c, sy_submitters := remove1 u (sy_submitters s)\<rparr>)"
| gave_up:
    "u \<in> set (sy_submitters s) \<Longrightarrow> su_sent u \<Longrightarrow>
     submit_poll False (su_request_id u) (su_state u) (sy_client s) = (SubmitWait, c) \<Longrightarrow>
     sys_step s (sys_fail status (s\<lparr>sy_submitters := remove1 u (sy_submitters s)\<rparr>))"
| message:
    "dispatch_locked m (sy_client s) = (Inr rest, c) \<Longrightarrow>
     sys_step s (s\<lparr>sy_client := c, sy_deliveries := rest_deliveries rest @ sy_deliveries s\<rparr>)"
| lost: "sys_step s (sys_fail status s)"
| deliver:
    "d \<in> set (sy_deliveries s) \<Longrightarrow>
     sys_step s (s\<lparr>sy_client := perform d (sy_client s), sy_deliveries := remove1 d (sy_deliveries s)\<rparr>)"
| cancelled:
    "cancel_locked i (sy_client s) = (Inr dec, c) \<Longrightarrow> sys_step s (s\<lparr>sy_client := c\<rparr>)"
| probe:
    "health_register timeout (sy_client s) = (Inr p, c) \<Longrightarrow> sys_step s (s\<lparr>sy_client := c\<rparr>)"
| unprobe: "sys_step s (s\<lparr>sy_client := health_unregister p (sy_client s)\<rparr>)"
| consume:
    "r \<in> set (sy_handles s) \<Longrightarrow>
     sys_step s (s\<lparr>sy_client := upd_state r (upd_events (\<lambda>b. snd (eb_get x b))) (sy_client s)\<rparr>)"
| connected:
    "\<not> already_connected (sy_client s) \<Longrightarrow> hello_ok (cl_config (sy_client s)) h \<Longrightarrow>
     sys_step s (s\<lparr>sy_client := connected_client (cl_next_conn (sy_client s)) h (sy_client s)\<rparr>)"
| wrote: "sys_step s (s\<lparr>sy_client := (sy_client s)\<lparr>cl_sent := cl_sent (sy_client s) @ [frame]\<rparr>\<rparr>)"
| started: "sys_step s (s\<lparr>sy_client := (sy_client s)\<lparr>cl_live_readers := t # cl_live_readers (sy_client s)\<rparr>\<rparr>)"
| reader_ended: "sys_step s (s\<lparr>sy_client := reader_exit t (sy_client s)\<rparr>)"
| reaped: "sys_step s (s\<lparr>sy_client := fail_reap j t (sy_client s)\<rparr>)"

inductive sys_reachable :: "GenerationClientConfig \<Rightarrow> System \<Rightarrow> bool" for config where
  start:
    "GenerationClient_init config = Inr c \<Longrightarrow>
     sys_reachable config \<lparr>sy_client = c, sy_deliveries = [], sy_submitters = [], sy_handles = [], sy_dropped = []\<rparr>"
| step: "sys_reachable config s \<Longrightarrow> sys_step s s' \<Longrightarrow> sys_reachable config s'"

section \<open>The invariant\<close>

definition delivery_ok :: "Client \<Rightarrow> delivery \<Rightarrow> bool" where
  "delivery_ok c d \<longleftrightarrow>
     (case d of
        DeliverTerminal r t \<Rightarrow> r < length (cl_states c) \<and> rs_accepted (cl_states c ! r) \<and>
          eb_terminal (rs_events (cl_states c ! r)) = None
      | DeliverFailure r st \<Rightarrow> r < length (cl_states c) \<and> \<not> rs_terminal_received (cl_states c ! r) \<and>
          rs_failure (cl_states c ! r) \<noteq> None \<and> eb_terminal (rs_events (cl_states c ! r)) = None
      | WakeProbe q \<Rightarrow> q < length (cl_queues c))"

abbreviation delivery_refs :: "System \<Rightarrow> nat list" where
  "delivery_refs s \<equiv> concat (map delivery_ref (sy_deliveries s))"

abbreviation registered :: "System \<Rightarrow> nat set" where
  "registered s \<equiv> snd ` set (cl_requests (sy_client s))"

definition deliveries_ok :: "System \<Rightarrow> bool" where
  "deliveries_ok s \<longleftrightarrow>
     list_all (delivery_ok (sy_client s)) (sy_deliveries s) \<and> distinct (delivery_refs s) \<and>
     set (delivery_refs s) \<inter> registered s = {}"

definition answered :: "System \<Rightarrow> nat \<Rightarrow> bool" where
  "answered s r \<longleftrightarrow>
     r \<in> registered s \<or> r \<in> set (delivery_refs s) \<or> settled (cl_states (sy_client s) ! r) \<or> r \<in> set (sy_dropped s)"

definition submitters_ok :: "System \<Rightarrow> bool" where
  "submitters_ok s \<longleftrightarrow>
     distinct (map su_request_id (sy_submitters s)) \<and>
     distinct (map su_state (sy_submitters s) @ sy_handles s @ sy_dropped s) \<and>
     (\<forall>u \<in> set (sy_submitters s). su_state u < length (cl_states (sy_client s)) \<and>
        (\<forall>r. map_of (cl_requests (sy_client s)) (su_request_id u) = Some r \<longrightarrow> r = su_state u)) \<and>
     (\<forall>r \<in> set (sy_handles s). r < length (cl_states (sy_client s)) \<and> rs_accepted (cl_states (sy_client s) ! r)) \<and>
     (\<forall>r \<in> set (sy_dropped s). r < length (cl_states (sy_client s)))"

definition system_ok :: "System \<Rightarrow> bool" where
  "system_ok s \<longleftrightarrow>
     client_ok (sy_client s) \<and> deliveries_ok s \<and> submitters_ok s \<and>
     (\<forall>r < length (cl_states (sy_client s)). answered s r)"

section \<open>Steps that answer no request\<close>

text \<open>The client's tables and the answers of its requests are the same; a registered request
  may have become accepted.\<close>

definition same_progress :: "Client \<Rightarrow> Client \<Rightarrow> bool" where
  "same_progress c c' \<longleftrightarrow>
     cl_requests c' = cl_requests c \<and> length (cl_states c') = length (cl_states c) \<and>
     length (cl_queues c) \<le> length (cl_queues c') \<and>
     (\<forall>r < length (cl_states c).
        eb_terminal (rs_events (cl_states c' ! r)) = eb_terminal (rs_events (cl_states c ! r)) \<and>
        rs_terminal_received (cl_states c' ! r) = rs_terminal_received (cl_states c ! r) \<and>
        rs_failure (cl_states c' ! r) = rs_failure (cl_states c ! r) \<and>
        rs_rejected (cl_states c' ! r) = rs_rejected (cl_states c ! r) \<and>
        (rs_accepted (cl_states c' ! r) = rs_accepted (cl_states c ! r) \<or>
         r \<in> snd ` set (cl_requests c) \<and> rs_accepted (cl_states c' ! r)))"

lemma same_progress_refl [simp]: "same_progress c c"
  by (simp add: same_progress_def)

lemma same_progress_fields:
  "cl_requests c' = cl_requests c \<Longrightarrow> cl_states c' = cl_states c \<Longrightarrow>
     length (cl_queues c) \<le> length (cl_queues c') \<Longrightarrow> same_progress c c'"
  by (simp add: same_progress_def)

lemma same_progress_upd:
  assumes "let s = cl_states c ! r; s' = f s in
      eb_terminal (rs_events s') = eb_terminal (rs_events s) \<and>
      rs_terminal_received s' = rs_terminal_received s \<and> rs_failure s' = rs_failure s \<and>
      rs_rejected s' = rs_rejected s \<and>
      (rs_accepted s' = rs_accepted s \<or> r \<in> snd ` set (cl_requests c) \<and> rs_accepted s')"
  shows "same_progress c (upd_state r f c)"
  using assms by (simp add: same_progress_def Let_def nth_update_if)

lemma delivery_ok_ref:
  "delivery_ok c d \<Longrightarrow> r \<in> set (delivery_ref d) \<Longrightarrow>
     r < length (cl_states c) \<and> eb_terminal (rs_events (cl_states c ! r)) = None"
  by (cases d) (auto simp: delivery_ok_def)

lemma delivery_ok_same:
  assumes "delivery_ok c d" and "same_progress c c'"
    and "set (delivery_ref d) \<inter> snd ` set (cl_requests c) = {}"
  shows "delivery_ok c' d"
  using assms by (cases d) (auto simp: delivery_ok_def same_progress_def)

lemma system_ok_same:
  assumes "system_ok s" and "same_progress (sy_client s) c" and "client_ok c"
  shows "system_ok (s\<lparr>sy_client := c\<rparr>)"
proof -
  note sp = assms(2) [unfolded same_progress_def]
  have disj: "set (delivery_ref d) \<inter> registered s = {}" if "d \<in> set (sy_deliveries s)" for d
    using assms(1) that by (auto simp: system_ok_def deliveries_ok_def)
  have "delivery_ok c d" if "d \<in> set (sy_deliveries s)" for d
    using assms(1) that delivery_ok_same [OF _ assms(2) disj [OF that]]
    by (auto simp: system_ok_def deliveries_ok_def list_all_iff)
  then have 1: "deliveries_ok (s\<lparr>sy_client := c\<rparr>)"
    using assms(1) sp by (simp add: system_ok_def deliveries_ok_def list_all_iff)
  have 2: "submitters_ok (s\<lparr>sy_client := c\<rparr>)"
    using assms(1) sp by (auto simp: system_ok_def submitters_ok_def)
  have "answered (s\<lparr>sy_client := c\<rparr>) r" if "answered s r" "r < length (cl_states (sy_client s))" for r
    using that sp by (auto simp: answered_def settled_def)
  then have 3: "\<forall>r < length (cl_states c). answered (s\<lparr>sy_client := c\<rparr>) r"
    using assms(1) sp by (simp add: system_ok_def)
  from 1 2 3 assms(3) show ?thesis by (simp add: system_ok_def)
qed

lemma health_register_same:
  "health_register t c = (Inr p, c') \<Longrightarrow> same_progress c c'"
  by (auto simp: health_register_def Let_def split: if_splits sum.splits intro: same_progress_fields)

lemma cancel_locked_same:
  assumes "cancel_locked i c = (x, c')"
  shows "same_progress c c'"
  using cancel_locked_shape [of i c] assms by (auto intro!: same_progress_upd)

lemma queue_put_same: "same_progress c (queue_put q v c)"
  by (rule same_progress_fields) simp_all

section \<open>Submitting\<close>

lemma submitters_ok_remove:
  assumes "submitters_ok s" and "u \<in> set (sy_submitters s)"
  shows "submitters_ok (s\<lparr>sy_submitters := remove1 u (sy_submitters s)\<rparr>)"
    "su_state u \<notin> su_state ` set (remove1 u (sy_submitters s))"
proof -
  from split_list_first [OF assms(2)] obtain as bs where
    s: "sy_submitters s = as @ u # bs" "u \<notin> set as" by blast
  then have r: "remove1 u (sy_submitters s) = as @ bs" by (simp add: remove1_append)
  show "submitters_ok (s\<lparr>sy_submitters := remove1 u (sy_submitters s)\<rparr>)"
    using assms(1) unfolding r by (auto simp: submitters_ok_def s)
  show "su_state u \<notin> su_state ` set (remove1 u (sy_submitters s))"
    using assms(1) unfolding r by (auto simp: submitters_ok_def s)
qed

lemma answered_cong:
  "cl_requests (sy_client s') = cl_requests (sy_client s) \<Longrightarrow>
   cl_states (sy_client s') = cl_states (sy_client s) \<Longrightarrow> sy_deliveries s' = sy_deliveries s \<Longrightarrow>
   set (sy_dropped s) \<subseteq> set (sy_dropped s') \<Longrightarrow> answered s r \<Longrightarrow> answered s' r"
  by (auto simp: answered_def)

lemma system_ok_remove:
  assumes "system_ok s" and "u \<in> set (sy_submitters s)"
  shows "system_ok (s\<lparr>sy_submitters := remove1 u (sy_submitters s)\<rparr>)"
  using assms submitters_ok_remove(1) [OF _ assms(2)]
  by (auto simp: system_ok_def deliveries_ok_def answered_def)

lemma system_ok_register:
  assumes ok: "system_ok s" and reg: "submit_register request (sy_client s) = (Inr (r, epoch), c)"
    and fresh: "gr_request_id request \<notin> su_request_id ` set (sy_submitters s)"
  shows "system_ok (s\<lparr>sy_client := c,
       sy_submitters := \<lparr>su_request_id = gr_request_id request, su_state = r, su_sent = False\<rparr> # sy_submitters s\<rparr>)"
    (is "system_ok ?s")
proof -
  let ?c = "sy_client s" and ?rid = "gr_request_id request"
  have okc: "client_ok ?c" using ok by (simp add: system_ok_def)
  obtain ep where chk: "submit_check request ?c = Inr ep" and r: "r = length (cl_states ?c)"
    and c: "c = register_request ?rid ?c"
    using reg by (auto simp: submit_register_def split: sum.splits)
  have new: "map_of (cl_requests ?c) ?rid = None" by (rule submit_check_Inr [OF okc chk])
  have cr: "cl_requests c = cl_requests ?c @ [(?rid, r)]"
    and cs: "cl_states c = cl_states ?c @ [RequestState_init ?rid (gc_max_delta_events_per_request (cl_config ?c))]"
    and cq: "cl_queues c = cl_queues ?c"
    and cm: "map_of (cl_requests c) = (map_of (cl_requests ?c))(?rid \<mapsto> r)"
    using new by (simp_all add: c r register_request_def update_new_append map_of_append map_add_def fun_eq_iff
        split: option.split)
  have refs: "\<forall>k \<in> set (delivery_refs s). k < length (cl_states ?c)"
    using ok delivery_ok_ref by (fastforce simp: system_ok_def deliveries_ok_def list_all_iff)
  have "delivery_ok c d" if "delivery_ok ?c d" for d
    using that by (cases d) (auto simp: delivery_ok_def cs cq nth_append)
  then have 1: "deliveries_ok ?s"
    using ok refs by (auto simp: system_ok_def deliveries_ok_def list_all_iff cr r)
  have "\<forall>u \<in> set (sy_submitters s). su_request_id u \<noteq> ?rid" using fresh by (metis imageI)
  then have 2: "submitters_ok ?s"
    using ok fresh by (auto simp: system_ok_def submitters_ok_def cs cm r nth_append)
  have 3: "answered ?s k" if "k < length (cl_states c)" for k
    using ok that by (cases "k < length (cl_states ?c)") (auto simp: system_ok_def answered_def cs cr r nth_append)
  have "client_ok c" using client_ok_submit_register [OF okc, of request] reg by simp
  with 1 2 3 show ?thesis by (simp add: system_ok_def)
qed

lemma system_ok_drop:
  assumes ok: "system_ok s" and u: "u \<in> set (sy_submitters s)"
  shows "system_ok (s\<lparr>sy_client := (sy_client s)\<lparr>cl_requests :=
         AList.delete (su_request_id u) (cl_requests (sy_client s))\<rparr>,
       sy_submitters := remove1 u (sy_submitters s), sy_dropped := su_state u # sy_dropped s\<rparr>)"
    (is "system_ok ?s")
proof -
  let ?c = "sy_client s" and ?rid = "su_request_id u"
  have okc: "client_ok ?c" using ok by (simp add: system_ok_def)
  have d: "dict_ok (cl_requests ?c)" using okc by (simp add: client_ok_def table_ok_def)
  have sub: "set (AList.delete ?rid (cl_requests ?c)) \<subseteq> set (cl_requests ?c)"
    by (auto simp: AList.delete_eq)
  have own: "r = su_state u" if "(?rid, r) \<in> set (cl_requests ?c)" for r
    using ok u that d by (auto simp: system_ok_def submitters_ok_def in_dict_iff)
  have "delivery_ok (?c\<lparr>cl_requests := x\<rparr>) v = delivery_ok ?c v" for x v
    by (cases v) (simp_all add: delivery_ok_def)
  moreover have "set (delivery_refs s) \<inter> snd ` set (AList.delete ?rid (cl_requests ?c)) = {}"
    using ok image_mono [OF sub, of snd] by (auto simp: system_ok_def deliveries_ok_def)
  ultimately have 1: "deliveries_ok ?s"
    using ok by (simp add: system_ok_def deliveries_ok_def list_all_iff)
  have "submitters_ok (s\<lparr>sy_submitters := remove1 u (sy_submitters s)\<rparr>)"
    using ok u submitters_ok_remove(1) by (auto simp: system_ok_def)
  then have 2: "submitters_ok ?s"
    using ok u submitters_ok_remove(2) [OF _ u]
    by (auto simp: submitters_ok_def system_ok_def map_of_delete_dict dest: set_remove1_subset [THEN subsetD])
  have 3: "answered ?s r" if "r < length (cl_states ?c)" for r
  proof (cases "r = su_state u")
    case True
    then show ?thesis by (simp add: answered_def)
  next
    case False
    have "r \<in> snd ` set (AList.delete ?rid (cl_requests ?c))" if "r \<in> registered s"
      using that own False by (intro delete_keeps_value) auto
    then show ?thesis
      using ok that by (auto simp: system_ok_def answered_def)
  qed
  from 1 2 3 client_ok_delete [OF okc] show ?thesis by (simp add: system_ok_def)
qed

section \<open>Losing the connection\<close>

lemma fail_locked_states:
  assumes "distinct (map snd (cl_requests c))" and "fail_locked st c = (rs, ps, c')"
  shows "rs = map snd (cl_requests c)" "ps = map snd (cl_probes c)" "cl_requests c' = []"
    "cl_probes c' = []" "length (cl_states c') = length (cl_states c)" "cl_queues c' = cl_queues c"
    "cl_connected c' = False" "cl_socket c' = None" "cl_hello_ack c' = None"
    "cl_config c' = cl_config c" "cl_next_probe_id c' = cl_next_probe_id c"
    "\<And>i. i < length (cl_states c) \<Longrightarrow> cl_states c' ! i =
       (if i \<in> snd ` set (cl_requests c) then failed_state st (cl_states c ! i) else cl_states c ! i)"
proof -
  let ?c0 = "c\<lparr>cl_socket := None, cl_connected := False, cl_hello_ack := None, cl_requests := [], cl_probes := []\<rparr>"
  have c': "c' = fold (\<lambda>r. upd_state r (failed_state st)) (map snd (cl_requests c)) ?c0"
    using assms(2) by (auto simp: fail_locked_split)
  show "rs = map snd (cl_requests c)" "ps = map snd (cl_probes c)"
    using assms(2) by (auto simp: fail_locked_split)
  obtain ss where "c' = ?c0\<lparr>cl_states := ss\<rparr>" "length ss = length (cl_states c)"
    using fold_upd_state_only [of "failed_state st" "map snd (cl_requests c)" ?c0] c' by auto
  then show "cl_requests c' = []" "cl_probes c' = []" "length (cl_states c') = length (cl_states c)"
    "cl_queues c' = cl_queues c" "cl_connected c' = False" "cl_socket c' = None" "cl_hello_ack c' = None"
    "cl_config c' = cl_config c" "cl_next_probe_id c' = cl_next_probe_id c" by simp_all
  show "cl_states c' ! i =
       (if i \<in> snd ` set (cl_requests c) then failed_state st (cl_states c ! i) else cl_states c ! i)"
    if "i < length (cl_states c)" for i
    using fold_upd_state_nth [OF assms(1), of i ?c0 "failed_state st"] that c' by simp
qed

lemma client_ok_fail_locked:
  assumes "client_ok c" and "fail_locked st c = (rs, ps, c')"
  shows "client_ok c'"
proof (rule client_okI)
  note ok = client_okD [OF assms(1)]
  have d: "distinct (map snd (cl_requests c))" using ok(3) by (simp add: table_ok_def)
  note f = fail_locked_states [OF d assms(2)]
  show "list_all state_ok (cl_states c')"
    using ok(4) by (auto simp: list_all_length f intro: failed_state_ok)
  show "validate_config (cl_config c') = Inr ()" using ok(1) f by simp
  show "table_ok (cl_requests c') (cl_states c')" by (simp add: table_ok_def f)
  show "link_ok c'" by (simp add: link_ok_def f)
  show "probes_ok c'" using ok(5) by (simp add: probes_ok_def f)
qed

lemma concat_delivery_fail:
  "concat (map delivery_ref (fail_deliveries st rs ps)) = rs"
proof -
  have "concat (map delivery_ref (map WakeProbe ps)) = []" by (induction ps) auto
  moreover have "concat (map delivery_ref (map (\<lambda>r. DeliverFailure r st) rs)) = rs" by (induction rs) auto
  ultimately show ?thesis by (simp add: fail_deliveries_def)
qed

lemma system_ok_fail:
  assumes ok: "system_ok s"
  shows "system_ok (sys_fail st s)"
proof -
  let ?c = "sy_client s"
  obtain rs ps c where fl: "fail_locked st ?c = (rs, ps, c)" by (metis prod_cases3)
  have okc: "client_ok ?c" using ok by (simp add: system_ok_def)
  have d: "distinct (map snd (cl_requests ?c))" using okc by (simp add: client_ok_def table_ok_def)
  note f = fail_locked_states [OF d fl]
  let ?s = "s\<lparr>sy_client := c, sy_deliveries := sy_deliveries s @ fail_deliveries st rs ps\<rparr>"
  have disj: "set (delivery_refs s) \<inter> set rs = {}" using ok by (simp add: system_ok_def deliveries_ok_def f)
  have old: "delivery_ok c v" if v: "v \<in> set (sy_deliveries s)" for v
  proof -
    have "delivery_ok ?c v" using ok v by (simp add: system_ok_def deliveries_ok_def list_all_iff)
    then show ?thesis
      by (cases v) (auto simp: delivery_ok_def f failed_state_def)
  qed
  have live: "\<forall>(i, k) \<in> set (cl_requests ?c). k < length (cl_states ?c) \<and> live_state (cl_states ?c ! k)"
    using registered_live [OF okc] by force
  have new: "delivery_ok c v" if v: "v \<in> set (fail_deliveries st rs ps)" for v
  proof -
    from v consider i k where "v = DeliverFailure k st" "(i, k) \<in> set (cl_requests ?c)"
      | p q where "v = WakeProbe q" "(p, q) \<in> set (cl_probes ?c)"
      by (auto simp: fail_deliveries_def f)
    then show ?thesis
    proof cases
      case 1
      moreover from 1 have "k < length (cl_states ?c)" "live_state (cl_states ?c ! k)" "k \<in> registered s"
        using live by force+
      ultimately show ?thesis by (simp add: delivery_ok_def f failed_state_def live_state_def)
    next
      case 2
      then show ?thesis using client_okD(5) [OF okc] by (auto simp: delivery_ok_def f probes_ok_def list_all_iff)
    qed
  qed
  have 1: "deliveries_ok ?s"
    using ok old new disj d f(1,3) concat_delivery_fail [of st rs ps]
    by (auto simp: system_ok_def deliveries_ok_def list_all_iff)
  have 2: "submitters_ok ?s"
    using ok by (auto simp: system_ok_def submitters_ok_def f failed_state_def)
  have 3: "answered ?s r" if "r < length (cl_states c)" for r
    using ok that concat_delivery_fail [of st rs ps]
    by (auto simp: system_ok_def answered_def f settled_def failed_state_def)
  from 1 2 3 client_ok_fail_locked [OF okc fl] have "system_ok ?s" by (simp add: system_ok_def)
  then show ?thesis by (simp add: sys_fail_def fl)
qed

section \<open>Messages and deliveries\<close>

lemma delivery_ok_other:
  assumes "delivery_ok c d" and "r \<notin> set (delivery_ref d)" and "cl_queues c' = cl_queues c"
    and "cl_states c' = (cl_states c)[r := x]"
  shows "delivery_ok c' d"
  using assms by (cases d) (auto simp: delivery_ok_def)

lemma system_ok_remove_entry:
  assumes ok: "system_ok s" and look: "map_of (cl_requests (sy_client s)) i = Some r"
    and c: "c = (upd_state r f (sy_client s))\<lparr>cl_requests := AList.delete i (cl_requests (sy_client s))\<rparr>"
    and okc': "client_ok c" and acc: "rs_accepted (f (cl_states (sy_client s) ! r)) = rs_accepted (cl_states (sy_client s) ! r)"
    and ds: "(ds = [] \<and> settled (f (cl_states (sy_client s) ! r))) \<or> (\<exists>d. ds = [d] \<and> delivery_ref d = [r] \<and> delivery_ok c d)"
  shows "system_ok (s\<lparr>sy_client := c, sy_deliveries := ds @ sy_deliveries s\<rparr>)" (is "system_ok ?s")
proof -
  let ?c = "sy_client s"
  have okc: "client_ok ?c" using ok by (simp add: system_ok_def)
  note t = client_okD(3) [OF okc]
  have d: "dict_ok (cl_requests ?c)" "distinct (map snd (cl_requests ?c))" using t by (simp_all add: table_ok_def)
  have r: "r < length (cl_states ?c)" using table_ok_lookup [OF t look] by simp
  have reg: "r \<in> registered s" using map_of_SomeD [OF look] by force
  have out: "r \<notin> snd ` set (AList.delete i (cl_requests ?c))" by (rule delete_unregisters [OF d look])
  have sub: "snd ` set (AList.delete i (cl_requests ?c)) \<subseteq> registered s" by (auto simp: AList.delete_eq)
  have keep: "k \<in> snd ` set (AList.delete i (cl_requests ?c))" if "k \<in> registered s" "k \<noteq> r" for k
    using that look d(1) by (intro delete_keeps_value) (auto simp: in_dict_iff)
  have cs: "cl_states c = (cl_states ?c)[r := f (cl_states ?c ! r)]" "cl_queues c = cl_queues ?c"
    "cl_requests c = AList.delete i (cl_requests ?c)"
    by (simp_all add: c)
  have free: "r \<notin> set (delivery_ref v)" if "v \<in> set (sy_deliveries s)" for v
    using ok that reg by (auto simp: system_ok_def deliveries_ok_def)
  have old: "delivery_ok c v" if "v \<in> set (sy_deliveries s)" for v
    using ok that delivery_ok_other [OF _ free [OF that] cs(2,1)]
    by (auto simp: system_ok_def deliveries_ok_def list_all_iff)
  have refs: "set (delivery_refs s) \<inter> snd ` set (AList.delete i (cl_requests ?c)) = {}"
    "r \<notin> set (delivery_refs s)" "distinct (delivery_refs s)"
    using ok sub free by (auto simp: system_ok_def deliveries_ok_def)
  have 1: "deliveries_ok ?s"
    using ds old refs out by (elim disjE exE) (simp_all add: deliveries_ok_def list_all_iff cs(3) disjoint_iff)
  have 2: "submitters_ok ?s"
    using ok acc by (auto simp: system_ok_def submitters_ok_def cs map_of_delete_dict nth_update_if)
  have 3: "answered ?s k" if "k < length (cl_states c)" for k
    using ok that ds keep [of k] r
    by (cases "k = r") (auto simp: system_ok_def answered_def cs)
  from 1 2 3 okc' show ?thesis by (simp add: system_ok_def)
qed

lemma system_ok_message:
  assumes ok: "system_ok s" and dis: "dispatch_locked m (sy_client s) = (Inr rest, c)"
  shows "system_ok (s\<lparr>sy_client := c, sy_deliveries := rest_deliveries rest @ sy_deliveries s\<rparr>)"
proof -
  let ?c = "sy_client s"
  have okc: "client_ok ?c" using ok by (simp add: system_ok_def)
  note okc' = client_ok_dispatch_locked [OF okc dis]
  have none: ?thesis if "rest_deliveries rest = []" "same_progress ?c c"
    using system_ok_same [OF ok that(2) okc'] that(1) by simp
  have reg: "r \<in> registered s" if "map_of (cl_requests ?c) i = Some r" for i r
    using map_of_SomeD [OF that] by force
  from okc dis show ?thesis
  proof (cases rule: dispatch_locked_cases)
    case (stats st)
    then show ?thesis
      by (intro none) (auto simp: rest_deliveries_def nothing_left_def dispatch_stats_def queue_put_same split: option.split)
  next
    case (accepted i r)
    then show ?thesis
      using reg by (intro none) (auto simp: rest_deliveries_def nothing_left_def intro!: same_progress_upd)
  next
    case (delta d r x k)
    then show ?thesis
      by (intro none) (auto simp: rest_deliveries_def nothing_left_def intro!: same_progress_upd)
  next
    case (rejected i st r)
    then have "rest_deliveries rest = []" by (simp add: rest_deliveries_def nothing_left_def)
    with system_ok_remove_entry [OF ok rejected(2,5) okc', of "[]"] rejected(3)
    show ?thesis by (simp add: settled_def)
  next
    case (terminal t r)
    then have ds: "rest_deliveries rest = [DeliverTerminal r t]" "terminal_to_deliver rest = Some (r, t)"
      by (simp_all add: rest_deliveries_def nothing_left_def)
    have "delivery_ok c (DeliverTerminal r t)"
      using dispatch_locked_terminal [OF okc dis ds(2)] by (simp add: delivery_ok_def)
    then show ?thesis
      unfolding ds(1) by (intro system_ok_remove_entry [OF ok terminal(2,5) okc']) simp_all
  qed simp
qed

lemma terminated_state_fields [simp]:
  "rs_accepted (terminated_state st s) = rs_accepted s" "rs_rejected (terminated_state st s) = rs_rejected s"
  "rs_failure (terminated_state st s) = rs_failure s" "rs_request_id (terminated_state st s) = rs_request_id s"
  "rs_terminal_received (terminated_state st s) = rs_terminal_received s"
  by (simp_all add: terminated_state_def upd_events_def)

lemma perform_upd:
  assumes "delivery_ref d = [r]"
  shows "\<exists>f. perform d c = upd_state r f c \<and>
    (\<forall>s. rs_accepted (f s) = rs_accepted s \<and> rs_rejected (f s) = rs_rejected s \<and> rs_failure (f s) = rs_failure s \<and>
         rs_request_id (f s) = rs_request_id s \<and> rs_terminal_received (f s) = rs_terminal_received s \<and>
         (state_ok s \<longrightarrow> state_ok (f s)))"
proof (cases d)
  case (DeliverTerminal k t)
  with assms show ?thesis
    by (intro exI [of _ "upd_events (\<lambda>b. snd (eb_put_terminal t b))"])
      (simp add: deliver_terminal_def upd_events_def state_ok_def put_terminal_sound)
next
  case (DeliverFailure k st)
  with assms show ?thesis
    by (intro exI [of _ "terminated_state st"]) (simp add: fail_deliver_upd terminated_state_ok)
qed (use assms in simp)

lemma perform_settles:
  "delivery_ok c d \<Longrightarrow> delivery_ref d = [r] \<Longrightarrow> settled (cl_states (perform d c) ! r)"
  by (cases d) (auto simp: delivery_ok_def deliver_terminal_def fail_deliver_upd terminated_state_def
      settled_def upd_events_def eb_put_terminal_def needs_terminal_def)

lemma system_ok_deliver:
  assumes ok: "system_ok s" and d: "d \<in> set (sy_deliveries s)"
  shows "system_ok (s\<lparr>sy_client := perform d (sy_client s), sy_deliveries := remove1 d (sy_deliveries s)\<rparr>)"
    (is "system_ok ?s")
proof -
  let ?c = "sy_client s"
  have okc: "client_ok ?c" using ok by (simp add: system_ok_def)
  have dok: "delivery_ok ?c d" using ok d by (simp add: system_ok_def deliveries_ok_def list_all_iff)
  from split_list_first [OF d] obtain as bs where s: "sy_deliveries s = as @ d # bs" "d \<notin> set as" by blast
  then have rm: "remove1 d (sy_deliveries s) = as @ bs" by (simp add: remove1_append)
  show ?thesis
  proof (cases "delivery_ref d")
    case Nil
    then obtain q where q: "d = WakeProbe q" by (cases d) auto
    have "system_ok (s\<lparr>sy_client := perform d ?c\<rparr>)"
      using system_ok_same [OF ok queue_put_same client_ok_queue_put [OF okc]] q by simp
    then show ?thesis using Nil s rm by (simp add: system_ok_def deliveries_ok_def submitters_ok_def answered_def)
  next
    case (Cons r rs)
    then have ref: "delivery_ref d = [r]" by (cases d) auto
    obtain f where f: "perform d ?c = upd_state r f ?c"
      "\<And>s. rs_accepted (f s) = rs_accepted s" "\<And>s. state_ok s \<Longrightarrow> state_ok (f s)"
      using perform_upd [OF ref, of ?c] by blast
    have free: "r \<notin> registered s" "\<And>v. v \<in> set (as @ bs) \<Longrightarrow> r \<notin> set (delivery_ref v)"
      using ok ref by (auto simp: system_ok_def deliveries_ok_def s)
    have okc': "client_ok (perform d ?c)"
      unfolding f(1) using free(1) by (intro client_ok_upd [OF okc]) (simp_all add: f(3))
    have cs: "cl_queues (perform d ?c) = cl_queues ?c" "cl_requests (perform d ?c) = cl_requests ?c"
      "cl_states (perform d ?c) = (cl_states ?c)[r := f (cl_states ?c ! r)]" by (simp_all add: f(1))
    have others: "delivery_ok (perform d ?c) v" if "v \<in> set (as @ bs)" for v
    proof (rule delivery_ok_other [OF _ free(2) [OF that] cs(1,3)])
      show "delivery_ok ?c v" using ok that s by (auto simp: system_ok_def deliveries_ok_def list_all_iff)
    qed
    have "distinct (concat (map delivery_ref (as @ bs)))"
      "set (concat (map delivery_ref (as @ bs))) \<inter> registered s = {}"
      using ok by (auto simp: system_ok_def deliveries_ok_def s(1))
    with others have 1: "deliveries_ok ?s"
      by (simp add: deliveries_ok_def list_all_iff rm cs(2))
    have 2: "submitters_ok ?s"
      using ok by (auto simp: system_ok_def submitters_ok_def cs nth_update_if f(2))
    have 3: "answered ?s k" if "k < length (cl_states ?c)" for k
    proof (cases "k = r")
      case True
      with perform_settles [OF dok ref] show ?thesis by (simp add: answered_def)
    next
      case False
      have "set (delivery_refs s) = insert r (set (concat (map delivery_ref (as @ bs))))"
        using ref by (simp add: s(1))
      moreover have "answered s k" using ok that by (simp add: system_ok_def)
      ultimately show ?thesis using False by (simp add: answered_def cs rm)
    qed
    from 1 2 3 okc' show ?thesis by (simp add: system_ok_def cs)
  qed
qed

section \<open>Every reachable state is well formed\<close>

lemma submit_poll_handle:
  "submit_poll x i r c = (SubmitHandle j k, c') \<Longrightarrow> c' = c \<and> k = r \<and> j = i \<and> rs_accepted (cl_states c ! r)"
  by (auto simp: submit_poll_def Let_def split: if_splits option.splits)

lemma submit_poll_False: "submit_poll False i r c = (res, c') \<Longrightarrow> c' = c"
  by (auto simp: submit_poll_def Let_def split: if_splits option.splits)

lemma system_ok_handle:
  assumes ok: "system_ok s" and u: "u \<in> set (sy_submitters s)"
    and acc: "rs_accepted (cl_states (sy_client s) ! su_state u)"
  shows "system_ok (s\<lparr>sy_submitters := remove1 u (sy_submitters s), sy_handles := su_state u # sy_handles s\<rparr>)"
proof -
  from split_list_first [OF u] obtain as bs where s: "sy_submitters s = as @ u # bs" "u \<notin> set as" by blast
  then have rm: "remove1 u (sy_submitters s) = as @ bs" by (simp add: remove1_append)
  have "submitters_ok (s\<lparr>sy_submitters := as @ bs, sy_handles := su_state u # sy_handles s\<rparr>)"
    using ok s(1) acc by (auto simp: system_ok_def submitters_ok_def)
  with ok show ?thesis unfolding rm by (auto simp: system_ok_def deliveries_ok_def answered_def)
qed

lemma system_ok_sent:
  assumes ok: "system_ok s" and u: "u \<in> set (sy_submitters s)"
  shows "system_ok (s\<lparr>sy_submitters := u\<lparr>su_sent := True\<rparr> # remove1 u (sy_submitters s)\<rparr>)"
proof -
  from split_list_first [OF u] obtain as bs where s: "sy_submitters s = as @ u # bs" "u \<notin> set as" by blast
  then have "remove1 u (sy_submitters s) = as @ bs" by (simp add: remove1_append)
  then have "submitters_ok (s\<lparr>sy_submitters := u\<lparr>su_sent := True\<rparr> # remove1 u (sy_submitters s)\<rparr>)"
    using ok s(1) by (auto simp: system_ok_def submitters_ok_def)
  with ok show ?thesis by (auto simp: system_ok_def deliveries_ok_def answered_def)
qed

lemma get_terminal [simp]: "eb_terminal (snd (eb_get x b)) = eb_terminal b"
  by (auto simp: eb_get_def split: list.split option.split)

lemma client_ok_reader_exit: "client_ok c \<Longrightarrow> client_ok (reader_exit t c)"
  by (erule client_ok_cong) (simp_all add: reader_exit_def)

lemma client_ok_reap: "client_ok c \<Longrightarrow> client_ok (fail_reap j t c)"
  by (erule client_ok_cong) simp_all

lemma client_ok_consume: "client_ok c \<Longrightarrow> client_ok (upd_state r (upd_events (\<lambda>b. snd (eb_get x b))) c)"
  by (rule client_ok_upd) (simp_all add: state_ok_def live_state_def upd_events_def get_sound get_sequence)

lemma system_step_ok:
  assumes "sys_step s s'" and ok: "system_ok s"
  shows "system_ok s'"
proof -
  have okc: "client_ok (sy_client s)" using ok by (simp add: system_ok_def)
  note same = system_ok_same [OF ok]
  from assms(1) show ?thesis
  proof cases
    case (sent u frame)
    from system_ok_same [OF system_ok_sent [OF ok sent(2)], of "(sy_client s)\<lparr>cl_sent := cl_sent (sy_client s) @ [frame]\<rparr>"]
    have "system_ok (s\<lparr>sy_submitters := u\<lparr>su_sent := True\<rparr> # remove1 u (sy_submitters s),
        sy_client := (sy_client s)\<lparr>cl_sent := cl_sent (sy_client s) @ [frame]\<rparr>\<rparr>)"
      using okc by (simp add: same_progress_fields client_ok_sent)
    moreover have "s' = s\<lparr>sy_submitters := u\<lparr>su_sent := True\<rparr> # remove1 u (sy_submitters s),
        sy_client := (sy_client s)\<lparr>cl_sent := cl_sent (sy_client s) @ [frame]\<rparr>\<rparr>"
      using sent(1) by simp
    ultimately show ?thesis by simp
  next
    case (handle u x i r c)
    with submit_poll_handle [OF handle(4)] system_ok_handle [OF ok handle(2)] show ?thesis by simp
  next
    case (refused u e c)
    with submit_poll_False [OF refused(4)] system_ok_remove [OF ok refused(2)] show ?thesis by simp
  next
    case (cancelled i dec c)
    with same [OF cancel_locked_same] client_ok_cancel_locked [OF okc, of i] show ?thesis by simp
  next
    case (probe t p c)
    with same [OF health_register_same] client_ok_health_register [OF okc, of t] show ?thesis by simp
  next
    case (consume r x)
    with same [OF same_progress_upd client_ok_consume [OF okc]] show ?thesis by (simp add: upd_events_def)
  next
    case (unprobe p)
    with same [OF same_progress_fields client_ok_health_unregister [OF okc]] show ?thesis
      by (simp add: health_unregister_def)
  next
    case (reader_ended t)
    with same [OF same_progress_fields client_ok_reader_exit [OF okc]] show ?thesis
      by (simp add: reader_exit_def)
  next
    case (connected h)
    then have "\<not> cl_connected (sy_client s)" by (simp add: already_connected_def)
    with client_ok_connected [OF okc _ connected(3)] connected(1) show ?thesis
      by (auto intro!: same same_progress_fields simp: connected_client_def)
  qed (auto intro!: same same_progress_fields client_ok_sent client_ok_health_unregister client_ok_reader_exit
      client_ok_reap system_ok_register system_ok_drop system_ok_message system_ok_fail system_ok_deliver
      system_ok_remove ok okc client_ok_cong [OF okc])
qed

lemma reachable_ok: "sys_reachable config s \<Longrightarrow> system_ok s"
proof (induction rule: sys_reachable.induct)
  case (start c)
  then have "cl_states c = []" "cl_requests c = []"
    by (auto simp: GenerationClient_init_def result_simps)
  with client_ok_init [OF start] show ?case
    by (simp add: system_ok_def deliveries_ok_def submitters_ok_def)
next
  case (step s s')
  show ?case by (rule system_step_ok [OF step.hyps(2) step.IH])
qed

lemma reachable_client_ok: "sys_reachable config s \<Longrightarrow> client_ok (sy_client s)"
  using reachable_ok by (simp add: system_ok_def)

section \<open>A stored terminal is final\<close>

lemma dispatch_locked_keeps:
  assumes "client_ok c" and "dispatch_locked m c = (res, c')" and "r < length (cl_states c)"
    and "eb_terminal (rs_events (cl_states c ! r)) = Some t"
  shows "eb_terminal (rs_events (cl_states c' ! r)) = Some t"
  using assms(1,2)
proof (cases rule: dispatch_locked_cases)
  case (stats st)
  then show ?thesis using assms(4) by (simp add: dispatch_stats_def split: option.split)
qed (use assms(3,4) in \<open>auto simp: nth_update_if\<close>)

lemma perform_keeps:
  assumes "r < length (cl_states c)" and "eb_terminal (rs_events (cl_states c ! r)) = Some t"
  shows "eb_terminal (rs_events (cl_states (perform d c) ! r)) = Some t"
  using assms
  by (cases d) (auto simp: deliver_terminal_def fail_deliver_upd terminated_state_def upd_events_def
      eb_put_terminal_def nth_update_if)

lemma sys_fail_keeps:
  assumes "client_ok (sy_client s)" and "r < length (cl_states (sy_client s))"
  shows "rs_events (cl_states (sy_client (sys_fail st s)) ! r) = rs_events (cl_states (sy_client s) ! r)"
proof -
  obtain rs ps c where fl: "fail_locked st (sy_client s) = (rs, ps, c)" by (metis prod_cases3)
  have d: "distinct (map snd (cl_requests (sy_client s)))"
    using assms(1) by (simp add: client_ok_def table_ok_def)
  from fail_locked_states(12) [OF d fl assms(2)] show ?thesis
    by (simp add: sys_fail_def fl failed_state_def)
qed

lemma step_keeps_terminal:
  assumes "sys_step s s'" and "system_ok s" and r: "r < length (cl_states (sy_client s))"
    and t: "eb_terminal (rs_events (cl_states (sy_client s) ! r)) = Some t"
  shows "eb_terminal (rs_events (cl_states (sy_client s') ! r)) = Some t"
proof -
  let ?c = "sy_client s"
  have okc: "client_ok ?c" using assms(2) by (simp add: system_ok_def)
  have same: "eb_terminal (rs_events (cl_states c ! r)) = Some t" if "same_progress ?c c" for c
    using that r t by (simp add: same_progress_def)
  from assms(1) show ?thesis
  proof cases
    case (register request k epoch c)
    then have "cl_states c = cl_states ?c @ [RequestState_init (gr_request_id request)
        (gc_max_delta_events_per_request (cl_config ?c))]"
      by (auto simp: submit_register_def register_request_def split: sum.splits)
    with r t register show ?thesis by (simp add: nth_append)
  next
    case (gave_up u c st)
    with sys_fail_keeps [of "s\<lparr>sy_submitters := remove1 u (sy_submitters s)\<rparr>" r st] okc r t show ?thesis by simp
  next
    case (lost st)
    with sys_fail_keeps [OF okc r, of st] t show ?thesis by simp
  next
    case (message m rest c)
    with dispatch_locked_keeps [OF okc message(2) r t] show ?thesis by simp
  next
    case (deliver d)
    with perform_keeps [OF r t, of d] show ?thesis by simp
  next
    case (handle u x i k c)
    with submit_poll_handle [OF handle(4)] t show ?thesis by simp
  next
    case (refused u e c)
    with submit_poll_False [OF refused(4)] t show ?thesis by simp
  next
    case (cancelled i dec c)
    with same [OF cancel_locked_same] show ?thesis by simp
  next
    case (probe tm p c)
    with same [OF health_register_same] show ?thesis by simp
  next
    case (consume k x)
    with same [OF same_progress_upd] show ?thesis by (simp add: upd_events_def)
  qed (use t in \<open>simp_all add: health_unregister_def reader_exit_def connected_client_def\<close>)
qed

section \<open>A sample run\<close>

definition sample_accepted :: Client where
  "sample_accepted = sample_connected\<lparr>cl_requests := [(5, 0)],
     cl_states := [(RequestState_init 5 2)\<lparr>rs_accepted := True\<rparr>], cl_sent := [(0, [])]\<rparr>"

definition sample_system :: System where
  "sample_system =
     \<lparr>sy_client = sample_accepted, sy_deliveries = [], sy_submitters = [], sy_handles = [0], sy_dropped = []\<rparr>"

definition sample_lost :: System where
  "sample_lost = sys_fail (unavailable ''x'') sample_system"

definition sample_done :: System where
  "sample_done = sample_lost\<lparr>sy_client := perform (DeliverFailure 0 (unavailable ''x'')) (sy_client sample_lost),
     sy_deliveries := []\<rparr>"

lemma sample_system_reachable: "sys_reachable sample_config sample_system"
proof -
  let ?s0 = "\<lparr>sy_client = sample_start, sy_deliveries = [], sy_submitters = [], sy_handles = [], sy_dropped = []\<rparr>"
  let ?u = "\<lambda>b. \<lparr>su_request_id = 5, su_state = 0, su_sent = b\<rparr>"
  let ?c2 = "sample_connected\<lparr>cl_requests := [(5, 0)], cl_states := [RequestState_init 5 2]\<rparr>"
  let ?c3 = "?c2\<lparr>cl_sent := [(0, [])]\<rparr>"
  let ?s3 = "?s0\<lparr>sy_client := ?c3, sy_submitters := [?u True]\<rparr>"
  have rid: "gr_request_id (sample_request 5) = 5" by (simp add: sample_request_def)
  have r0: "sys_reachable sample_config ?s0" by (rule sys_reachable.start [OF sample_init])
  have "sys_step ?s0 (?s0\<lparr>sy_client := sample_connected\<rparr>)"
    using sys_step.connected [of ?s0 sample_hello] sample_hello_ok
    by (simp add: already_connected_def sample_start_def sample_connected_def)
  note r1 = sys_reachable.step [OF r0 this]
  have "submit_register (sample_request 5) sample_connected = (Inr (0, 7), ?c2)"
    by (simp add: submit_register_def sample_submit_check register_request_def rid)
      (simp add: sample_connected_eq sample_start_def sample_config_def)
  then have "sys_step (?s0\<lparr>sy_client := sample_connected\<rparr>) (?s0\<lparr>sy_client := ?c2, sy_submitters := [?u False]\<rparr>)"
    using sys_step.register [of "sample_request 5" "?s0\<lparr>sy_client := sample_connected\<rparr>" 0 7 ?c2] by (simp add: rid)
  note r2 = sys_reachable.step [OF r1 this]
  have "sys_step (?s0\<lparr>sy_client := ?c2, sy_submitters := [?u False]\<rparr>) ?s3"
    using sys_step.sent [of "?u False" "?s0\<lparr>sy_client := ?c2, sy_submitters := [?u False]\<rparr>" "(0, [])"]
    by (simp add: sample_connected_eq sample_start_def)
  note r3 = sys_reachable.step [OF r2 this]
  have "dispatch_locked (MAccepted 5) ?c3 = (Inr nothing_left, sample_accepted)"
    by (simp add: dispatch_locked_def require_connected_locked_def with_request_def dispatch_accepted_def
        upd_state_def RequestState_init_def sample_connected_eq sample_accepted_def)
  then have "sys_step ?s3 (?s3\<lparr>sy_client := sample_accepted\<rparr>)"
    using sys_step.message [of "MAccepted 5" ?s3] by (simp add: rest_deliveries_def nothing_left_def)
  note r4 = sys_reachable.step [OF r3 this]
  have "submit_poll False 5 0 sample_accepted = (SubmitHandle 5 0, sample_accepted)"
    by (simp add: submit_poll_def sample_accepted_def)
  then have "sys_step (?s3\<lparr>sy_client := sample_accepted\<rparr>) sample_system"
    using sys_step.handle [of "?u True" "?s3\<lparr>sy_client := sample_accepted\<rparr>"] by (simp add: sample_system_def)
  from sys_reachable.step [OF r4 this] show ?thesis .
qed

lemma sample_lost_reachable: "sys_reachable sample_config sample_lost"
  unfolding sample_lost_def by (rule sys_reachable.step [OF sample_system_reachable sys_step.lost])

lemma sample_lost_fields:
  "sy_deliveries sample_lost = [DeliverFailure 0 (unavailable ''x'')]" "sy_handles sample_lost = [0]"
  "cl_connected (sy_client sample_lost) = False"
  by (simp_all add: sample_lost_def sys_fail_def fail_locked_def sample_system_def sample_accepted_def
      sample_connected_eq sample_start_def fail_deliveries_def)

lemma sample_done_reachable: "sys_reachable sample_config sample_done"
  using sys_reachable.step [OF sample_lost_reachable sys_step.deliver [of "DeliverFailure 0 (unavailable ''x'')"]]
  by (simp add: sample_lost_fields sample_done_def)

lemma sample_done_fields:
  "sy_deliveries sample_done = []" "sy_handles sample_done = [0]" "cl_connected (sy_client sample_done) = False"
  by (simp_all add: sample_done_def sample_lost_fields fail_deliver_upd)

section \<open>Properties\<close>





text \<open>
  C26. The check for a second terminal never fires: whenever a thread is about to store a
  terminal it took out of the table, the buffer accepts it, so \<open>_dispatch\<close> never raises
  "request received duplicate Terminal" and no failure terminal is lost.
\<close>

theorem delivery_never_duplicate:
  assumes "sys_reachable config s" and "d \<in> set (sy_deliveries s)"
  shows "case d of
      DeliverTerminal r t \<Rightarrow> fst (eb_put_terminal t (rs_events (cl_states (sy_client s) ! r)))
    | DeliverFailure r st \<Rightarrow> fst (eb_put_terminal (failure_terminal st (cl_states (sy_client s) ! r))
        (rs_events (cl_states (sy_client s) ! r)))
    | WakeProbe q \<Rightarrow> q < length (cl_queues (sy_client s))"
  using reachable_ok [OF assms(1)] assms(2)
  by (auto simp: system_ok_def deliveries_ok_def list_all_iff delivery_ok_def eb_put_terminal_def
      split: delivery.splits)

theorem delivery_never_duplicate_witness:
  "fst (eb_put_terminal (failure_terminal (unavailable ''x'') (cl_states (sy_client sample_lost) ! 0))
     (rs_events (cl_states (sy_client sample_lost) ! 0)))"
  using delivery_never_duplicate [OF sample_lost_reachable, of "DeliverFailure 0 (unavailable ''x'')"]
  by (simp add: sample_lost_fields)

text \<open>
  C27. Bounded memory and ordered streams: in every reachable state the request table stays
  within the smaller of the configured and the negotiated limit, no buffer holds more deltas
  than its capacity, and the queued deltas of a request have increasing sequence numbers,
  contiguous up to the next expected one unless the buffer has overflowed.
\<close>

theorem reachable_bounds:
  assumes "sys_reachable config s"
  shows "(\<forall>h. cl_hello_ack (sy_client s) = Some h \<longrightarrow>
      int (length (cl_requests (sy_client s))) \<le>
        min (gc_max_pending_requests (cl_config (sy_client s))) (wl_max_active_requests (ha_limits h))) \<and>
    (\<forall>st \<in> set (cl_states (sy_client s)).
      int (length (eb_deltas (rs_events st))) \<le> eb_max_delta_events (rs_events st) \<and>
      sorted_wrt (<) (map td_sequence_no (eb_deltas (rs_events st))) \<and>
      (\<not> eb_overflowed (rs_events st) \<longrightarrow>
        map td_sequence_no (eb_deltas (rs_events st)) =
          [rs_next_sequence_no st - int (length (eb_deltas (rs_events st)))..rs_next_sequence_no st - 1]))"
proof -
  note ok = client_okD [OF reachable_client_ok [OF assms]]
  have "link_ok (sy_client s)" by (rule ok(2))
  then have "\<forall>h. cl_hello_ack (sy_client s) = Some h \<longrightarrow>
      int (length (cl_requests (sy_client s))) \<le> request_limit (sy_client s) h"
    by (auto simp: link_ok_def split: if_splits)
  moreover have "state_ok st" if "st \<in> set (cl_states (sy_client s))" for st
    using ok(4) that by (simp add: list_all_iff)
  ultimately show ?thesis
    by (auto simp: request_limit_def state_ok_def sequence_ok_def buffer_sound_def fields_sound_def Let_def)
qed

theorem reachable_bounds_witness:
  "int (length (cl_requests (sy_client sample_system))) \<le> 4"
  using reachable_bounds [OF sample_system_reachable]
  by (simp add: sample_system_def sample_accepted_def sample_connected_eq sample_hello_def sample_limits_def)

end
