(* ===== verification/Metrics.thy ===== *)
theory Metrics
  imports Protocol "HOL-Library.List_Lexorder" "HOL-Library.Char_ord"
begin

text \<open>
  \<open>GatewayMetrics\<close> of \<open>runtime.py\<close>: the counters and gauges of the Gateway, updated one at a
  time under the metrics lock, and their Prometheus text. A \<open>Counter\<close> is a dictionary from
  codes to counts in which a missing code counts zero.
\<close>

section \<open>State and updates\<close>

record GatewayMetrics =
  me_offered :: int
  me_accepted :: int
  me_active :: int
  me_active_high_watermark :: int
  me_rejected :: "(string, int) dict"
  me_terminals :: "(string, int) dict"
  me_disconnect_cancels :: int
  me_backpressure_cancels :: int
  me_drain_timeouts :: int
  me_sse_buffered_events :: int
  me_sse_buffer_high_watermark :: int

definition GatewayMetrics_init :: GatewayMetrics where
  "GatewayMetrics_init =
     \<lparr>me_offered = 0, me_accepted = 0, me_active = 0, me_active_high_watermark = 0,
      me_rejected = [], me_terminals = [], me_disconnect_cancels = 0, me_backpressure_cancels = 0,
      me_drain_timeouts = 0, me_sse_buffered_events = 0, me_sse_buffer_high_watermark = 0\<rparr>"

definition counter_get :: "(string, int) dict \<Rightarrow> string \<Rightarrow> int" where
  "counter_get d k = (case map_of d k of None \<Rightarrow> 0 | Some n \<Rightarrow> n)"

definition counter_inc :: "string \<Rightarrow> (string, int) dict \<Rightarrow> (string, int) dict" where
  "counter_inc k d = AList.update k (counter_get d k + 1) d"

definition metrics_offered :: "GatewayMetrics \<Rightarrow> GatewayMetrics" where
  "metrics_offered m = m\<lparr>me_offered := me_offered m + 1\<rparr>"

definition metrics_accepted :: "GatewayMetrics \<Rightarrow> GatewayMetrics" where
  "metrics_accepted m =
     (let active = me_active m + 1 in
      m\<lparr>me_accepted := me_accepted m + 1, me_active := active,
        me_active_high_watermark := max (me_active_high_watermark m) active\<rparr>)"

definition metrics_rejected :: "string \<Rightarrow> GatewayMetrics \<Rightarrow> GatewayMetrics" where
  "metrics_rejected code m = m\<lparr>me_rejected := counter_inc code (me_rejected m)\<rparr>"

definition metrics_terminal :: "string \<Rightarrow> GatewayMetrics \<Rightarrow> GatewayMetrics" where
  "metrics_terminal code m =
     m\<lparr>me_terminals := counter_inc code (me_terminals m), me_active := max 0 (me_active m - 1)\<rparr>"

definition metrics_cancel :: "string \<Rightarrow> GatewayMetrics \<Rightarrow> GatewayMetrics" where
  "metrics_cancel reason m =
     (if reason = ''http_disconnect'' then m\<lparr>me_disconnect_cancels := me_disconnect_cancels m + 1\<rparr>
      else if reason = ''sse_backpressure''
      then m\<lparr>me_backpressure_cancels := me_backpressure_cancels m + 1\<rparr>
      else m)"

definition metrics_drain_timeout :: "GatewayMetrics \<Rightarrow> GatewayMetrics" where
  "metrics_drain_timeout m = m\<lparr>me_drain_timeouts := me_drain_timeouts m + 1\<rparr>"

definition sse_delta_enqueued :: "GatewayMetrics \<Rightarrow> GatewayMetrics" where
  "sse_delta_enqueued m =
     (let buffered = me_sse_buffered_events m + 1 in
      m\<lparr>me_sse_buffered_events := buffered,
        me_sse_buffer_high_watermark := max (me_sse_buffer_high_watermark m) buffered\<rparr>)"

definition sse_deltas_released :: "int \<Rightarrow> GatewayMetrics \<Rightarrow> GatewayMetrics" where
  "sse_deltas_released count m =
     m\<lparr>me_sse_buffered_events := max 0 (me_sse_buffered_events m - count)\<rparr>"

text \<open>\<open>snapshot\<close> copies every field under the lock; the record is immutable here.\<close>

definition metrics_snapshot :: "GatewayMetrics \<Rightarrow> GatewayMetrics" where
  "metrics_snapshot m = m"

section \<open>Prometheus text\<close>

definition gauge_line :: "string \<Rightarrow> int \<Rightarrow> string" where
  "gauge_line name v = name @ '' '' @ show_int v"

definition code_line :: "string \<Rightarrow> string \<times> int \<Rightarrow> string" where
  "code_line name e =
     name @ ''{code='' @ [CHR 0x22] @ fst e @ [CHR 0x22] @ ''} '' @ show_int (snd e)"

definition gateway_lines :: "bool \<Rightarrow> bool \<Rightarrow> GatewayMetrics \<Rightarrow> string list" where
  "gateway_lines is_connected ready m =
     [''# HELP kim_llm_gateway_connected Whether the IPC client is connected.'',
      ''# TYPE kim_llm_gateway_connected gauge'',
      gauge_line ''kim_llm_gateway_connected'' (if is_connected then 1 else 0),
      ''# HELP kim_llm_gateway_ready Whether the Worker passed readiness.'',
      ''# TYPE kim_llm_gateway_ready gauge'',
      gauge_line ''kim_llm_gateway_ready'' (if ready then 1 else 0),
      ''# TYPE kim_llm_gateway_requests_offered_total counter'',
      gauge_line ''kim_llm_gateway_requests_offered_total'' (me_offered m),
      ''# TYPE kim_llm_gateway_requests_accepted_total counter'',
      gauge_line ''kim_llm_gateway_requests_accepted_total'' (me_accepted m),
      ''# TYPE kim_llm_gateway_active_requests gauge'',
      gauge_line ''kim_llm_gateway_active_requests'' (me_active m),
      ''# TYPE kim_llm_gateway_active_requests_high_watermark gauge'',
      gauge_line ''kim_llm_gateway_active_requests_high_watermark'' (me_active_high_watermark m),
      ''# TYPE kim_llm_gateway_http_disconnect_cancels_total counter'',
      gauge_line ''kim_llm_gateway_http_disconnect_cancels_total'' (me_disconnect_cancels m),
      ''# TYPE kim_llm_gateway_sse_backpressure_cancels_total counter'',
      gauge_line ''kim_llm_gateway_sse_backpressure_cancels_total'' (me_backpressure_cancels m),
      ''# TYPE kim_llm_gateway_terminal_drain_timeouts_total counter'',
      gauge_line ''kim_llm_gateway_terminal_drain_timeouts_total'' (me_drain_timeouts m),
      ''# TYPE kim_llm_gateway_sse_buffered_events gauge'',
      gauge_line ''kim_llm_gateway_sse_buffered_events'' (me_sse_buffered_events m),
      ''# TYPE kim_llm_gateway_sse_buffer_high_watermark gauge'',
      gauge_line ''kim_llm_gateway_sse_buffer_high_watermark'' (me_sse_buffer_high_watermark m)]"

definition worker_lines :: "Stats \<Rightarrow> string list" where
  "worker_lines s =
     [''# TYPE kim_llm_worker_active_requests gauge'',
      gauge_line ''kim_llm_worker_active_requests'' (ss_active_requests s),
      ''# TYPE kim_llm_worker_reserved_input_tokens gauge'',
      gauge_line ''kim_llm_worker_reserved_input_tokens'' (ss_reserved_input_tokens s),
      ''# TYPE kim_llm_worker_reserved_output_tokens gauge'',
      gauge_line ''kim_llm_worker_reserved_output_tokens'' (ss_reserved_output_tokens s),
      ''# TYPE kim_llm_worker_session_egress_frames gauge'',
      gauge_line ''kim_llm_worker_session_egress_frames'' (ss_session_egress_frames s),
      ''# TYPE kim_llm_worker_session_egress_bytes gauge'',
      gauge_line ''kim_llm_worker_session_egress_bytes'' (ss_session_egress_bytes s),
      ''# TYPE kim_llm_worker_session_egress_high_watermark_frames gauge'',
      gauge_line ''kim_llm_worker_session_egress_high_watermark_frames''
        (ss_session_egress_high_watermark_frames s),
      ''# TYPE kim_llm_worker_session_egress_high_watermark_bytes gauge'',
      gauge_line ''kim_llm_worker_session_egress_high_watermark_bytes''
        (ss_session_egress_high_watermark_bytes s),
      ''# TYPE kim_llm_worker_requests_rejected_total counter'',
      gauge_line ''kim_llm_worker_requests_rejected_total'' (ss_rejected_requests s),
      ''# TYPE kim_llm_worker_backpressure_requests_total counter'',
      gauge_line ''kim_llm_worker_backpressure_requests_total'' (ss_backpressure_requests s),
      ''# TYPE kim_llm_worker_cancelled_requests_total counter'',
      gauge_line ''kim_llm_worker_cancelled_requests_total'' (ss_cancelled_requests s)]"

text \<open>The keys of a counter are distinct, so sorting the items is sorting by code.\<close>

definition counter_lines :: "string \<Rightarrow> (string, int) dict \<Rightarrow> string list" where
  "counter_lines name d =
     (''# TYPE '' @ name @ '' counter'') # map (code_line name) (sort_key fst d)"

definition prometheus_lines :: "bool \<Rightarrow> bool \<Rightarrow> Stats option \<Rightarrow> GatewayMetrics \<Rightarrow> string list" where
  "prometheus_lines is_connected ready worker_stats m =
     gateway_lines is_connected ready m @
     (case worker_stats of None \<Rightarrow> [] | Some s \<Rightarrow> worker_lines s) @
     counter_lines ''kim_llm_gateway_requests_rejected_total'' (me_rejected m) @
     counter_lines ''kim_llm_gateway_terminals_total'' (me_terminals m)"

definition render_prometheus :: "bool \<Rightarrow> bool \<Rightarrow> Stats option \<Rightarrow> GatewayMetrics \<Rightarrow> string" where
  "render_prometheus is_connected ready worker_stats m =
     join [CHR 0x0A] (prometheus_lines is_connected ready worker_stats (metrics_snapshot m)) @ [CHR 0x0A]"

section \<open>Counters\<close>

definition counter_total :: "(string, int) dict \<Rightarrow> int" where
  "counter_total d = sum_list (map snd d)"

lemma counter_get_inc: "counter_get (counter_inc k d) j = counter_get d j + (if j = k then 1 else 0)"
  by (simp add: counter_get_def counter_inc_def map_of_update_dict)

lemma counter_inc_ok [simp]: "dict_ok d \<Longrightarrow> dict_ok (counter_inc k d)"
  by (simp add: counter_inc_def)

lemma update_total:
  "sum_list (map snd (AList.update k v d)) =
     sum_list (map snd d) + v - (case map_of d k of None \<Rightarrow> 0 | Some n \<Rightarrow> (n :: int))"
  by (induction d) auto

lemma counter_total_inc [simp]: "counter_total (counter_inc k d) = counter_total d + 1"
  by (simp add: counter_total_def counter_inc_def update_total counter_get_def)

lemma counter_total_Nil [simp]: "counter_total [] = 0"
  by (simp add: counter_total_def)

text \<open>What a well-formed metrics object satisfies on its own.\<close>

definition metrics_ok :: "GatewayMetrics \<Rightarrow> bool" where
  "metrics_ok m \<longleftrightarrow>
     dict_ok (me_rejected m) \<and> dict_ok (me_terminals m) \<and>
     0 \<le> me_active m \<and> me_active m \<le> me_active_high_watermark m \<and>
     0 \<le> me_sse_buffered_events m \<and> me_sse_buffered_events m \<le> me_sse_buffer_high_watermark m"

lemmas metrics_defs = metrics_offered_def metrics_accepted_def metrics_rejected_def metrics_terminal_def
  metrics_cancel_def metrics_drain_timeout_def sse_delta_enqueued_def sse_deltas_released_def

lemma metrics_ok_updates [simp]:
  "metrics_ok GatewayMetrics_init"
  "metrics_ok m \<Longrightarrow> metrics_ok (metrics_offered m)"
  "metrics_ok m \<Longrightarrow> metrics_ok (metrics_accepted m)"
  "metrics_ok m \<Longrightarrow> metrics_ok (metrics_rejected code m)"
  "metrics_ok m \<Longrightarrow> metrics_ok (metrics_terminal code m)"
  "metrics_ok m \<Longrightarrow> metrics_ok (metrics_cancel reason m)"
  "metrics_ok m \<Longrightarrow> metrics_ok (metrics_drain_timeout m)"
  "metrics_ok m \<Longrightarrow> metrics_ok (sse_delta_enqueued m)"
  "metrics_ok m \<Longrightarrow> 0 \<le> n \<Longrightarrow> metrics_ok (sse_deltas_released n m)"
  by (auto simp: metrics_ok_def metrics_defs Let_def GatewayMetrics_init_def)

section \<open>Properties\<close>

text \<open>
  The exported counters are faithful: for every code the rendered text has exactly one
  line with that code, carrying its count, the lines are in increasing order of code, and
  the Worker's gauges appear exactly when a Worker snapshot was given.
\<close>

theorem prometheus_counters:
  assumes "metrics_ok m"
  shows "\<exists>rejected terminals.
      prometheus_lines is_connected ready stats m =
        gateway_lines is_connected ready m @ (case stats of None \<Rightarrow> [] | Some s \<Rightarrow> worker_lines s) @
        (''# TYPE kim_llm_gateway_requests_rejected_total counter'' #
           map (code_line ''kim_llm_gateway_requests_rejected_total'') rejected) @
        (''# TYPE kim_llm_gateway_terminals_total counter'' #
           map (code_line ''kim_llm_gateway_terminals_total'') terminals) \<and>
      sorted_wrt (<) (map fst rejected) \<and> sorted_wrt (<) (map fst terminals) \<and>
      map_of rejected = map_of (me_rejected m) \<and> map_of terminals = map_of (me_terminals m)"
proof -
  have *: "sorted_wrt (<) (map fst (sort_key fst d)) \<and> map_of (sort_key fst d) = map_of d"
    if d: "dict_ok d" for d :: "(string, int) dict"
  proof
    have dist: "distinct (map fst (sort_key fst d))"
      using d by (simp add: dict_ok_def distinct_map)
    then show "sorted_wrt (<) (map fst (sort_key fst d))"
      by (simp add: strict_sorted_iff)
    show "map_of (sort_key fst d) = map_of d"
      using dist d by (intro map_of_eqI) (auto simp: dict_ok_def map_of_is_SomeI)
  qed
  from assms have "dict_ok (me_rejected m)" "dict_ok (me_terminals m)" by (simp_all add: metrics_ok_def)
  with * show ?thesis
    by (intro exI [of _ "sort_key fst (me_rejected m)"] exI [of _ "sort_key fst (me_terminals m)"])
      (simp add: prometheus_lines_def counter_lines_def)
qed

theorem prometheus_counters_witness:
  "let m = metrics_rejected ''not_ready'' (metrics_rejected ''queue_full'' GatewayMetrics_init) in
   \<exists>rejected terminals.
      prometheus_lines True True None m =
        gateway_lines True True m @ (case None of None \<Rightarrow> [] | Some s \<Rightarrow> worker_lines s) @
        (''# TYPE kim_llm_gateway_requests_rejected_total counter'' #
           map (code_line ''kim_llm_gateway_requests_rejected_total'') rejected) @
        (''# TYPE kim_llm_gateway_terminals_total counter'' #
           map (code_line ''kim_llm_gateway_terminals_total'') terminals) \<and>
      sorted_wrt (<) (map fst rejected) \<and> sorted_wrt (<) (map fst terminals) \<and>
      map_of rejected = map_of (me_rejected m) \<and> map_of terminals = map_of (me_terminals m)"
  unfolding Let_def by (rule prometheus_counters) simp

end
