(* ===== verification/Async_Buffer.thy ===== *)
theory Async_Buffer
  imports Metrics Terminal_Stream
begin

text \<open>
  \<open>_AsyncEventBuffer\<close> of \<open>runtime.py\<close>: the bounded queue between the pump of a Gateway
  session and its HTTP response. Its methods also update the shared metrics, so they act on
  the pair of the buffer and the metrics. A \<open>GatewayTextDelta\<close> is its text. \<open>ab_get\<close> is one
  look of \<open>get\<close> under the condition; its argument says whether \<open>wait_for\<close> has run out.
\<close>

section \<open>Definitions\<close>

record GatewayTerminal =
  gt_status :: Status
  gt_finish_reason :: "string option"
  gt_usage :: Usage

record AsyncEventBuffer =
  ab_max_delta_events :: int
  ab_deltas :: "string list"
  ab_terminal :: "GatewayTerminal option"
  ab_terminal_delivered :: bool
  ab_abandoned :: bool

type_synonym metered_buffer = "AsyncEventBuffer \<times> GatewayMetrics"

definition AsyncEventBuffer_init :: "int \<Rightarrow> AsyncEventBuffer" where
  "AsyncEventBuffer_init max_delta_events =
     \<lparr>ab_max_delta_events = max_delta_events, ab_deltas = [], ab_terminal = None,
      ab_terminal_delivered = False, ab_abandoned = False\<rparr>"

definition ab_put_delta :: "string \<Rightarrow> metered_buffer \<Rightarrow> bool \<times> metered_buffer" where
  "ab_put_delta delta bm =
     (case bm of (b, m) \<Rightarrow>
        if ab_terminal b \<noteq> None \<or> ab_abandoned b then (False, (b, m))
        else if ab_max_delta_events b \<le> int (length (ab_deltas b)) then (False, (b, m))
        else (True, (b\<lparr>ab_deltas := ab_deltas b @ [delta]\<rparr>, sse_delta_enqueued m)))"

definition ab_put_terminal :: "GatewayTerminal \<Rightarrow> metered_buffer \<Rightarrow> bool \<times> metered_buffer" where
  "ab_put_terminal terminal bm =
     (case bm of (b, m) \<Rightarrow>
        if ab_terminal b \<noteq> None then (False, (b, m))
        else (True, (b\<lparr>ab_terminal := Some terminal\<rparr>, m)))"

definition ab_get :: "bool \<Rightarrow> metered_buffer \<Rightarrow> (string, GatewayTerminal) got \<times> metered_buffer" where
  "ab_get expired bm =
     (case bm of (b, m) \<Rightarrow>
        (case (ab_deltas b, ab_terminal b) of
           ([], None) \<Rightarrow> (if expired then TimedOut else WouldWait, (b, m))
         | (d # ds, _) \<Rightarrow> (GotDelta d, (b\<lparr>ab_deltas := ds\<rparr>, sse_deltas_released 1 m))
         | ([], Some t) \<Rightarrow>
             if ab_terminal_delivered b then (GotStop, (b, m))
             else (GotTerminal t, (b\<lparr>ab_terminal_delivered := True\<rparr>, m))))"

definition ab_abandon :: "metered_buffer \<Rightarrow> metered_buffer" where
  "ab_abandon bm =
     (case bm of (b, m) \<Rightarrow>
        let released = length (ab_deltas b) in
        (b\<lparr>ab_abandoned := True, ab_deltas := []\<rparr>,
         if released \<noteq> 0 then sse_deltas_released (int released) m else m))"

section \<open>The buffer implements the stream contract\<close>

lemmas async_buffer_defs = ab_put_delta_def ab_put_terminal_def ab_get_def

interpretation abs: terminal_stream ab_put_delta ab_put_terminal ab_get
  "\<lambda>bm. ab_deltas (fst bm)" "\<lambda>bm. ab_terminal (fst bm)" "\<lambda>bm. ab_terminal_delivered (fst bm)"
  "\<lambda>bm. ab_max_delta_events (fst bm)"
  by unfold_locales (auto simp: async_buffer_defs split: if_splits)

definition async_sound :: "AsyncEventBuffer \<Rightarrow> bool" where
  "async_sound b \<longleftrightarrow>
     fields_sound (ab_deltas b) (ab_terminal b) (ab_terminal_delivered b) (ab_max_delta_events b)"

abbreviation ab_owed :: "AsyncEventBuffer \<Rightarrow> (string + GatewayTerminal) list" where
  "ab_owed b \<equiv> owed_events (ab_deltas b) (ab_terminal b) (ab_terminal_delivered b)"

section \<open>Lemmas\<close>

lemma async_sound_init [simp]: "0 \<le> n \<Longrightarrow> async_sound (AsyncEventBuffer_init n)"
  by (simp add: async_sound_def fields_sound_def AsyncEventBuffer_init_def)

lemma async_put_delta_sound:
  "async_sound b \<Longrightarrow> ab_put_delta d (b, m) = (ok, (b', m')) \<Longrightarrow> async_sound b'"
  using abs.step_conserves [of "(b, m)" "PutDelta d", THEN conjunct1] by (simp add: async_sound_def)

lemma async_put_terminal_sound:
  "async_sound b \<Longrightarrow> ab_put_terminal t (b, m) = (ok, (b', m')) \<Longrightarrow> async_sound b'"
  using abs.step_conserves [of "(b, m)" "PutTerminal t", THEN conjunct1] by (simp add: async_sound_def)

lemma async_get_sound:
  "async_sound b \<Longrightarrow> ab_get x (b, m) = (g, (b', m')) \<Longrightarrow>
     async_sound b' \<and> got_event g @ ab_owed b' = ab_owed b"
  using abs.step_conserves [of "(b, m)" "Take x", THEN conjunct1]
    abs.step_conserves [of "(b, m)" "Take x", THEN conjunct2, THEN conjunct1]
  by (simp add: async_sound_def)

lemma async_abandon_sound: "async_sound b \<Longrightarrow> ab_abandon (b, m) = (b', m') \<Longrightarrow> async_sound b'"
  by (auto simp: ab_abandon_def async_sound_def fields_sound_def Let_def split: if_splits)

text \<open>Every operation changes the buffered-events gauge by the change of the queue's length.\<close>

lemma gauge_put_delta:
  "ab_put_delta d (b, m) = (ok, (b', m')) \<Longrightarrow>
     me_sse_buffered_events m' - me_sse_buffered_events m = int (length (ab_deltas b')) - int (length (ab_deltas b))"
  by (auto simp: ab_put_delta_def sse_delta_enqueued_def Let_def split: if_splits)

lemma gauge_get:
  "ab_get x (b, m) = (g, (b', m')) \<Longrightarrow> int (length (ab_deltas b)) \<le> me_sse_buffered_events m \<Longrightarrow>
     me_sse_buffered_events m' - me_sse_buffered_events m = int (length (ab_deltas b')) - int (length (ab_deltas b))"
  by (auto simp: ab_get_def sse_deltas_released_def split: if_splits list.splits option.splits)

lemma gauge_abandon:
  "ab_abandon (b, m) = (b', m') \<Longrightarrow> int (length (ab_deltas b)) \<le> me_sse_buffered_events m \<Longrightarrow>
     me_sse_buffered_events m' - me_sse_buffered_events m = int (length (ab_deltas b')) - int (length (ab_deltas b))"
  by (auto simp: ab_abandon_def sse_deltas_released_def Let_def split: if_splits)

end
