(* ===== verification/Session.thy ===== *)
theory Session
  imports Async_Buffer "HOL-Library.Sublist"
begin

text \<open>
  \<open>_IncrementalDecoder\<close> and \<open>GatewaySession\<close> of \<open>runtime.py\<close>. The pump is a loop over the
  events of the generation handle; \<open>pump_step\<close> is one iteration, given the event (or
  exception) that \<open>next_event\<close> produced and the answer \<open>handle.cancel\<close> gives if the iteration
  calls it. The loop's local \<open>local_failure\<close> is a field of the session here. The consumer
  (the HTTP response), cancellations and \<open>abandon\<close> run between iterations. The tokenizer's
  \<open>decode\<close> is a parameter.
\<close>

section \<open>Incremental decoding\<close>

type_synonym decode_fun = "int list \<Rightarrow> string result"

record IncrementalDecoder =
  id_tokens :: "int list"
  id_decoded :: string

definition IncrementalDecoder_init :: IncrementalDecoder where
  "IncrementalDecoder_init = \<lparr>id_tokens = [], id_decoded = []\<rparr>"

definition decoder_append ::
  "decode_fun \<Rightarrow> int list \<Rightarrow> IncrementalDecoder \<Rightarrow> string result \<times> IncrementalDecoder" where
  "decoder_append decode token_ids d =
     (let d1 = d\<lparr>id_tokens := id_tokens d @ token_ids\<rparr> in
      case decode (id_tokens d1) of
        Inl e \<Rightarrow> (Inl e, d1)
      | Inr decoded \<Rightarrow>
          if \<not> prefix (id_decoded d) decoded
          then (Inl (TokenizerError ''incremental decode changed text that was already emitted''), d1)
          else (Inr (drop (length (id_decoded d)) decoded), d1\<lparr>id_decoded := decoded\<rparr>))"

section \<open>The session\<close>

record Session =
  gs_request_id :: int
  gs_decoder :: IncrementalDecoder
  gs_buffer :: AsyncEventBuffer
  gs_cancel_sent :: bool
  gs_done :: bool
  gs_started :: bool
  gs_terminal :: "GatewayTerminal option"
  gs_dropping_deltas :: bool
  gs_local_failure :: "Status option"

type_synonym metered_session = "Session \<times> GatewayMetrics"

definition GatewaySession_init :: "int \<Rightarrow> int \<Rightarrow> Session" where
  "GatewaySession_init request_id max_delta_events =
     \<lparr>gs_request_id = request_id, gs_decoder = IncrementalDecoder_init,
      gs_buffer = AsyncEventBuffer_init max_delta_events, gs_cancel_sent = False, gs_done = False,
      gs_started = False, gs_terminal = None, gs_dropping_deltas = False, gs_local_failure = None\<rparr>"

definition session_start :: "Session \<Rightarrow> Session result" where
  "session_start s =
     (if gs_started s then Inl (RuntimeError ''Gateway Session pump already started'')
      else Inr (s\<lparr>gs_started := True\<rparr>))"

definition next_event :: "bool \<Rightarrow> metered_session \<Rightarrow> (string, GatewayTerminal) got \<times> metered_session" where
  "next_event expired sm =
     (case sm of (s, m) \<Rightarrow>
        case ab_get expired (gs_buffer s, m) of (g, (b, m')) \<Rightarrow> (g, (s\<lparr>gs_buffer := b\<rparr>, m')))"

text \<open>\<open>cancel\<close>; \<open>outcome\<close> is the result or exception of \<open>handle.cancel\<close>.\<close>

definition session_cancel :: "string \<Rightarrow> bool result \<Rightarrow> metered_session \<Rightarrow> bool result \<times> metered_session" where
  "session_cancel reason outcome sm =
     (case sm of (s, m) \<Rightarrow>
        if gs_done s then (Inr False, (s, m))
        else if gs_cancel_sent s then (Inr True, (s, m))
        else
          let answer = (case outcome of
                          Inr sent \<Rightarrow> Inr sent
                        | Inl e \<Rightarrow> if is_GenerationClientError e then Inr False else Inl e)
          in case answer of
               Inl e \<Rightarrow> (Inl e, (s, m))
             | Inr sent \<Rightarrow>
                 (Inr sent, (s\<lparr>gs_cancel_sent := sent\<rparr>, if sent then metrics_cancel reason m else m)))"

text \<open>\<open>cancel_and_drain\<close>; \<open>drained\<close> says whether the session was done within the timeout.\<close>

definition cancel_and_drain ::
  "string \<Rightarrow> bool result \<Rightarrow> bool \<Rightarrow> metered_session \<Rightarrow> bool result \<times> metered_session" where
  "cancel_and_drain reason outcome drained sm =
     (case session_cancel reason outcome sm of
        (Inl e, sm') \<Rightarrow> (Inl e, sm')
      | (Inr _, (s, m)) \<Rightarrow>
          if drained then (Inr True, (s, m)) else (Inr False, (s, metrics_drain_timeout m)))"

definition session_abandon :: "metered_session \<Rightarrow> metered_session" where
  "session_abandon sm =
     (case sm of (s, m) \<Rightarrow> case ab_abandon (gs_buffer s, m) of (b, m') \<Rightarrow> (s\<lparr>gs_buffer := b\<rparr>, m'))"

section \<open>The pump\<close>

definition session_finish :: "GatewayTerminal \<Rightarrow> metered_session \<Rightarrow> unit result \<times> metered_session" where
  "session_finish terminal sm =
     (case sm of (s, m) \<Rightarrow>
        let s1 = s\<lparr>gs_terminal := Some terminal\<rparr> in
        case ab_put_terminal terminal (gs_buffer s1, m) of
          (False, _) \<Rightarrow> (Inl (RuntimeError ''Gateway Session received duplicate Terminal''), (s1, m))
        | (True, (b, m')) \<Rightarrow>
            (Inr (), (s1\<lparr>gs_buffer := b\<rparr>, metrics_terminal (st_code (gt_status terminal)) m')))"

definition set_done :: "metered_session \<Rightarrow> metered_session" where
  "set_done sm = (case sm of (s, m) \<Rightarrow> (s\<lparr>gs_done := True\<rparr>, m))"

definition failure_status :: "exn \<Rightarrow> Status" where
  "failure_status e =
     (case e of
        StopIteration \<Rightarrow> Status_make ''internal_error'' ''generation ended without Terminal''
      | WorkerUnavailableError m \<Rightarrow> Status_make ''unavailable'' m
      | _ \<Rightarrow> Status_make ''internal_error'' (exn_str e))"

text \<open>An exception ends the pump: a terminal with no finish reason, then \<open>done\<close>.\<close>

definition pump_except :: "exn \<Rightarrow> metered_session \<Rightarrow> metered_session" where
  "pump_except e sm =
     set_done (snd (session_finish
       \<lparr>gt_status = failure_status e, gt_finish_reason = None, gt_usage = Usage_default\<rparr> sm))"

definition pump_cancel :: "string \<Rightarrow> bool result \<Rightarrow> metered_session \<Rightarrow> metered_session" where
  "pump_cancel reason outcome sm =
     (case session_cancel reason outcome sm of
        (Inl e, sm') \<Rightarrow> pump_except e sm'
      | (Inr _, sm') \<Rightarrow> sm')"

definition pump_delta :: "decode_fun \<Rightarrow> bool result \<Rightarrow> int list \<Rightarrow> metered_session \<Rightarrow> metered_session" where
  "pump_delta decode outcome token_ids sm =
     (case sm of (s, m) \<Rightarrow>
        if gs_dropping_deltas s then (s, m)
        else case decoder_append decode token_ids (gs_decoder s) of
          (Inl e, d) \<Rightarrow>
            (case e of
               TokenizerError message \<Rightarrow>
                 pump_cancel ''decode_failure'' outcome
                   (s\<lparr>gs_decoder := d, gs_local_failure := Some (Status_make ''internal_error'' message),
                      gs_dropping_deltas := True\<rparr>, m)
             | _ \<Rightarrow> pump_except e (s\<lparr>gs_decoder := d\<rparr>, m))
        | (Inr text, d) \<Rightarrow>
            let s1 = s\<lparr>gs_decoder := d\<rparr> in
            if text = [] then (s1, m)
            else case ab_put_delta text (gs_buffer s1, m) of
              (True, (b, m')) \<Rightarrow> (s1\<lparr>gs_buffer := b\<rparr>, m')
            | (False, (b, m')) \<Rightarrow>
                pump_cancel ''sse_backpressure'' outcome
                  (s1\<lparr>gs_buffer := b, gs_dropping_deltas := True\<rparr>, m'))"

definition pump_terminal :: "Terminal \<Rightarrow> metered_session \<Rightarrow> metered_session" where
  "pump_terminal t sm =
     (case sm of (s, m) \<Rightarrow>
        let terminal =
              \<lparr>gt_status = (case gs_local_failure s of None \<Rightarrow> tm_status t | Some f \<Rightarrow> f),
               gt_finish_reason = (case gs_local_failure s of None \<Rightarrow> tm_finish_reason t | Some _ \<Rightarrow> None),
               gt_usage = tm_usage t\<rparr>
        in case session_finish terminal (s, m) of
             (Inr _, sm') \<Rightarrow> set_done sm'
           | (Inl e, sm') \<Rightarrow> pump_except e sm')"

datatype pump_input = PumpEvent GenerationEvent | PumpRaise exn

fun pump_step :: "decode_fun \<Rightarrow> bool result \<Rightarrow> pump_input \<Rightarrow> metered_session \<Rightarrow> metered_session" where
  "pump_step decode outcome (PumpEvent (EvDelta d)) sm = pump_delta decode outcome (td_token_ids d) sm"
| "pump_step decode outcome (PumpEvent (EvTerminal t)) sm = pump_terminal t sm"
| "pump_step decode outcome (PumpRaise e) sm = pump_except e sm"

section \<open>Runs\<close>

text \<open>What happens to a session, in the order the event loop runs it; the pump takes no
  further step once it has ended.\<close>

datatype session_op =
    Pump "bool result" pump_input
  | Consume bool
  | Cancel string "bool result"
  | DrainTimeout
  | Abandon

fun session_step :: "decode_fun \<Rightarrow> session_op \<Rightarrow> metered_session \<Rightarrow> (string + GatewayTerminal) list \<times> metered_session" where
  "session_step decode (Pump outcome i) sm =
     ([], if gs_done (fst sm) then sm else pump_step decode outcome i sm)"
| "session_step decode (Consume x) sm = (case next_event x sm of (g, sm') \<Rightarrow> (got_event g, sm'))"
| "session_step decode (Cancel reason outcome) sm = ([], snd (session_cancel reason outcome sm))"
| "session_step decode DrainTimeout sm = ([], (fst sm, metrics_drain_timeout (snd sm)))"
| "session_step decode Abandon sm = ([], session_abandon sm)"

fun session_run :: "decode_fun \<Rightarrow> session_op list \<Rightarrow> metered_session \<Rightarrow> (string + GatewayTerminal) list \<times> metered_session" where
  "session_run decode [] sm = ([], sm)"
| "session_run decode (x # xs) sm =
     (case session_step decode x sm of (r, sm') \<Rightarrow>
      case session_run decode xs sm' of (rs, sm'') \<Rightarrow> (r @ rs, sm''))"

section \<open>Well-formedness\<close>

definition session_ok :: "Session \<Rightarrow> bool" where
  "session_ok s \<longleftrightarrow>
     async_sound (gs_buffer s) \<and> gs_terminal s = ab_terminal (gs_buffer s) \<and>
     (gs_done s \<longleftrightarrow> gs_terminal s \<noteq> None) \<and> (gs_local_failure s \<noteq> None \<longrightarrow> gs_dropping_deltas s)"

text \<open>
  What a step of one session may do to the shared metrics: move the buffered-events gauge
  with the queue, count one terminal and one active request less when the session ends, and
  count a cancel when it is sent.
\<close>

definition pending_count :: "Session \<Rightarrow> int" where
  "pending_count s = int (length (ab_deltas (gs_buffer s)))"

definition done_count :: "Session \<Rightarrow> int" where
  "done_count s = (if gs_done s then 1 else 0)"

definition cancel_count :: "GatewayMetrics \<Rightarrow> int" where
  "cancel_count m = me_disconnect_cancels m + me_backpressure_cancels m"

definition metered_effect :: "metered_session \<Rightarrow> metered_session \<Rightarrow> bool" where
  "metered_effect sm sm' \<longleftrightarrow>
     (case (sm, sm') of ((s, m), (s', m')) \<Rightarrow>
        metrics_ok m' \<and> gs_request_id s' = gs_request_id s \<and>
        me_offered m' = me_offered m \<and> me_accepted m' = me_accepted m \<and> me_rejected m' = me_rejected m \<and>
        me_sse_buffered_events m' - me_sse_buffered_events m = pending_count s' - pending_count s \<and>
        counter_total (me_terminals m') - counter_total (me_terminals m) = done_count s' - done_count s \<and>
        me_active m - me_active m' = done_count s' - done_count s \<and>
        (gs_done s \<longrightarrow> gs_done s' \<and> gs_terminal s' = gs_terminal s) \<and>
        (gs_cancel_sent s \<longrightarrow> gs_cancel_sent s' \<and> cancel_count m' = cancel_count m) \<and>
        cancel_count m \<le> cancel_count m' \<and>
        cancel_count m' - cancel_count m \<le> (if gs_cancel_sent s' then 1 else 0) - (if gs_cancel_sent s then 1 else 0))"

text \<open>When the metrics cover a session: its queue is in the gauge and, while it runs, it is
  among the active requests.\<close>

definition covered :: "metered_session \<Rightarrow> bool" where
  "covered sm \<longleftrightarrow>
     (case sm of (s, m) \<Rightarrow>
        session_ok s \<and> metrics_ok m \<and> pending_count s \<le> me_sse_buffered_events m \<and>
        1 - done_count s \<le> me_active m)"

lemma metered_effect_refl: "covered (s, m) \<Longrightarrow> metered_effect (s, m) (s, m)"
  by (simp add: metered_effect_def covered_def)

lemma metered_effect_trans:
  "metered_effect a b \<Longrightarrow> metered_effect b c \<Longrightarrow> metered_effect a c"
  by (auto simp: metered_effect_def split: prod.splits)

lemma covered_step:
  "covered (s, m) \<Longrightarrow> metered_effect (s, m) (s', m') \<Longrightarrow> session_ok s' \<Longrightarrow> covered (s', m')"
  by (auto simp: covered_def metered_effect_def done_count_def split: if_splits)

lemma cancel_effect:
  assumes "covered (s, m)" and "session_cancel reason outcome (s, m) = (res, (s', m'))"
  shows "metered_effect (s, m) (s', m') \<and> session_ok s' \<and> gs_done s' = gs_done s \<and>
    s' = s\<lparr>gs_cancel_sent := gs_cancel_sent s'\<rparr>"
  using assms
  by (auto simp: session_cancel_def metered_effect_def covered_def session_ok_def pending_count_def
      done_count_def cancel_count_def metrics_cancel_def metrics_ok_def Let_def
      split: if_splits sum.splits)

lemma finish_effect:
  assumes "covered (s, m)" and "\<not> gs_done s"
  shows "\<exists>s' m'. session_finish t (s, m) = (Inr (), (s', m')) \<and>
    metered_effect (s, m) (set_done (s', m')) \<and> session_ok (s'\<lparr>gs_done := True\<rparr>) \<and> gs_terminal s' = Some t \<and>
    gs_decoder s' = gs_decoder s \<and> ab_deltas (gs_buffer s') = ab_deltas (gs_buffer s)"
proof -
  have none: "ab_terminal (gs_buffer s) = None"
    using assms by (auto simp: covered_def session_ok_def)
  then have fin: "session_finish t (s, m) =
      (Inr (), (s\<lparr>gs_terminal := Some t, gs_buffer := (gs_buffer s)\<lparr>ab_terminal := Some t\<rparr>\<rparr>,
        metrics_terminal (st_code (gt_status t)) m))"
    by (simp add: session_finish_def ab_put_terminal_def Let_def)
  have "async_sound ((gs_buffer s)\<lparr>ab_terminal := Some t\<rparr>)"
    using assms(1) by (simp add: covered_def session_ok_def async_sound_def fields_sound_def)
  with assms fin show ?thesis
    by (auto simp: metered_effect_def covered_def session_ok_def set_done_def pending_count_def
        done_count_def cancel_count_def metrics_terminal_def metrics_ok_def)
qed

lemma except_effect:
  assumes "covered (s, m)" and "\<not> gs_done s"
  shows "metered_effect (s, m) (pump_except e (s, m)) \<and> session_ok (fst (pump_except e (s, m))) \<and>
    gs_done (fst (pump_except e (s, m)))"
proof -
  obtain s' m' where "session_finish \<lparr>gt_status = failure_status e, gt_finish_reason = None, gt_usage = Usage_default\<rparr> (s, m)
      = (Inr (), (s', m'))"
    "metered_effect (s, m) (set_done (s', m'))" "session_ok (s'\<lparr>gs_done := True\<rparr>)"
    using finish_effect [OF assms] by blast
  then show ?thesis by (simp add: pump_except_def set_done_def)
qed

lemma pump_cancel_effect:
  assumes "covered (s, m)" and "\<not> gs_done s"
  shows "metered_effect (s, m) (pump_cancel reason outcome (s, m)) \<and>
    session_ok (fst (pump_cancel reason outcome (s, m)))"
proof -
  obtain res s' m' where c: "session_cancel reason outcome (s, m) = (res, (s', m'))"
    by (metis prod_cases3)
  note ce = cancel_effect [OF assms(1) c]
  then have cov: "covered (s', m')" using covered_step [OF assms(1)] by blast
  show ?thesis
  proof (cases res)
    case (Inr sent)
    with c ce show ?thesis by (simp add: pump_cancel_def)
  next
    case (Inl e)
    have "\<not> gs_done s'" using ce assms(2) by simp
    with except_effect [OF cov, of e] ce Inl c show ?thesis
      using metered_effect_trans [of "(s, m)" "(s', m')" "pump_except e (s', m')"] by (simp add: pump_cancel_def)
  qed
qed

lemma terminal_effect:
  assumes "covered (s, m)" and "\<not> gs_done s"
  shows "metered_effect (s, m) (pump_terminal t (s, m)) \<and> session_ok (fst (pump_terminal t (s, m))) \<and>
    gs_done (fst (pump_terminal t (s, m)))"
proof -
  let ?t = "\<lparr>gt_status = (case gs_local_failure s of None \<Rightarrow> tm_status t | Some f \<Rightarrow> f),
     gt_finish_reason = (case gs_local_failure s of None \<Rightarrow> tm_finish_reason t | Some _ \<Rightarrow> None),
     gt_usage = tm_usage t\<rparr>"
  obtain s' m' where "session_finish ?t (s, m) = (Inr (), (s', m'))"
    "metered_effect (s, m) (set_done (s', m'))" "session_ok (s'\<lparr>gs_done := True\<rparr>)"
    using finish_effect [OF assms] by blast
  then show ?thesis by (simp add: pump_terminal_def Let_def set_done_def)
qed

lemma delta_effect:
  assumes cov: "covered (s, m)" and nd: "\<not> gs_done s"
  shows "metered_effect (s, m) (pump_delta decode outcome ids (s, m)) \<and>
    session_ok (fst (pump_delta decode outcome ids (s, m)))"
proof (cases "gs_dropping_deltas s")
  case True
  with metered_effect_refl [OF cov] cov show ?thesis by (simp add: pump_delta_def covered_def)
next
  case nodrop: False
  obtain r d where ap: "decoder_append decode ids (gs_decoder s) = (r, d)" by force
  have move: "covered (s1, m1) \<Longrightarrow> metered_effect (s, m) (s1, m1) \<Longrightarrow>
      metered_effect (s1, m1) sm \<and> session_ok (fst sm) \<Longrightarrow> metered_effect (s, m) sm \<and> session_ok (fst sm)"
    for s1 m1 sm using metered_effect_trans by blast
  have dec: "covered (s\<lparr>gs_decoder := d\<rparr>, m)" "metered_effect (s, m) (s\<lparr>gs_decoder := d\<rparr>, m)"
    "covered (s\<lparr>gs_decoder := d, gs_local_failure := f, gs_dropping_deltas := True\<rparr>, m)"
    "metered_effect (s, m) (s\<lparr>gs_decoder := d, gs_local_failure := f, gs_dropping_deltas := True\<rparr>, m)" for f
    using cov by (auto simp: covered_def metered_effect_def session_ok_def pending_count_def done_count_def)
  show ?thesis
  proof (cases r)
    case (Inl e)
    show ?thesis
    proof (cases "\<exists>x. e = TokenizerError x")
      case True
      then obtain x where e: "e = TokenizerError x" by blast
      from move [OF dec(3,4) pump_cancel_effect [OF dec(3)]] nd ap Inl nodrop e show ?thesis
        by (simp add: pump_delta_def)
    next
      case False
      then have "pump_delta decode outcome ids (s, m) = pump_except e (s\<lparr>gs_decoder := d\<rparr>, m)"
        using ap Inl nodrop by (cases e) (simp_all add: pump_delta_def)
      with move [OF dec(1,2), of "pump_except e (s\<lparr>gs_decoder := d\<rparr>, m)"] except_effect [OF dec(1), of e] nd
      show ?thesis by simp
    qed
  next
    case (Inr piece)
    show ?thesis
    proof (cases "piece = []")
      case True
      with dec(1,2) ap Inr nodrop show ?thesis by (simp add: pump_delta_def Let_def covered_def)
    next
      case False
      obtain ok b m' where put: "ab_put_delta piece (gs_buffer s, m) = (ok, (b, m'))" by (metis prod_cases3)
      let ?s = "\<lambda>k. s\<lparr>gs_decoder := d, gs_buffer := b, gs_dropping_deltas := k\<rparr>"
      have snd: "async_sound b" using async_put_delta_sound [OF _ put] cov by (simp add: covered_def session_ok_def)
      have tm: "ab_terminal b = ab_terminal (gs_buffer s)" "me_active m' = me_active m" "me_offered m' = me_offered m"
        "me_accepted m' = me_accepted m" "me_rejected m' = me_rejected m" "me_terminals m' = me_terminals m"
        "cancel_count m' = cancel_count m" "metrics_ok m'"
        using put cov by (auto simp: ab_put_delta_def sse_delta_enqueued_def Let_def cancel_count_def covered_def
            metrics_ok_def split: if_splits)
      have eff: "metered_effect (s, m) (?s k, m')" "session_ok (?s k)" if "k \<or> \<not> gs_dropping_deltas s" for k
        using gauge_put_delta [OF put] tm snd cov that nodrop
        by (auto simp: metered_effect_def covered_def session_ok_def pending_count_def done_count_def)
      show ?thesis
      proof (cases ok)
        case True
        have "pump_delta decode outcome ids (s, m) = (?s False, m')"
          using True put False ap Inr nodrop by (simp add: pump_delta_def Let_def)
        with eff [of False] nodrop show ?thesis by simp
      next
        case notok: False
        have "pump_delta decode outcome ids (s, m) = pump_cancel ''sse_backpressure'' outcome (?s True, m')"
          using notok put False ap Inr nodrop by (simp add: pump_delta_def Let_def)
        moreover have "covered (?s True, m')" using covered_step [OF cov] eff [of True] by simp
        ultimately show ?thesis
          using move [OF _ eff(1) [of True]] pump_cancel_effect [of "?s True" m' "''sse_backpressure''" outcome] nd by simp
      qed
    qed
  qed
qed

lemma pump_effect:
  assumes "covered (s, m)" and "\<not> gs_done s"
  shows "metered_effect (s, m) (pump_step decode outcome i (s, m)) \<and>
    session_ok (fst (pump_step decode outcome i (s, m)))"
  using delta_effect [OF assms] terminal_effect [OF assms] except_effect [OF assms]
  by (cases "(decode, outcome, i, (s, m))" rule: pump_step.cases) auto

lemma next_event_effect:
  assumes cov: "covered (s, m)" and nx: "next_event x (s, m) = (g, (s', m'))"
  shows "metered_effect (s, m) (s', m') \<and> session_ok s' \<and> got_event g @ ab_owed (gs_buffer s') = ab_owed (gs_buffer s)"
proof -
  obtain b where get: "ab_get x (gs_buffer s, m) = (g, (b, m'))" and s': "s' = s\<lparr>gs_buffer := b\<rparr>"
    using nx by (auto simp: next_event_def split: prod.splits)
  have ok: "async_sound (gs_buffer s)" "metrics_ok m" "int (length (ab_deltas (gs_buffer s))) \<le> me_sse_buffered_events m"
    using cov by (auto simp: covered_def session_ok_def pending_count_def)
  have "ab_terminal b = ab_terminal (gs_buffer s) \<and> me_active m' = me_active m \<and> me_offered m' = me_offered m \<and>
        me_accepted m' = me_accepted m \<and> me_rejected m' = me_rejected m \<and> me_terminals m' = me_terminals m \<and>
        cancel_count m' = cancel_count m \<and> metrics_ok m'"
    using get ok(2) by (auto simp: ab_get_def sse_deltas_released_def cancel_count_def metrics_ok_def
        split: if_splits list.splits option.splits)
  with async_get_sound [OF ok(1) get] gauge_get [OF get ok(3)] cov show ?thesis
    by (auto simp: s' metered_effect_def covered_def session_ok_def pending_count_def done_count_def)
qed

lemma abandon_effect:
  assumes cov: "covered (s, m)" and ab: "session_abandon (s, m) = (s', m')"
  shows "metered_effect (s, m) (s', m') \<and> session_ok s'"
proof -
  obtain b where get: "ab_abandon (gs_buffer s, m) = (b, m')" and s': "s' = s\<lparr>gs_buffer := b\<rparr>"
    using ab by (auto simp: session_abandon_def split: prod.splits)
  have ok: "async_sound (gs_buffer s)" "metrics_ok m" "int (length (ab_deltas (gs_buffer s))) \<le> me_sse_buffered_events m"
    using cov by (auto simp: covered_def session_ok_def pending_count_def)
  have "ab_terminal b = ab_terminal (gs_buffer s) \<and> me_active m' = me_active m \<and> me_offered m' = me_offered m \<and>
        me_accepted m' = me_accepted m \<and> me_rejected m' = me_rejected m \<and> me_terminals m' = me_terminals m \<and>
        cancel_count m' = cancel_count m \<and> metrics_ok m'"
    using get ok(2) by (auto simp: ab_abandon_def sse_deltas_released_def cancel_count_def metrics_ok_def Let_def
        split: if_splits)
  with async_abandon_sound [OF ok(1) get] gauge_abandon [OF get ok(3)] cov show ?thesis
    by (auto simp: s' metered_effect_def covered_def session_ok_def pending_count_def done_count_def)
qed

lemma session_step_effect:
  assumes cov: "covered (s, m)" and st: "session_step decode x (s, m) = (r, (s', m'))"
  shows "metered_effect (s, m) (s', m') \<and> covered (s', m')"
proof -
  have "metered_effect (s, m) (s', m') \<and> session_ok s'"
  proof (cases x)
    case (Pump outcome i)
    show ?thesis
    proof (cases "gs_done s")
      case True
      with Pump st metered_effect_refl [OF cov] cov show ?thesis by (auto simp: covered_def)
    next
      case False
      with Pump st pump_effect [OF cov False, of decode outcome i] show ?thesis by auto
    qed
  next
    case (Consume e)
    with st next_event_effect [OF cov] show ?thesis by (auto split: prod.splits)
  next
    case (Cancel reason outcome)
    with st cancel_effect [OF cov] show ?thesis by (cases "session_cancel reason outcome (s, m)") auto
  next
    case DrainTimeout
    with st cov show ?thesis
      by (auto simp: metered_effect_def covered_def metrics_drain_timeout_def metrics_ok_def cancel_count_def)
  next
    case Abandon
    with st abandon_effect [OF cov] show ?thesis by auto
  qed
  then show ?thesis using covered_step [OF cov] by blast
qed

lemma session_run_effect:
  assumes "covered (s, m)" and "session_run decode ops (s, m) = (rs, (s', m'))"
  shows "metered_effect (s, m) (s', m') \<and> covered (s', m')"
  using assms
proof (induction ops arbitrary: s m rs)
  case Nil
  then show ?case using metered_effect_refl by auto
next
  case (Cons x xs)
  obtain r s1 m1 where st: "session_step decode x (s, m) = (r, (s1, m1))" by (metis prod_cases3)
  obtain rs' where run: "session_run decode xs (s1, m1) = (rs', (s', m'))"
    using Cons.prems(2) st by (auto split: prod.splits)
  note e = session_step_effect [OF Cons.prems(1) st]
  with Cons.IH [OF _ run] show ?case using metered_effect_trans by blast
qed

end
