(* ===== verification/Session_Text.thy ===== *)
theory Session_Text
  imports Session
begin

text \<open>
  What the HTTP client of a session receives: the text of the generated tokens, then one
  terminal.
\<close>

fun event_text :: "(string + GatewayTerminal) list \<Rightarrow> string" where
  "event_text [] = []"
| "event_text (Inl t # es) = t @ event_text es"
| "event_text (Inr _ # es) = event_text es"

fun op_tokens :: "session_op \<Rightarrow> int list list" where
  "op_tokens (Pump outcome (PumpEvent (EvDelta d))) = [td_token_ids d]"
| "op_tokens _ = []"

definition pumped :: "session_op list \<Rightarrow> int list list" where
  "pumped ops = concat (map op_tokens ops)"

text \<open>The session is still streaming and nothing has been dropped.\<close>

definition clean :: "Session \<Rightarrow> bool" where
  "clean s \<longleftrightarrow> \<not> gs_done s \<and> \<not> gs_dropping_deltas s \<and> \<not> ab_abandoned (gs_buffer s)"

definition text_step :: "decode_fun \<Rightarrow> int list list \<Rightarrow> string \<Rightarrow> Session \<Rightarrow> Session \<Rightarrow> bool" where
  "text_step decode fed received s s' \<longleftrightarrow>
     clean s \<and>
     id_tokens (gs_decoder s') = id_tokens (gs_decoder s) @ concat fed \<and>
     (\<exists>new. id_decoded (gs_decoder s') = id_decoded (gs_decoder s) @ new \<and>
            received @ concat (ab_deltas (gs_buffer s')) = concat (ab_deltas (gs_buffer s)) @ new) \<and>
     (if fed = [] then gs_decoder s' = gs_decoder s
      else decode (id_tokens (gs_decoder s')) = Inr (id_decoded (gs_decoder s')))"

lemma event_text_append [simp]: "event_text (xs @ ys) = event_text xs @ event_text ys"
  by (induction xs rule: event_text.induct) auto

lemma event_text_Inl [simp]: "event_text (map Inl ts) = concat ts"
  by (induction ts) auto

lemma owed_text: "event_text (ab_owed b) = concat (ab_deltas b)"
proof -
  have "event_text (map Inr ts) = []" for ts by (induction ts) auto
  then show ?thesis by (simp add: owed_events_def)
qed

lemma text_step_refl: "clean s \<Longrightarrow> text_step decode [] [] s s"
  by (simp add: text_step_def)

lemma text_step_trans:
  assumes "text_step decode f r s s1" and "text_step decode f' r' s1 s'"
  shows "text_step decode (f @ f') (r @ r') s s'"
  using assms by (fastforce simp: text_step_def split: if_splits)

lemma pump_except_done: "gs_done (fst (pump_except e sm))"
  by (simp add: pump_except_def set_done_def split: prod.split)

lemma pump_cancel_dropping:
  "gs_dropping_deltas s \<Longrightarrow>
     gs_dropping_deltas (fst (pump_cancel reason outcome (s, m)))"
  by (auto simp: pump_cancel_def session_cancel_def pump_except_def session_finish_def set_done_def Let_def
      split: sum.splits prod.splits if_splits bool.splits)

lemma pump_delta_text:
  assumes "pump_delta decode outcome ids (s, m) = (s', m')" and "clean s'" and "\<not> gs_done s"
  shows "text_step decode [ids] [] s s'"
proof -
  have nodrop: "\<not> gs_dropping_deltas s"
    using assms(1,2) by (auto simp: pump_delta_def clean_def)
  obtain r d where ap: "decoder_append decode ids (gs_decoder s) = (r, d)" by force
  show ?thesis
  proof (cases r)
    case (Inl e)
    have "gs_done s' \<or> gs_dropping_deltas s'"
    proof (cases "\<exists>x. e = TokenizerError x")
      case True
      with assms(1) ap Inl nodrop show ?thesis
        using pump_cancel_dropping [of "s\<lparr>gs_decoder := d, gs_local_failure := Some f, gs_dropping_deltas := True\<rparr>" for f]
        by (auto simp: pump_delta_def) (metis fst_conv)
    next
      case False
      then have "pump_delta decode outcome ids (s, m) = pump_except e (s\<lparr>gs_decoder := d\<rparr>, m)"
        using ap Inl nodrop by (cases e) (simp_all add: pump_delta_def)
      with assms(1) pump_except_done [of e "(s\<lparr>gs_decoder := d\<rparr>, m)"] show ?thesis by simp
    qed
    with assms(2) show ?thesis by (simp add: clean_def)
  next
    case (Inr piece)
    then obtain decoded where dec: "decode (id_tokens (gs_decoder s) @ ids) = Inr decoded"
      "decoded = id_decoded (gs_decoder s) @ piece"
      "d = (gs_decoder s)\<lparr>id_tokens := id_tokens (gs_decoder s) @ ids, id_decoded := decoded\<rparr>"
      using ap by (auto simp: decoder_append_def Let_def prefix_def split: sum.splits if_splits)
    show ?thesis
    proof (cases "piece = []")
      case True
      with ap Inr nodrop assms have "s' = s\<lparr>gs_decoder := d\<rparr>" by (simp add: pump_delta_def Let_def)
      with assms(2) dec True show ?thesis by (simp add: text_step_def clean_def)
    next
      case False
      obtain ok b m1 where put: "ab_put_delta piece (gs_buffer s, m) = (ok, (b, m1))" by (metis prod_cases3)
      show ?thesis
      proof (cases ok)
        case True
        with put have b: "ab_deltas b = ab_deltas (gs_buffer s) @ [piece]" "ab_abandoned b = ab_abandoned (gs_buffer s)"
          by (auto simp: ab_put_delta_def split: if_splits)
        from True put ap Inr nodrop False assms have "s' = s\<lparr>gs_decoder := d, gs_buffer := b\<rparr>"
          by (simp add: pump_delta_def Let_def)
        with assms(2) dec b show ?thesis by (simp add: text_step_def clean_def)
      next
        case notok: False
        have "pump_delta decode outcome ids (s, m) = pump_cancel ''sse_backpressure'' outcome
            (s\<lparr>gs_decoder := d, gs_buffer := b, gs_dropping_deltas := True\<rparr>, m1)"
          using notok put ap Inr nodrop False by (simp add: pump_delta_def Let_def)
        with pump_cancel_dropping [of "s\<lparr>gs_decoder := d, gs_buffer := b, gs_dropping_deltas := True\<rparr>"] assms(1,2)
        show ?thesis by (simp add: clean_def) (metis fst_conv)
      qed
    qed
  qed
qed

lemma session_step_text:
  assumes cov: "covered (s, m)" and st: "session_step decode x (s, m) = (r, (s', m'))" and cl: "clean s'"
  shows "text_step decode (op_tokens x) (event_text r) s s'"
proof -
  have nd: "\<not> gs_done s"
    using session_step_effect [OF cov st] cl by (auto simp: metered_effect_def clean_def)
  show ?thesis
  proof (cases x)
    case (Pump outcome i)
    then have p: "pump_step decode outcome i (s, m) = (s', m')" "r = []" using st nd by auto
    show ?thesis
    proof (cases i)
      case (PumpEvent e)
      show ?thesis
      proof (cases e)
        case (EvDelta d)
        with p Pump PumpEvent pump_delta_text [OF _ cl nd] show ?thesis by simp
      next
        case (EvTerminal t)
        with p PumpEvent terminal_effect [OF cov nd, of t] cl show ?thesis by (simp add: clean_def)
      qed
    next
      case (PumpRaise e)
      with p pump_except_done [of e "(s, m)"] cl show ?thesis by (simp add: clean_def)
    qed
  next
    case (Consume e)
    then obtain g where n: "next_event e (s, m) = (g, (s', m'))" "r = got_event g"
      using st by (auto split: prod.splits)
    have "event_text (got_event g) @ concat (ab_deltas (gs_buffer s')) = concat (ab_deltas (gs_buffer s))"
      using next_event_effect [OF cov n(1)] arg_cong [of _ _ event_text] owed_text event_text_append by metis
    moreover have "gs_decoder s' = gs_decoder s" "clean s"
      using n(1) cl by (auto simp: next_event_def ab_get_def clean_def split: prod.splits list.splits option.splits if_splits)
    ultimately show ?thesis using n(2) Consume by (simp add: text_step_def)
  next
    case (Cancel reason outcome)
    have "s' = s\<lparr>gs_cancel_sent := gs_cancel_sent s'\<rparr>" "r = []"
      using Cancel st cancel_effect [OF cov, of reason outcome] by (cases "session_cancel reason outcome (s, m)"; auto)+
    then have "clean s" "gs_decoder s' = gs_decoder s" "gs_buffer s' = gs_buffer s" "r = []"
      using cl by (auto simp: clean_def) (metis Session.select_convs Session.surjective Session.update_convs)+
    then show ?thesis using Cancel by (simp add: text_step_def)
  next
    case DrainTimeout
    with st cl show ?thesis by (auto intro: text_step_refl)
  next
    case Abandon
    with st cl show ?thesis by (auto simp: session_abandon_def ab_abandon_def clean_def Let_def split: if_splits)
  qed
qed

lemma session_run_text:
  assumes "covered (s, m)" and "session_run decode ops (s, m) = (rs, (s', m'))" and "clean s'"
  shows "text_step decode (pumped ops) (event_text rs) s s'"
  using assms
proof (induction ops arbitrary: s m rs)
  case Nil
  then show ?case by (auto simp: pumped_def intro: text_step_refl)
next
  case (Cons x xs)
  obtain r s1 m1 where st: "session_step decode x (s, m) = (r, (s1, m1))" by (metis prod_cases3)
  obtain rs' where run: "session_run decode xs (s1, m1) = (rs', (s', m'))" and rs: "rs = r @ rs'"
    using Cons.prems(2) st by (auto split: prod.splits)
  have cov: "covered (s1, m1)" using session_step_effect [OF Cons.prems(1) st] by blast
  have t2: "text_step decode (pumped xs) (event_text rs') s1 s'" by (rule Cons.IH [OF cov run Cons.prems(3)])
  then have "clean s1" by (simp add: text_step_def)
  from text_step_trans [OF session_step_text [OF Cons.prems(1) st this] t2] show ?case
    by (simp add: pumped_def rs)
qed

section \<open>One terminal, last\<close>

definition terminal_part :: "Session \<Rightarrow> Session \<Rightarrow> (string + GatewayTerminal) list" where
  "terminal_part s s' =
     (if ab_terminal_delivered (gs_buffer s') \<and> \<not> ab_terminal_delivered (gs_buffer s)
      then map Inr (option_list (gs_terminal s')) else [])"

definition shaped :: "(string + GatewayTerminal) list \<Rightarrow> Session \<Rightarrow> Session \<Rightarrow> bool" where
  "shaped rs s s' \<longleftrightarrow>
     (\<exists>ts. rs = map Inl ts @ terminal_part s s' \<and> (ab_terminal_delivered (gs_buffer s) \<longrightarrow> ts = [])) \<and>
     (ab_terminal_delivered (gs_buffer s) \<longrightarrow>
        ab_terminal_delivered (gs_buffer s') \<and> gs_terminal s' = gs_terminal s)"

lemma shaped_trans:
  assumes "shaped r s s1" and "shaped r' s1 s'"
  shows "shaped (r @ r') s s'"
proof (cases "ab_terminal_delivered (gs_buffer s1)")
  case True
  with assms show ?thesis by (auto simp: shaped_def terminal_part_def)
next
  case False
  with assms(1) have "\<not> ab_terminal_delivered (gs_buffer s)" by (auto simp: shaped_def)
  moreover from False assms(1) obtain ts where "r = map Inl ts" by (auto simp: shaped_def terminal_part_def)
  moreover from False assms(2) obtain us where "r' = map Inl us @ terminal_part s1 s'" by (auto simp: shaped_def)
  ultimately show ?thesis using False
    by (auto simp: shaped_def terminal_part_def intro!: exI [of _ "ts @ us"])
qed

lemma shaped_silent:
  assumes "covered (s, m)" and "metered_effect (s, m) (s', m')"
    and "ab_terminal_delivered (gs_buffer s') = ab_terminal_delivered (gs_buffer s)"
  shows "shaped [] s s'"
  using assms
  by (auto simp: shaped_def terminal_part_def covered_def session_ok_def metered_effect_def async_sound_def
      fields_sound_def)

lemma pump_delivered:
  "ab_terminal_delivered (gs_buffer (fst (pump_step decode outcome i (s, m)))) =
     ab_terminal_delivered (gs_buffer s)"
  by (cases "(decode, outcome, i, (s, m))" rule: pump_step.cases)
    (auto simp: pump_delta_def pump_terminal_def pump_cancel_def pump_except_def session_cancel_def
      session_finish_def set_done_def ab_put_terminal_def ab_put_delta_def Let_def
      split: sum.splits prod.splits if_splits bool.splits exn.splits)

lemma session_step_shaped:
  assumes cov: "covered (s, m)" and st: "session_step decode x (s, m) = (r, (s', m'))"
  shows "shaped r s s'"
proof -
  have eff: "metered_effect (s, m) (s', m')" using session_step_effect [OF cov st] by blast
  note silent = shaped_silent [OF cov eff]
  show ?thesis
  proof (cases x)
    case (Pump outcome i)
    then have "r = []" "ab_terminal_delivered (gs_buffer s') = ab_terminal_delivered (gs_buffer s)"
      using st pump_delivered [of decode outcome i s m] by (auto split: if_splits)
    with silent show ?thesis by blast
  next
    case (Consume e)
    then obtain g where n: "next_event e (s, m) = (g, (s', m'))" "r = got_event g"
      using st by (auto split: prod.splits)
    have ok: "async_sound (gs_buffer s)" "gs_terminal s = ab_terminal (gs_buffer s)"
      using cov by (auto simp: covered_def session_ok_def)
    show ?thesis
    proof (cases "ab_deltas (gs_buffer s)")
      case (Cons d ds)
      with n ok have "r = [Inl d]" "\<not> ab_terminal_delivered (gs_buffer s)" "\<not> ab_terminal_delivered (gs_buffer s')"
        by (auto simp: next_event_def ab_get_def async_sound_def fields_sound_def)
      then show ?thesis by (auto simp: shaped_def terminal_part_def intro!: exI [of _ "[d]"])
    next
      case Nil
      show ?thesis
      proof (cases "ab_terminal (gs_buffer s)")
        case None
        with n Nil have "r = []" "s' = s" by (auto simp: next_event_def ab_get_def split: if_splits)
        with silent show ?thesis by simp
      next
        case (Some t)
        with n Nil ok show ?thesis
          by (cases "ab_terminal_delivered (gs_buffer s)")
            (auto simp: next_event_def ab_get_def shaped_def terminal_part_def)
      qed
    qed
  next
    case (Cancel reason outcome)
    have "s' = s\<lparr>gs_cancel_sent := gs_cancel_sent s'\<rparr>" "r = []"
      using Cancel st cancel_effect [OF cov, of reason outcome] by (cases "session_cancel reason outcome (s, m)"; auto)+
    moreover from this(1) have "gs_buffer s' = gs_buffer s"
      by (metis Session.select_convs(3) Session.surjective Session.update_convs(4))
    ultimately show ?thesis using silent by simp
  next
    case DrainTimeout
    with st silent show ?thesis by auto
  next
    case Abandon
    then have "r = []" "ab_terminal_delivered (gs_buffer s') = ab_terminal_delivered (gs_buffer s)"
      using st by (auto simp: session_abandon_def ab_abandon_def Let_def split: if_splits)
    with silent show ?thesis by blast
  qed
qed

lemma session_run_shaped:
  assumes "covered (s, m)" and "session_run decode ops (s, m) = (rs, (s', m'))"
  shows "shaped rs s s'"
  using assms
proof (induction ops arbitrary: s m rs)
  case Nil
  then show ?case using shaped_silent [OF Nil.prems(1) metered_effect_refl [OF Nil.prems(1)]] by simp
next
  case (Cons x xs)
  obtain r s1 m1 where st: "session_step decode x (s, m) = (r, (s1, m1))" by (metis prod_cases3)
  obtain rs' where run: "session_run decode xs (s1, m1) = (rs', (s', m'))" and rs: "rs = r @ rs'"
    using Cons.prems(2) st by (auto split: prod.splits)
  have cov: "covered (s1, m1)" using session_step_effect [OF Cons.prems(1) st] by blast
  from shaped_trans [OF session_step_shaped [OF Cons.prems(1) st] Cons.IH [OF cov run]] rs show ?case by simp
qed

lemma fresh_covered:
  "0 \<le> n \<Longrightarrow> metrics_ok m \<Longrightarrow> 1 \<le> me_active m \<Longrightarrow> covered (GatewaySession_init i n, m)"
  by (simp add: covered_def session_ok_def GatewaySession_init_def pending_count_def done_count_def
      metrics_ok_def) (simp add: AsyncEventBuffer_init_def)

section \<open>Properties\<close>

definition sample_metrics :: GatewayMetrics where
  "sample_metrics = metrics_accepted GatewayMetrics_init"

definition sample_delta :: "int list \<Rightarrow> TokenDelta" where
  "sample_delta ids = \<lparr>td_request_id = 1, td_sequence_no = 0, td_token_ids = ids\<rparr>"

definition sample_terminal :: Terminal where
  "sample_terminal = \<lparr>tm_request_id = 1, tm_status = Status_make ''ok'' [], tm_finish_reason = Some ''eos'',
     tm_usage = \<lparr>us_prompt_tokens = 2, us_completion_tokens = 2\<rparr>\<rparr>"

definition sample_decode :: decode_fun where
  "sample_decode ids = Inr (map (\<lambda>i. if i = 104 then CHR ''h'' else CHR ''i'') ids)"

lemma sample_metrics_ok: "metrics_ok sample_metrics" "me_active sample_metrics = 1"
  by (simp_all add: sample_metrics_def) (simp add: metrics_accepted_def GatewayMetrics_init_def)

text \<open>
  C24. A session streams exactly the decoded text: after any sequence of pump iterations,
  consumer reads and cancellations, while the session is running and nothing was dropped,
  the text the consumer has received followed by the text still queued is what the tokenizer
  decodes from all the tokens the Worker produced; and a terminal that then arrives is passed
  on with the Worker's status, finish reason and usage, after that text.
\<close>

theorem session_streams_decoded_text:
  assumes "0 \<le> n" and "metrics_ok m" and "1 \<le> me_active m"
    and "session_run decode ops (GatewaySession_init i n, m) = (rs, (s, m'))" and "clean s"
  shows "(if pumped ops = [] then event_text rs @ concat (ab_deltas (gs_buffer s)) = []
          else decode (concat (pumped ops)) = Inr (event_text rs @ concat (ab_deltas (gs_buffer s)))) \<and>
    (case pump_terminal t (s, m') of (s', _) \<Rightarrow>
       gs_done s' \<and> ab_deltas (gs_buffer s') = ab_deltas (gs_buffer s) \<and>
       ab_terminal (gs_buffer s') = Some \<lparr>gt_status = tm_status t, gt_finish_reason = tm_finish_reason t,
          gt_usage = tm_usage t\<rparr>)"
proof -
  note cov = fresh_covered [OF assms(1-3), of i]
  have cov': "covered (s, m')" using session_run_effect [OF cov assms(4)] by blast
  have init: "id_tokens (gs_decoder (GatewaySession_init i n)) = []" "id_decoded (gs_decoder (GatewaySession_init i n)) = []"
    "ab_deltas (gs_buffer (GatewaySession_init i n)) = []"
    by (simp_all add: GatewaySession_init_def IncrementalDecoder_init_def AsyncEventBuffer_init_def)
  from session_run_text [OF cov assms(4,5)]
  have 1: "if pumped ops = [] then event_text rs @ concat (ab_deltas (gs_buffer s)) = []
          else decode (concat (pumped ops)) = Inr (event_text rs @ concat (ab_deltas (gs_buffer s)))"
    by (auto simp: text_step_def init split: if_splits)
  have nf: "gs_local_failure s = None" and nd: "\<not> gs_done s"
    using cov' assms(5) by (auto simp: covered_def session_ok_def clean_def)
  from finish_effect [OF cov' nd, of "\<lparr>gt_status = tm_status t, gt_finish_reason = tm_finish_reason t, gt_usage = tm_usage t\<rparr>"]
  have "case pump_terminal t (s, m') of (s', _) \<Rightarrow>
       gs_done s' \<and> ab_deltas (gs_buffer s') = ab_deltas (gs_buffer s) \<and>
       ab_terminal (gs_buffer s') = Some \<lparr>gt_status = tm_status t, gt_finish_reason = tm_finish_reason t,
          gt_usage = tm_usage t\<rparr>"
    by (auto simp: pump_terminal_def Let_def nf set_done_def session_ok_def)
  with 1 show ?thesis by blast
qed

theorem session_streams_decoded_text_witness:
  "sample_decode [104, 105] = Inr ''hi''"
proof -
  let ?ops = "[Pump (Inr True) (PumpEvent (EvDelta (sample_delta [104]))), Consume False,
    Pump (Inr True) (PumpEvent (EvDelta (sample_delta [105])))]"
  obtain rs s m' where run: "session_run sample_decode ?ops (GatewaySession_init 1 4, sample_metrics) = (rs, (s, m'))"
    by (metis prod_cases3)
  have "rs = [Inl ''h'']" "clean s" "ab_deltas (gs_buffer s) = [''i'']"
    using run by (auto simp: GatewaySession_init_def IncrementalDecoder_init_def AsyncEventBuffer_init_def
        pump_delta_def decoder_append_def sample_decode_def sample_delta_def ab_put_delta_def next_event_def ab_get_def
        clean_def Let_def)
  with session_streams_decoded_text [OF _ _ _ run, of sample_terminal] sample_metrics_ok show ?thesis
    by (simp add: pumped_def sample_delta_def)
qed

text \<open>
  C25. Exactly one terminal per session: whatever the pump, the consumer, cancellations and
  abandonment do and in whatever order, the consumer receives texts followed by at most one
  terminal; the session is done exactly when its terminal is set, the metrics count exactly
  one terminal (and one active request less) for it, and at most one cancel is counted.
\<close>

theorem session_one_terminal:
  assumes "0 \<le> n" and "metrics_ok m" and "1 \<le> me_active m"
    and "session_run decode ops (GatewaySession_init i n, m) = (rs, (s, m'))"
  shows "(\<exists>ts. rs = map Inl ts @
            (if ab_terminal_delivered (gs_buffer s) then map Inr (option_list (gs_terminal s)) else [])) \<and>
    (gs_done s \<longleftrightarrow> gs_terminal s \<noteq> None) \<and>
    counter_total (me_terminals m') = counter_total (me_terminals m) + (if gs_done s then 1 else 0) \<and>
    me_active m' = me_active m - (if gs_done s then 1 else 0) \<and>
    cancel_count m' \<le> cancel_count m + 1"
proof -
  note cov = fresh_covered [OF assms(1-3), of i]
  have init: "\<not> gs_done (GatewaySession_init i n)" "\<not> ab_terminal_delivered (gs_buffer (GatewaySession_init i n))"
    "\<not> gs_cancel_sent (GatewaySession_init i n)"
    by (simp_all add: GatewaySession_init_def AsyncEventBuffer_init_def)
  from session_run_effect [OF cov assms(4)] session_run_shaped [OF cov assms(4)] init show ?thesis
    by (auto simp: shaped_def terminal_part_def metered_effect_def covered_def session_ok_def done_count_def
        split: if_splits)
qed

theorem session_one_terminal_witness:
  "let (rs, (s, m')) = session_run sample_decode
         [Pump (Inr True) (PumpRaise (WorkerUnavailableError ''gone'')), Consume False, Consume False, Abandon]
         (GatewaySession_init 1 4, sample_metrics)
   in gs_done s \<and> counter_total (me_terminals m') = 1"
proof -
  let ?ops = "[Pump (Inr True) (PumpRaise (WorkerUnavailableError ''gone'')), Consume False, Consume False, Abandon]"
  obtain rs s m' where run: "session_run sample_decode ?ops (GatewaySession_init 1 4, sample_metrics) = (rs, (s, m'))"
    by (metis prod_cases3)
  have "gs_done s"
    using run by (auto simp: GatewaySession_init_def AsyncEventBuffer_init_def pump_except_def session_finish_def
        ab_put_terminal_def set_done_def next_event_def ab_get_def session_abandon_def ab_abandon_def Let_def)
  with session_one_terminal [OF _ _ _ run] sample_metrics_ok run show ?thesis
    by (simp add: sample_metrics_def metrics_accepted_def GatewayMetrics_init_def)
qed


end
