(* ===== verification/Tokenizer.thy ===== *)
theory Tokenizer
  imports Protocol
begin

text \<open>
  \<open>tokenizer.py\<close>: the wrapper around a Hugging Face tokenizer. The tokenizer object itself is
  third-party code, so its methods are the fields of \<open>hf_tokenizer\<close>: each returns a Python
  value or raises, and the raised exception is its message. A value that has a \<open>tolist\<close> method (a
  tensor) is \<open>PyTensor\<close> of the list it converts to. The SHA-256 of the fingerprints is the
  parameter \<open>sha256\<close>, and the files of the tokenizer directory are the association list of
  the regular files in it.
\<close>

section \<open>The wrapped tokenizer\<close>

datatype pyvalue =
    PyValue json
  | PyTuple "json list"
  | PyTensor json

type_synonym chat_message = "string \<times> string" \<comment> \<open>role and content\<close>

record hf_tokenizer =
  hf_eos_token_id :: json
  hf_pad_token_id :: json
  hf_chat_template :: json
  hf_apply_chat_template :: "chat_message list \<Rightarrow> string + pyvalue"
  hf_encode :: "string \<Rightarrow> string + pyvalue"
  hf_decode :: "int list \<Rightarrow> string + string"

section \<open>Fingerprints\<close>

definition TOKENIZER_FINGERPRINT_VERSION :: bytes where
  "TOKENIZER_FINGERPRINT_VERSION = utf8 ''kim-llm-tokenizer-fingerprint-v1'' @ [0]"

definition CHAT_TEMPLATE_FINGERPRINT_VERSION :: bytes where
  "CHAT_TEMPLATE_FINGERPRINT_VERSION = utf8 ''kim-llm-chat-template-v1'' @ [0]"

definition TOKENIZER_ASSET_NAMES :: "string list" where
  "TOKENIZER_ASSET_NAMES =
     [''tokenizer.json'', ''tokenizer.model'', ''spiece.model'', ''tokenizer_config.json'',
      ''special_tokens_map.json'', ''added_tokens.json'']"

text \<open>\<open>n.to_bytes(k, "big")\<close>\<close>

fun to_bytes :: "nat \<Rightarrow> nat \<Rightarrow> bytes" where
  "to_bytes 0 n = []"
| "to_bytes (Suc k) n = to_bytes k (n div 256) @ [of_nat (n mod 256)]"

definition asset_record :: "string \<times> bytes \<Rightarrow> bytes" where
  "asset_record a =
     to_bytes 4 (length (fst a)) @ utf8 (fst a) @ to_bytes 8 (length (snd a)) @ snd a"

definition present_assets :: "(string, bytes) dict \<Rightarrow> (string \<times> bytes) list" where
  "present_assets files =
     List.map_filter (\<lambda>name. map_option (Pair name) (map_of files name)) TOKENIZER_ASSET_NAMES"

definition fingerprint_tokenizer_assets ::
  "(bytes \<Rightarrow> string) \<Rightarrow> string \<Rightarrow> (string, bytes) dict option \<Rightarrow> string result" where
  "fingerprint_tokenizer_assets sha256 root_path directory =
     (case directory of
        None \<Rightarrow> Inl (TokenizerError (''Tokenizer directory does not exist: '' @ root_path))
      | Some files \<Rightarrow>
          let assets = present_assets files in
          if \<not> list_ex (\<lambda>a. fst a \<in> set [''tokenizer.json'', ''tokenizer.model'', ''spiece.model'']) assets
          then Inl (TokenizerError
            ''Tokenizer directory has no tokenizer.json, tokenizer.model, or spiece.model'')
          else Inr (''sha256:'' @
                 sha256 (TOKENIZER_FINGERPRINT_VERSION @ concat (map asset_record assets))))"

definition fingerprint_chat_template :: "(bytes \<Rightarrow> string) \<Rightarrow> string \<Rightarrow> string result" where
  "fingerprint_chat_template sha256 chat_template =
     rbind (guard (chat_template \<noteq> []) (TokenizerError ''Tokenizer does not define a chat template'')) (\<lambda>_.
     Inr (''sha256:'' @ sha256 (CHAT_TEMPLATE_FINGERPRINT_VERSION @ utf8 chat_template)))"

section \<open>\<open>HuggingFaceTokenizer\<close>\<close>

record HuggingFaceTokenizer =
  tk_tokenizer :: hf_tokenizer
  tk_eos_token_id :: int
  tk_pad_token_id :: int
  tk_tokenizer_fingerprint :: string
  tk_chat_template_fingerprint :: string

definition token_id_attribute :: "json \<Rightarrow> string \<Rightarrow> int result" where
  "token_id_attribute v message =
     (case v of
        JInt n \<Rightarrow> if n < 0 then Inl (TokenizerError message) else Inr n
      | _ \<Rightarrow> Inl (TokenizerError message))"

definition HuggingFaceTokenizer_init ::
  "(bytes \<Rightarrow> string) \<Rightarrow> hf_tokenizer \<Rightarrow> string \<Rightarrow> (string, bytes) dict option \<Rightarrow> HuggingFaceTokenizer result" where
  "HuggingFaceTokenizer_init sha256 tokenizer root_path directory =
     rbind (token_id_attribute (hf_eos_token_id tokenizer)
              ''Tokenizer eos_token_id is missing or invalid'') (\<lambda>eos.
     rbind (token_id_attribute
              (if hf_pad_token_id tokenizer = JNull then JInt eos else hf_pad_token_id tokenizer)
              ''Tokenizer pad_token_id is invalid'') (\<lambda>pad.
     rbind (case hf_chat_template tokenizer of
              JStr s \<Rightarrow> if s = [] then Inl (TokenizerError ''Tokenizer chat_template is missing'') else Inr s
            | _ \<Rightarrow> Inl (TokenizerError ''Tokenizer chat_template is missing'')) (\<lambda>template.
     rbind (fingerprint_tokenizer_assets sha256 root_path directory) (\<lambda>tokenizer_fingerprint.
     rbind (fingerprint_chat_template sha256 template) (\<lambda>chat_template_fingerprint.
     Inr \<lparr>tk_tokenizer = tokenizer, tk_eos_token_id = eos, tk_pad_token_id = pad,
          tk_tokenizer_fingerprint = tokenizer_fingerprint,
          tk_chat_template_fingerprint = chat_template_fingerprint\<rparr>)))))"

text \<open>\<open>repr\<close> of the compared values: an integer is its decimal text; the text of a string is
  the parameter \<open>srepr\<close>.\<close>

definition mismatch :: "string \<Rightarrow> bool \<Rightarrow> string \<Rightarrow> string \<Rightarrow> string list" where
  "mismatch name same actual expected =
     (if same then [] else [name @ '': expected '' @ expected @ '', got '' @ actual])"

definition manifest_mismatches :: "(string \<Rightarrow> string) \<Rightarrow> HuggingFaceTokenizer \<Rightarrow> ModelManifest \<Rightarrow> string list" where
  "manifest_mismatches srepr t manifest =
     mismatch ''tokenizer_fingerprint''
       (tk_tokenizer_fingerprint t = mm_tokenizer_fingerprint manifest)
       (srepr (tk_tokenizer_fingerprint t)) (srepr (mm_tokenizer_fingerprint manifest)) @
     mismatch ''chat_template_fingerprint''
       (tk_chat_template_fingerprint t = mm_chat_template_fingerprint manifest)
       (srepr (tk_chat_template_fingerprint t)) (srepr (mm_chat_template_fingerprint manifest)) @
     mismatch ''eos_token_id'' (tk_eos_token_id t = mm_eos_token_id manifest)
       (show_int (tk_eos_token_id t)) (show_int (mm_eos_token_id manifest)) @
     mismatch ''pad_token_id'' (tk_pad_token_id t = mm_pad_token_id manifest)
       (show_int (tk_pad_token_id t)) (show_int (mm_pad_token_id manifest))"

definition tokenizer_validate_manifest ::
  "(string \<Rightarrow> string) \<Rightarrow> HuggingFaceTokenizer \<Rightarrow> ModelManifest \<Rightarrow> unit result" where
  "tokenizer_validate_manifest srepr t manifest =
     (let mismatches = manifest_mismatches srepr t manifest in
      guard (mismatches = [])
        (TokenizerError (''Tokenizer/Worker manifest mismatch: '' @ join ''; '' mismatches)))"

fun json_token_id :: "json \<Rightarrow> int option" where
  "json_token_id (JInt n) = (if n < 0 then None else Some n)"
| "json_token_id _ = None"

definition normalize_list :: "json list \<Rightarrow> string \<Rightarrow> int list result" where
  "normalize_list xs description =
     (if xs = [] \<or> list_ex (\<lambda>x. json_token_id x = None) xs
      then Inl (TokenizerError (description @ '' produced invalid Token IDs''))
      else Inr (map (\<lambda>x. the (json_token_id x)) xs))"

definition normalize_token_ids :: "pyvalue \<Rightarrow> string \<Rightarrow> int list result" where
  "normalize_token_ids v description =
     (case v of
        PyValue (JList xs) \<Rightarrow> normalize_list xs description
      | PyTensor (JList xs) \<Rightarrow> normalize_list xs description
      | PyTuple xs \<Rightarrow> normalize_list xs description
      | _ \<Rightarrow> Inl (TokenizerError (description @ '' produced invalid Token IDs'')))"

definition encode_chat :: "HuggingFaceTokenizer \<Rightarrow> chat_message list \<Rightarrow> int list result" where
  "encode_chat t messages =
     (case hf_apply_chat_template (tk_tokenizer t) messages of
        Inl m \<Rightarrow> Inl (TokenizerError (''failed to apply chat template: '' @ m))
      | Inr v \<Rightarrow> normalize_token_ids v ''chat template'')"

definition encode_text :: "HuggingFaceTokenizer \<Rightarrow> string \<Rightarrow> int list result" where
  "encode_text t s =
     (case hf_encode (tk_tokenizer t) s of
        Inl m \<Rightarrow> Inl (TokenizerError (''failed to tokenize stop sequence: '' @ m))
      | Inr v \<Rightarrow> normalize_token_ids v ''text'')"

definition tokenizer_decode :: "HuggingFaceTokenizer \<Rightarrow> int list \<Rightarrow> string result" where
  "tokenizer_decode t token_ids =
     (case hf_decode (tk_tokenizer t) token_ids of
        Inl m \<Rightarrow> Inl (TokenizerError (''failed to decode generated tokens: '' @ m))
      | Inr s \<Rightarrow> Inr s)"

section \<open>The contract of a tokenizer\<close>

text \<open>
  What the Gateway relies on (\<open>class Tokenizer(Protocol)\<close>): the methods raise nothing but
  \<open>TokenizerError\<close>, and token ids are non-empty lists of non-negative integers.
\<close>

definition only_TokenizerError :: "'a result \<Rightarrow> bool" where
  "only_TokenizerError r \<longleftrightarrow> (case r of Inl (TokenizerError _) \<Rightarrow> True | Inl _ \<Rightarrow> False | Inr _ \<Rightarrow> True)"

locale tokenizer_contract =
  fixes encode_chat_op :: "chat_message list \<Rightarrow> int list result"
    and encode_text_op :: "string \<Rightarrow> int list result"
    and decode_op :: "int list \<Rightarrow> string result"
  assumes chat_raises: "only_TokenizerError (encode_chat_op messages)"
    and text_raises: "only_TokenizerError (encode_text_op s)"
    and decode_raises: "only_TokenizerError (decode_op ids)"
    and chat_ids: "encode_chat_op messages = Inr ids \<Longrightarrow> ids \<noteq> [] \<and> list_all (\<lambda>i. 0 \<le> i) ids"
    and text_ids: "encode_text_op s = Inr ids \<Longrightarrow> ids \<noteq> [] \<and> list_all (\<lambda>i. 0 \<le> i) ids"
begin

lemma stops_raise: "only_TokenizerError (rmap encode_text_op ss)"
proof (cases "rmap encode_text_op ss")
  case (Inl e)
  then obtain s where "encode_text_op s = Inl e" by (auto simp: rmap_Inl_first)
  with text_raises [of s] Inl show ?thesis by (simp add: only_TokenizerError_def)
next
  case (Inr ids)
  then show ?thesis by (simp add: only_TokenizerError_def)
qed

lemma stops_ids:
  assumes "rmap encode_text_op ss = Inr seqs"
  shows "list_all (\<lambda>ids. ids \<noteq> [] \<and> list_all (\<lambda>i. 0 \<le> i) ids) seqs"
  using rmap_set [OF assms] text_ids by (fastforce simp: list_all_iff)

end

lemma normalize_list_cases:
  "only_TokenizerError (normalize_list xs d) \<and>
   (normalize_list xs d = Inr ids \<longrightarrow> ids \<noteq> [] \<and> list_all (\<lambda>i. 0 \<le> i) ids)"
proof -
  have nn: "0 \<le> n" if "json_token_id x = Some n" for x n
    using that by (cases x) (auto split: if_splits)
  have "0 \<le> the (json_token_id x)" if "json_token_id x \<noteq> None" for x
    using that nn by auto
  then show ?thesis
    by (auto simp: normalize_list_def only_TokenizerError_def list_ex_iff list_all_iff)
qed

lemma normalize_token_ids_cases:
  "only_TokenizerError (normalize_token_ids v d) \<and>
   (normalize_token_ids v d = Inr ids \<longrightarrow> ids \<noteq> [] \<and> list_all (\<lambda>i. 0 \<le> i) ids)"
  using normalize_list_cases
  by (auto simp: normalize_token_ids_def only_TokenizerError_def split: pyvalue.splits json.splits)

interpretation hft: tokenizer_contract "encode_chat t" "encode_text t" "tokenizer_decode t" for t
proof
  show "only_TokenizerError (encode_chat t messages)" for messages
    by (cases "hf_apply_chat_template (tk_tokenizer t) messages")
      (simp_all add: encode_chat_def normalize_token_ids_cases, simp add: only_TokenizerError_def)
  show "only_TokenizerError (encode_text t s)" for s
    by (cases "hf_encode (tk_tokenizer t) s")
      (simp_all add: encode_text_def normalize_token_ids_cases, simp add: only_TokenizerError_def)
  show "only_TokenizerError (tokenizer_decode t ids)" for ids
    by (auto simp: tokenizer_decode_def only_TokenizerError_def split: sum.splits)
  show "ids \<noteq> [] \<and> list_all (\<lambda>i. 0 \<le> i) ids" if "encode_chat t messages = Inr ids" for messages ids
    using that normalize_token_ids_cases by (auto simp: encode_chat_def split: sum.splits)
  show "ids \<noteq> [] \<and> list_all (\<lambda>i. 0 \<le> i) ids" if "encode_text t s = Inr ids" for s ids
    using that normalize_token_ids_cases by (auto simp: encode_text_def split: sum.splits)
qed

section \<open>Properties\<close>

lemma to_bytes_length [simp]: "length (to_bytes k n) = k"
  by (induction k arbitrary: n) auto

lemma to_bytes_inj: "to_bytes k m = to_bytes k n \<Longrightarrow> m < 256 ^ k \<Longrightarrow> n < 256 ^ k \<Longrightarrow> m = n"
proof (induction k arbitrary: m n)
  case 0
  then show ?case by simp
next
  case (Suc k)
  have "to_bytes k (m div 256) = to_bytes k (n div 256)" "(of_nat (m mod 256) :: byte) = of_nat (n mod 256)"
    using Suc.prems(1) by auto
  moreover have "m div 256 < 256 ^ k" "n div 256 < 256 ^ k"
    using Suc.prems(2,3) by (simp_all add: less_mult_imp_div_less mult.commute)
  moreover have "m mod 256 = n mod 256"
    using calculation(2) by (simp add: word_of_nat_eq_iff take_bit_eq_mod)
  ultimately have "m div 256 = n div 256" "m mod 256 = n mod 256" using Suc.IH by blast+
  then show ?case by (metis div_mult_mod_eq)
qed

lemma asset_record_inj:
  assumes "asset_record a @ u = asset_record b @ v"
    and "length (fst a) < 256 ^ 4" "length (fst b) < 256 ^ 4" "length (snd a) < 256 ^ 8" "length (snd b) < 256 ^ 8"
  shows "a = b \<and> u = v"
proof -
  have "to_bytes 4 (length (fst a)) = to_bytes 4 (length (fst b))"
    using assms(1) by (simp add: asset_record_def)
  with assms have n: "length (fst a) = length (fst b)" using to_bytes_inj by blast
  with assms(1) have 1: "utf8 (fst a) = utf8 (fst b)"
    "to_bytes 8 (length (snd a)) @ snd a @ u = to_bytes 8 (length (snd b)) @ snd b @ v"
    by (auto simp: asset_record_def)
  then have "to_bytes 8 (length (snd a)) = to_bytes 8 (length (snd b))" by simp
  with assms have "length (snd a) = length (snd b)" using to_bytes_inj by blast
  with 1 have 2: "snd a = snd b" "u = v" by auto
  have "fst a = fst b" using 1(1) by (simp add: utf8_inject)
  with 2 show ?thesis by (simp add: prod_eq_iff)
qed

lemma asset_record_ne [simp]: "asset_record a \<noteq> []"
proof
  assume "asset_record a = []"
  then have "length (asset_record a) = 0" by simp
  then show False by (simp add: asset_record_def)
qed

lemma asset_records_inj:
  assumes "concat (map asset_record xs) = concat (map asset_record ys)"
    and "list_all (\<lambda>a. length (fst a) < 256 ^ 4 \<and> length (snd a) < 256 ^ 8) xs"
    and "list_all (\<lambda>a. length (fst a) < 256 ^ 4 \<and> length (snd a) < 256 ^ 8) ys"
  shows "xs = ys"
  using assms
proof (induction xs arbitrary: ys)
  case Nil
  then show ?case by (cases ys) auto
next
  case (Cons a xs)
  show ?case
  proof (cases ys)
    case Nil
    with Cons.prems(1) show ?thesis by simp
  next
    case (Cons b ys')
    with asset_record_inj [of a "concat (map asset_record xs)" b "concat (map asset_record ys')"] Cons.prems
    have "a = b \<and> concat (map asset_record xs) = concat (map asset_record ys')" by simp
    with Cons.IH [of ys'] Cons Cons.prems show ?thesis by simp
  qed
qed

lemma asset_names_short: "a \<in> set (present_assets files) \<Longrightarrow> length (fst a) < 256 ^ 4"
  by (auto simp: present_assets_def map_filter_def TOKENIZER_ASSET_NAMES_def split: if_splits)

text \<open>What is hashed for a directory.\<close>

definition fingerprint_input :: "(string, bytes) dict \<Rightarrow> bytes" where
  "fingerprint_input files = TOKENIZER_FINGERPRINT_VERSION @ concat (map asset_record (present_assets files))"

text \<open>
  C38. The tokenizer fingerprint pins the assets up to a hash collision: two directories with
  the same fingerprint contain the same tokenizer asset files with the same contents, unless
  the two different byte strings that were hashed are a collision of SHA-256 (files below
  \<open>2 ^ 64\<close> bytes, the range of the length field).
\<close>

theorem fingerprint_pins_assets:
  assumes "list_all (\<lambda>a. length (snd a) < 256 ^ 8) (present_assets files)"
    and "list_all (\<lambda>a. length (snd a) < 256 ^ 8) (present_assets files')"
    and "fingerprint_tokenizer_assets sha256 r (Some files) = Inr fp"
    and "fingerprint_tokenizer_assets sha256 r' (Some files') = Inr fp"
    and "present_assets files \<noteq> present_assets files'"
  shows "fingerprint_input files \<noteq> fingerprint_input files' \<and>
    sha256 (fingerprint_input files) = sha256 (fingerprint_input files')"
proof
  have "concat (map asset_record (present_assets files)) \<noteq> concat (map asset_record (present_assets files'))"
    using assms(5) asset_records_inj [of "present_assets files" "present_assets files'"] assms(1,2) asset_names_short
    by (auto simp: list_all_iff)
  then show "fingerprint_input files \<noteq> fingerprint_input files'" by (simp add: fingerprint_input_def)
  show "sha256 (fingerprint_input files) = sha256 (fingerprint_input files')"
    using assms(3,4) by (auto simp: fingerprint_tokenizer_assets_def fingerprint_input_def Let_def split: if_splits)
qed

theorem fingerprint_pins_assets_witness:
  "fingerprint_input [(''tokenizer.json'', [1, 2])] \<noteq> fingerprint_input [(''tokenizer.json'', [1]), (''README'', [3])]"
  using fingerprint_pins_assets [of "[(''tokenizer.json'', [1, 2])]" "[(''tokenizer.json'', [1]), (''README'', [3])]"
      "\<lambda>_. ''00''" "''a''" "''sha256:00''" "''b''"]
  by (simp add: fingerprint_tokenizer_assets_def present_assets_def map_filter_def TOKENIZER_ASSET_NAMES_def)

text \<open>
  A tokenizer that passes the manifest check has exactly the manifest's fingerprints and
  special token ids, and a failing check names every differing field.
\<close>

theorem validate_manifest_exact:
  "(tokenizer_validate_manifest srepr t manifest = Inr () \<longleftrightarrow>
      tk_tokenizer_fingerprint t = mm_tokenizer_fingerprint manifest \<and>
      tk_chat_template_fingerprint t = mm_chat_template_fingerprint manifest \<and>
      tk_eos_token_id t = mm_eos_token_id manifest \<and> tk_pad_token_id t = mm_pad_token_id manifest) \<and>
   length (manifest_mismatches srepr t manifest) =
     (if tk_tokenizer_fingerprint t = mm_tokenizer_fingerprint manifest then 0 else 1) +
     (if tk_chat_template_fingerprint t = mm_chat_template_fingerprint manifest then 0 else 1) +
     (if tk_eos_token_id t = mm_eos_token_id manifest then 0 else 1) +
     (if tk_pad_token_id t = mm_pad_token_id manifest then 0 else 1)"
  by (auto simp: tokenizer_validate_manifest_def manifest_mismatches_def mismatch_def Let_def result_simps)

end
