(* ===== verification/Service.thy ===== *)
theory Service
  imports Session Tokenizer
begin

text \<open>
  \<open>GatewayService\<close> of \<open>runtime.py\<close>: readiness, submission with admission checks, the table of
  active sessions, detached drains and shutdown. The GenerationClient it uses is an argument:
  the record \<open>client_ops\<close> holds the methods of \<open>GenerationClientLike\<close> acting on a client
  state of any type (\<open>Gateway\<close> instantiates it with the verified client). Sessions are
  shared objects and live in the store \<open>sv_sessions\<close>.
\<close>

section \<open>Statuses and options\<close>

definition status_http :: "(string \<times> int) list" where
  "status_http =
     [(''invalid_input'', 400), (''invalid_shape'', 400), (''already_exists'', 409),
      (''not_ready'', 503), (''resource_exhausted'', 429), (''slo_predicted_miss'', 429),
      (''queue_full'', 429), (''unavailable'', 503), (''engine_not_found'', 503),
      (''context_unavailable'', 503), (''timeout'', 504), (''cancelled'', 499)]"

definition gateway_error_from_status :: "Status \<Rightarrow> GatewayError" where
  "gateway_error_from_status status =
     (let http_status = (case map_of status_http (st_code status) of None \<Rightarrow> 500 | Some h \<Rightarrow> h);
          error_type = (if http_status \<in> {400, 409, 429} then ''invalid_request_error'' else ''server_error'');
          message = (if st_message status \<noteq> [] then st_message status
                     else ''generation failed with status '' @ st_code status)
      in GatewayError_make message http_status error_type (st_code status) None)"

record GatewayRuntimeOptions =
  ro_accept_timeout_seconds :: pyfloat
  ro_request_timeout_seconds :: pyfloat
  ro_health_timeout_seconds :: pyfloat
  ro_cancel_drain_timeout_seconds :: pyfloat
  ro_shutdown_grace_seconds :: pyfloat
  ro_max_sse_delta_events_per_request :: int
  ro_sampling_top_k :: int

definition options_post_init :: "GatewayRuntimeOptions \<Rightarrow> unit result" where
  "options_post_init o' =
     rbind (guard (\<not> list_ex (\<lambda>v. \<not> isfinite v \<or> float_le v (Fin 0))
              [ro_accept_timeout_seconds o', ro_request_timeout_seconds o', ro_health_timeout_seconds o',
               ro_cancel_drain_timeout_seconds o', ro_shutdown_grace_seconds o'])
              (ValueError ''Gateway Runtime timeouts must be finite and positive'')) (\<lambda>_.
     rbind (guard (\<not> ro_max_sse_delta_events_per_request o' \<le> 0)
              (ValueError ''Gateway SSE capacity must be positive'')) (\<lambda>_.
     guard (\<not> (ro_sampling_top_k o' \<le> 0 \<or> u31_max < ro_sampling_top_k o'))
       (ValueError ''Gateway sampling_top_k is outside the supported range'')))"

record GatewayRequest =
  gq_model :: string
  gq_messages :: "chat_message list"
  gq_max_new_tokens :: int
  gq_streaming :: bool
  gq_temperature :: pyfloat
  gq_top_p :: pyfloat
  gq_random_seed :: int
  gq_stop :: "string list"
  gq_trace_id :: string

section \<open>State\<close>

record 'c client_ops =
  co_connected :: "'c \<Rightarrow> bool"
  co_connect :: "'c \<Rightarrow> unit result \<times> 'c"
  co_close :: "'c \<Rightarrow> 'c"
  co_health :: "pyfloat \<Rightarrow> 'c \<Rightarrow> Stats result \<times> 'c"
  co_submit :: "GenerationRequest \<Rightarrow> pyfloat \<Rightarrow> 'c \<Rightarrow> nat result \<times> 'c"

record tokenizer_ops =
  to_encode_chat :: "chat_message list \<Rightarrow> int list result"
  to_encode_text :: "string \<Rightarrow> int list result"
  to_decode :: decode_fun

record 'c Service =
  sv_client :: 'c
  sv_manifest :: ModelManifest
  sv_options :: GatewayRuntimeOptions
  sv_metrics :: GatewayMetrics
  sv_next_request_id :: int
  sv_sessions :: "Session list"
  sv_handles :: "nat list" \<comment> \<open>the client's handle of each session\<close>
  sv_active :: "(int, nat) dict"
  sv_detached :: "(nat \<times> string) list" \<comment> \<open>the drain tasks: session and reason\<close>
  sv_stopping :: bool
  sv_last_readiness_error :: "string option"
  sv_ready :: bool

text \<open>\<open>randbits\<close> is what \<open>secrets.randbits(62)\<close> returned.\<close>

definition GatewayService_init ::
  "int \<Rightarrow> 'c \<Rightarrow> ModelManifest \<Rightarrow> GatewayRuntimeOptions \<Rightarrow> 'c Service" where
  "GatewayService_init randbits client manifest opts =
     \<lparr>sv_client = client, sv_manifest = manifest, sv_options = opts, sv_metrics = GatewayMetrics_init,
      sv_next_request_id = randbits + 1, sv_sessions = [], sv_handles = [], sv_active = [], sv_detached = [],
      sv_stopping = False, sv_last_readiness_error = Some ''Gateway has not started'', sv_ready = False\<rparr>"

text \<open>\<open>_RequestIdAllocator.next\<close>\<close>

definition next_request_id :: "int \<Rightarrow> int \<times> int" where
  "next_request_id n = (n, if 2 ^ 63 \<le> n + 1 then 1 else n + 1)"

definition upd_metrics :: "(GatewayMetrics \<Rightarrow> GatewayMetrics) \<Rightarrow> 'c Service \<Rightarrow> 'c Service" where
  "upd_metrics f s = s\<lparr>sv_metrics := f (sv_metrics s)\<rparr>"

definition service_connected :: "'c client_ops \<Rightarrow> 'c Service \<Rightarrow> bool" where
  "service_connected ops s = co_connected ops (sv_client s)"

definition service_ready :: "'c client_ops \<Rightarrow> 'c Service \<Rightarrow> bool" where
  "service_ready ops s \<longleftrightarrow> sv_ready s \<and> co_connected ops (sv_client s)"

section \<open>Readiness\<close>

definition stopping_error :: GatewayError where
  "stopping_error = GatewayError_make ''Gateway is stopping'' 503 ''server_error'' ''not_ready'' None"

text \<open>The body of the \<open>try\<close>: connect when needed, then a health probe that must be ready.\<close>

definition probe_worker :: "'c client_ops \<Rightarrow> pyfloat \<Rightarrow> 'c \<Rightarrow> Stats result \<times> 'c" where
  "probe_worker ops timeout c =
     (case (if co_connected ops c then (Inr (), c) else co_connect ops c) of
        (Inl e, c1) \<Rightarrow> (Inl e, c1)
      | (Inr _, c1) \<Rightarrow>
          (case co_health ops timeout c1 of
             (Inl e, c2) \<Rightarrow> (Inl e, c2)
           | (Inr stats, c2) \<Rightarrow>
               let status = ss_status stats in
               if \<not> ss_ready stats \<or> \<not> status_ok status
               then (Inl (RaisedGatewayError (GatewayError_make
                       (if st_message status \<noteq> [] then st_message status else ''Worker is not ready'')
                       503 ''server_error'' (if \<not> status_ok status then st_code status else ''not_ready'') None)), c2)
               else (Inr stats, c2)))"

text \<open>What is recorded when the probe has ended, and what is then raised or returned.\<close>

definition readiness_settle :: "Stats result \<Rightarrow> 'c Service \<Rightarrow> (GatewayError + Stats) \<times> 'c Service" where
  "readiness_settle outcome s =
     (case outcome of
        Inl e \<Rightarrow>
          (Inl (case e of
                RaisedGatewayError g \<Rightarrow> g
              | _ \<Rightarrow> GatewayError_make (''Worker readiness failed: '' @ exn_str e) 503 ''server_error''
                       ''unavailable'' None),
           s\<lparr>sv_ready := False, sv_last_readiness_error := Some (exn_str e)\<rparr>)
      | Inr stats \<Rightarrow> (Inr stats, s\<lparr>sv_ready := True, sv_last_readiness_error := None\<rparr>))"

definition check_readiness :: "'c client_ops \<Rightarrow> 'c Service \<Rightarrow> (GatewayError + Stats) \<times> 'c Service" where
  "check_readiness ops s =
     (if sv_stopping s then (Inl stopping_error, s)
      else case probe_worker ops (ro_health_timeout_seconds (sv_options s)) (sv_client s) of
        (outcome, c) \<Rightarrow> readiness_settle outcome (s\<lparr>sv_client := c\<rparr>))"

definition service_start :: "'c client_ops \<Rightarrow> 'c Service \<Rightarrow> bool \<times> 'c Service" where
  "service_start ops s =
     (case check_readiness ops (s\<lparr>sv_stopping := False\<rparr>) of
        (Inl _, s') \<Rightarrow> (False, s')
      | (Inr _, s') \<Rightarrow> (True, s'))"

definition collect_worker_stats :: "'c client_ops \<Rightarrow> 'c Service \<Rightarrow> Stats option \<times> 'c Service" where
  "collect_worker_stats ops s =
     (if \<not> co_connected ops (sv_client s) then (None, s)
      else case co_health ops (ro_health_timeout_seconds (sv_options s)) (sv_client s) of
        (Inl _, c) \<Rightarrow> (None, s\<lparr>sv_client := c\<rparr>)
      | (Inr stats, c) \<Rightarrow> (Some stats, s\<lparr>sv_client := c\<rparr>))"

section \<open>Submission\<close>

definition invalid_input :: "string \<Rightarrow> string option \<Rightarrow> GatewayError" where
  "invalid_input message param = GatewayError_make message 400 ''invalid_request_error'' ''invalid_input'' param"

text \<open>Tokenising and the limits of the manifest; the result is the prompt and the stop sequences.
  Only a \<open>TokenizerError\<close> is turned into a \<open>GatewayError\<close>.\<close>

definition admit :: "tokenizer_ops \<Rightarrow> ModelManifest \<Rightarrow> GatewayRequest \<Rightarrow> (int list \<times> int list list) result" where
  "admit tok manifest request =
     rbind (case rbind (to_encode_chat tok (gq_messages request)) (\<lambda>ids.
                 rbind (rmap (to_encode_text tok) (gq_stop request)) (\<lambda>stops. Inr (ids, stops))) of
              Inl (TokenizerError m) \<Rightarrow> Inl (RaisedGatewayError (invalid_input m (Some ''messages'')))
            | r \<Rightarrow> r) (\<lambda>(ids, stops).
     rbind (guard (\<not> list_ex (\<lambda>sequence. sequence = []) stops)
              (RaisedGatewayError (invalid_input ''stop sequence must produce at least one Token ID'' (Some ''stop'')))) (\<lambda>_.
     rbind (guard (int (length ids) \<le> mm_max_input_tokens manifest)
              (RaisedGatewayError (invalid_input ''tokenized prompt exceeds max_input_tokens'' (Some ''messages'')))) (\<lambda>_.
     rbind (guard (gq_max_new_tokens request \<le> mm_max_output_tokens manifest)
              (RaisedGatewayError (invalid_input ''max_tokens exceeds the model output limit'' (Some ''max_tokens'')))) (\<lambda>_.
     rbind (guard (int (length ids) + gq_max_new_tokens request \<le> mm_max_sequence_tokens manifest)
              (RaisedGatewayError (invalid_input ''prompt and requested output exceed max_sequence_tokens''
                 (Some ''max_tokens'')))) (\<lambda>_.
     Inr (ids, stops))))))"

definition build_generation_request ::
  "ModelManifest \<Rightarrow> GatewayRuntimeOptions \<Rightarrow> GatewayRequest \<Rightarrow> int \<Rightarrow> int list \<Rightarrow> int list list \<Rightarrow> GenerationRequest result" where
  "build_generation_request manifest opts request request_id ids stops =
     rbind (int_of_float (float_mult (ro_request_timeout_seconds opts) (Fin 1000))) (\<lambda>timeout_ms.
     Inr \<lparr>gr_request_id = request_id, gr_input_token_ids = ids,
          gr_max_new_tokens = gq_max_new_tokens request, gr_priority = 0, gr_timeout_ms = Some timeout_ms,
          gr_trace_id = gq_trace_id request, gr_streaming = gq_streaming request,
          gr_sampling = \<lparr>sp_temperature = gq_temperature request, sp_top_k = ro_sampling_top_k opts,
                         sp_top_p = gq_top_p request, sp_random_seed = gq_random_seed request\<rparr>,
          gr_end_id = Some (mm_eos_token_id manifest), gr_pad_id = Some (mm_pad_token_id manifest),
          gr_stop_sequences = stops\<rparr>)"

text \<open>The \<open>except\<close> clauses around \<open>client.submit\<close>, in their order.\<close>

definition submit_failure :: "exn \<Rightarrow> 'c Service \<Rightarrow> exn \<times> 'c Service" where
  "submit_failure e s =
     (case e of
        RequestRejectedError _ status \<Rightarrow>
          (RaisedGatewayError (gateway_error_from_status status),
           upd_metrics (metrics_rejected (st_code status)) s)
      | ClientCapacityError m \<Rightarrow>
          (RaisedGatewayError (GatewayError_make m 429 ''invalid_request_error'' ''queue_full'' None),
           upd_metrics (metrics_rejected ''queue_full'') s)
      | _ \<Rightarrow>
          if is_GenerationClientError e
          then (RaisedGatewayError (GatewayError_make (exn_str e) 503 ''server_error'' ''unavailable'' None),
                upd_metrics (metrics_rejected ''unavailable'')
                  (s\<lparr>sv_ready := False, sv_last_readiness_error := Some (exn_str e)\<rparr>))
          else if is_ValueError e
          then (RaisedGatewayError (invalid_input (exn_str e) None), upd_metrics (metrics_rejected ''invalid_input'') s)
          else (e, s))"

definition open_session :: "int \<Rightarrow> nat \<Rightarrow> 'c Service \<Rightarrow> nat \<times> 'c Service" where
  "open_session request_id handle s =
     (let r = length (sv_sessions s);
          session = (GatewaySession_init request_id (ro_max_sse_delta_events_per_request (sv_options s)))
                      \<lparr>gs_started := True\<rparr>
      in (r, upd_metrics metrics_accepted
               (s\<lparr>sv_sessions := sv_sessions s @ [session], sv_handles := sv_handles s @ [handle],
                  sv_active := AList.update request_id r (sv_active s)\<rparr>)))"

text \<open>
  \<open>submit\<close> is made of the blocks the event loop runs without interruption: \<open>submit_begin\<close>
  (up to the readiness check), \<open>submit_admit\<close> (tokenising, the limits, the request id, up to
  the call of the client) and \<open>submit_finish\<close> (the outcome of that call). \<open>repr\<close> of the model
  name in the 404 message is the parameter \<open>srepr\<close>.
\<close>

definition model_error :: "(string \<Rightarrow> string) \<Rightarrow> string \<Rightarrow> GatewayError" where
  "model_error srepr model =
     GatewayError_make (''model '' @ srepr model @ '' is not served by this Gateway'') 404
       ''invalid_request_error'' ''model_not_found'' (Some ''model'')"

definition submit_begin ::
  "(string \<Rightarrow> string) \<Rightarrow> GatewayRequest \<Rightarrow> 'c Service \<Rightarrow> (GatewayError + unit) \<times> 'c Service" where
  "submit_begin srepr request s0 =
     (let s = upd_metrics metrics_offered s0 in
      if sv_stopping s then (Inl stopping_error, upd_metrics (metrics_rejected ''not_ready'') s)
      else if gq_model request \<noteq> mm_model_id (sv_manifest s)
      then (Inl (model_error srepr (gq_model request)), upd_metrics (metrics_rejected ''model_not_found'') s)
      else (Inr (), s))"

definition submit_admit ::
  "tokenizer_ops \<Rightarrow> GatewayRequest \<Rightarrow> 'c Service \<Rightarrow> GenerationRequest result \<times> 'c Service" where
  "submit_admit tok request s =
     (case admit tok (sv_manifest s) request of
        Inl (RaisedGatewayError g) \<Rightarrow>
          (Inl (RaisedGatewayError g), upd_metrics (metrics_rejected ''invalid_input'') s)
      | Inl e \<Rightarrow> (Inl e, s)
      | Inr (ids, stops) \<Rightarrow>
          (case next_request_id (sv_next_request_id s) of (request_id, next_id) \<Rightarrow>
             (build_generation_request (sv_manifest s) (sv_options s) request request_id ids stops,
              s\<lparr>sv_next_request_id := next_id\<rparr>)))"

definition submit_finish :: "int \<Rightarrow> nat result \<Rightarrow> 'c Service \<Rightarrow> nat result \<times> 'c Service" where
  "submit_finish request_id outcome s =
     (case outcome of
        Inl e \<Rightarrow> (case submit_failure e s of (e', s') \<Rightarrow> (Inl e', s'))
      | Inr handle \<Rightarrow> (case open_session request_id handle s of (r, s') \<Rightarrow> (Inr r, s')))"

definition submit_ready ::
  "'c client_ops \<Rightarrow> tokenizer_ops \<Rightarrow> GatewayRequest \<Rightarrow> 'c Service \<Rightarrow> nat result \<times> 'c Service" where
  "submit_ready ops tok request s =
     (case submit_admit tok request s of
        (Inl e, s1) \<Rightarrow> (Inl e, s1)
      | (Inr gr, s1) \<Rightarrow>
          (case co_submit ops gr (ro_accept_timeout_seconds (sv_options s1)) (sv_client s1) of
             (outcome, c) \<Rightarrow> submit_finish (gr_request_id gr) outcome (s1\<lparr>sv_client := c\<rparr>)))"

definition service_submit ::
  "(string \<Rightarrow> string) \<Rightarrow> 'c client_ops \<Rightarrow> tokenizer_ops \<Rightarrow> GatewayRequest \<Rightarrow> 'c Service \<Rightarrow> nat result \<times> 'c Service" where
  "service_submit srepr ops tok request s0 =
     (case submit_begin srepr request s0 of
        (Inl g, s) \<Rightarrow> (Inl (RaisedGatewayError g), s)
      | (Inr _, s) \<Rightarrow>
          if service_ready ops s then submit_ready ops tok request s
          else case check_readiness ops s of
             (Inl g, s1) \<Rightarrow> (Inl (RaisedGatewayError g), upd_metrics (metrics_rejected (ge_code g)) s1)
           | (Inr _, s1) \<Rightarrow> submit_ready ops tok request s1)"

section \<open>Sessions of the service\<close>

definition session_finished :: "nat \<Rightarrow> 'c Service \<Rightarrow> 'c Service" where
  "session_finished r s =
     (let request_id = gs_request_id (sv_sessions s ! r) in
      if map_of (sv_active s) request_id = Some r
      then s\<lparr>sv_active := AList.delete request_id (sv_active s)\<rparr> else s)"

text \<open>A step of session \<open>r\<close>; when its pump ends, \<open>on_finished\<close> runs.\<close>

definition service_session_step ::
  "decode_fun \<Rightarrow> nat \<Rightarrow> session_op \<Rightarrow> 'c Service \<Rightarrow> (string + GatewayTerminal) list \<times> 'c Service" where
  "service_session_step decode r x s =
     (let old = sv_sessions s ! r in
      case session_step decode x (old, sv_metrics s) of
        (events, (session, m)) \<Rightarrow>
          let s1 = s\<lparr>sv_sessions := (sv_sessions s)[r := session], sv_metrics := m\<rparr>
          in (events, if gs_done session \<and> \<not> gs_done old then session_finished r s1 else s1))"

definition update_session :: "nat \<Rightarrow> metered_session \<Rightarrow> 'c Service \<Rightarrow> 'c Service" where
  "update_session r sm s = s\<lparr>sv_sessions := (sv_sessions s)[r := fst sm], sv_metrics := snd sm\<rparr>"

definition service_cancel_and_drain ::
  "string \<Rightarrow> bool result \<Rightarrow> bool \<Rightarrow> nat \<Rightarrow> 'c Service \<Rightarrow> bool result \<times> 'c Service" where
  "service_cancel_and_drain reason outcome drained r s =
     (case cancel_and_drain reason outcome drained (sv_sessions s ! r, sv_metrics s) of
        (res, sm) \<Rightarrow> (res, update_session r sm s))"

definition service_abandon :: "nat \<Rightarrow> 'c Service \<Rightarrow> 'c Service" where
  "service_abandon r s = update_session r (session_abandon (sv_sessions s ! r, sv_metrics s)) s"

text \<open>\<open>detach_cancel_and_drain\<close> starts a task; the task cancels, waits for the session or the
  timeout, abandons the buffer unless the cancel raised, and is forgotten. \<open>others\<close> is what
  happens while it waits.\<close>

definition detach_cancel_and_drain :: "nat \<Rightarrow> string \<Rightarrow> 'c Service \<Rightarrow> 'c Service" where
  "detach_cancel_and_drain r reason s = s\<lparr>sv_detached := (r, reason) # sv_detached s\<rparr>"

definition discard_task :: "nat \<times> string \<Rightarrow> 'c Service \<Rightarrow> 'c Service" where
  "discard_task task s = s\<lparr>sv_detached := remove1 task (sv_detached s)\<rparr>"

definition cancel_drain_and_abandon ::
  "bool result \<Rightarrow> bool \<Rightarrow> ('c Service \<Rightarrow> 'c Service) \<Rightarrow> nat \<times> string \<Rightarrow> 'c Service \<Rightarrow> bool result \<times> 'c Service" where
  "cancel_drain_and_abandon outcome drained others task s =
     (case service_cancel_and_drain (snd task) outcome drained (fst task) s of
        (Inl e, s1) \<Rightarrow> (Inl e, discard_task task s1)
      | (Inr d, s1) \<Rightarrow> (Inr d, discard_task task (service_abandon (fst task) (others s1))))"

section \<open>Shutdown\<close>

definition stop_begin :: "'c Service \<Rightarrow> nat list \<times> 'c Service" where
  "stop_begin s = (map snd (sv_active s), s\<lparr>sv_stopping := True, sv_ready := False\<rparr>)"

definition stop_close :: "'c client_ops \<Rightarrow> 'c Service \<Rightarrow> 'c Service" where
  "stop_close ops s = s\<lparr>sv_client := co_close ops (sv_client s)\<rparr>"

text \<open>
  \<open>stop\<close>: every active session is cancelled and drained (\<open>outcome\<close> and \<open>drained\<close> say what
  each cancel answers and whether the session ended in time; exceptions are collected and
  dropped; \<open>others\<close> is what the pumps and consumers do meanwhile), the client is closed, the
  sessions are abandoned, and the drain tasks that are left run to their end.
\<close>

definition service_stop ::
  "'c client_ops \<Rightarrow> (nat \<Rightarrow> bool result) \<Rightarrow> (nat \<Rightarrow> bool) \<Rightarrow> ('c Service \<Rightarrow> 'c Service) \<Rightarrow>
     'c Service \<Rightarrow> 'c Service" where
  "service_stop ops outcome drained others s =
     (if sv_stopping s then s
      else case stop_begin s of (rs, s1) \<Rightarrow>
        let s2 = others (fold (\<lambda>r s. snd (service_cancel_and_drain ''gateway_shutdown'' (outcome r) (drained r) r s)) rs s1);
            s3 = fold service_abandon rs (stop_close ops s2)
        in fold (\<lambda>task s. snd (cancel_drain_and_abandon (outcome (fst task)) (drained (fst task)) others task s))
             (sv_detached s3) s3)"

definition render_metrics :: "'c client_ops \<Rightarrow> Stats option \<Rightarrow> 'c Service \<Rightarrow> string" where
  "render_metrics ops worker_stats s =
     render_prometheus (service_connected ops s) (service_ready ops s) worker_stats (sv_metrics s)"

end
