(* ===== verification/Service_Inv.thy ===== *)
theory Service_Inv
  imports Service
begin

text \<open>
  The accounting invariant of the Gateway: the counters and gauges of the metrics are exactly
  the numbers of requests, sessions and queued deltas, and every operation keeps it so.
\<close>

section \<open>The invariant\<close>

definition total :: "(Session \<Rightarrow> int) \<Rightarrow> 'c Service \<Rightarrow> int" where
  "total f s = sum_list (map f (sv_sessions s))"

definition active_ok :: "(int, nat) dict \<Rightarrow> Session list \<Rightarrow> bool" where
  "active_ok active sessions \<longleftrightarrow>
     dict_ok active \<and>
     list_all (\<lambda>(i, r). r < length sessions \<and> gs_request_id (sessions ! r) = i \<and> \<not> gs_done (sessions ! r)) active"

definition sessions_account :: "'c Service \<Rightarrow> bool" where
  "sessions_account s \<longleftrightarrow>
     (let m = sv_metrics s in
      metrics_ok m \<and> me_accepted m = int (length (sv_sessions s)) \<and>
      me_active m = total (\<lambda>x. 1 - done_count x) s \<and>
      counter_total (me_terminals m) = total done_count s \<and>
      me_sse_buffered_events m = total pending_count s \<and>
      list_all session_ok (sv_sessions s) \<and> active_ok (sv_active s) (sv_sessions s))"

text \<open>With \<open>n\<close> submissions in flight.\<close>

definition requests_account :: "nat \<Rightarrow> 'c Service \<Rightarrow> bool" where
  "requests_account n s \<longleftrightarrow>
     me_offered (sv_metrics s) = me_accepted (sv_metrics s) + counter_total (me_rejected (sv_metrics s)) + int n"

text \<open>The request timeout in milliseconds is a finite float, so that it converts to an integer.\<close>

definition timeout_fits :: "GatewayRuntimeOptions \<Rightarrow> bool" where
  "timeout_fits opts \<longleftrightarrow> isfinite (float_mult (ro_request_timeout_seconds opts) (Fin 1000))"

definition id_ok :: "int \<Rightarrow> bool" where
  "id_ok n \<longleftrightarrow> 1 \<le> n \<and> n < 2 ^ 63"

definition service_ok :: "nat \<Rightarrow> 'c Service \<Rightarrow> bool" where
  "service_ok n s \<longleftrightarrow>
     sessions_account s \<and> requests_account n s \<and> id_ok (sv_next_request_id s) \<and>
     length (sv_handles s) = length (sv_sessions s) \<and>
     list_all (\<lambda>task. fst task < length (sv_sessions s)) (sv_detached s) \<and>
     options_post_init (sv_options s) = Inr () \<and> timeout_fits (sv_options s)"

section \<open>Sums over the session store\<close>

lemma sum_list_update_int:
  "i < length xs \<Longrightarrow> sum_list (map f (xs[i := y])) = sum_list (map f xs) + f y - (f (xs ! i) :: int)"
proof (induction xs arbitrary: i)
  case Nil
  then show ?case by simp
next
  case (Cons x xs)
  then show ?case by (cases i) auto
qed

lemma member_le_sum: "i < length xs \<Longrightarrow> (\<And>x. 0 \<le> f x) \<Longrightarrow> f (xs ! i) \<le> (sum_list (map f xs) :: int)"
proof (induction xs arbitrary: i)
  case Nil
  then show ?case by simp
next
  case (Cons x xs)
  have "0 \<le> sum_list (map f xs)" by (rule sum_list_nonneg) (use Cons.prems(2) in auto)
  moreover have "0 \<le> f x" by (rule Cons.prems(2))
  moreover have "f (xs ! j) \<le> sum_list (map f xs)" if "j < length xs" for j
    using Cons.IH [OF that] Cons.prems(2) by blast
  ultimately show ?case using Cons.prems(1) by (cases i) (auto simp: add_increasing)
qed

lemma count_nonneg [simp]: "0 \<le> pending_count x" "0 \<le> done_count x" "done_count x \<le> 1"
  by (simp_all add: pending_count_def done_count_def)

lemma session_covered:
  assumes "sessions_account s" and "r < length (sv_sessions s)"
  shows "covered (sv_sessions s ! r, sv_metrics s)"
  using assms member_le_sum [OF assms(2), of pending_count] member_le_sum [OF assms(2), of "\<lambda>x. 1 - done_count x"]
  by (auto simp: sessions_account_def covered_def total_def Let_def list_all_length)

section \<open>Session steps\<close>

lemma active_ok_update:
  assumes "active_ok active ss" and "gs_request_id x = gs_request_id (ss ! r)"
    and "gs_done x \<Longrightarrow> \<not> gs_done (ss ! r) \<Longrightarrow> map_of active (gs_request_id (ss ! r)) \<noteq> Some r"
  shows "active_ok active (ss[r := x])"
proof -
  have "r' < length (ss[r := x]) \<and> gs_request_id (ss[r := x] ! r') = i \<and> \<not> gs_done (ss[r := x] ! r')"
    if m: "(i, r') \<in> set active" for i r'
  proof -
    have old: "r' < length ss" "gs_request_id (ss ! r') = i" "\<not> gs_done (ss ! r')"
      using assms(1) m by (auto simp: active_ok_def list_all_iff)
    have "map_of active i = Some r'" using assms(1) m by (simp add: active_ok_def in_dict_iff)
    with old assms(2,3) show ?thesis by (cases "r' = r") auto
  qed
  with assms(1) show ?thesis by (auto simp: active_ok_def list_all_iff)
qed

lemma account_update:
  assumes acc: "sessions_account s" and r: "r < length (sv_sessions s)"
    and eff: "metered_effect (sv_sessions s ! r, sv_metrics s) (x, m)" and ok: "session_ok x"
    and act: "active_ok active ((sv_sessions s)[r := x])"
  shows "sessions_account (s\<lparr>sv_sessions := (sv_sessions s)[r := x], sv_metrics := m, sv_active := active\<rparr>)"
proof -
  have sum: "sum_list (map f ((sv_sessions s)[r := x])) = sum_list (map f (sv_sessions s)) + f x - f (sv_sessions s ! r)"
    for f :: "Session \<Rightarrow> int" by (rule sum_list_update_int [OF r])
  have "list_all session_ok ((sv_sessions s)[r := x])"
    using acc ok by (auto simp: sessions_account_def Let_def intro: list_all_nth_update)
  with acc eff act r show ?thesis
    by (simp add: sessions_account_def Let_def total_def sum metered_effect_def)
qed

lemma finished_active:
  assumes "active_ok active ss" and "map_of active i = Some r" and "i = gs_request_id (ss ! r)"
    and "gs_request_id x = gs_request_id (ss ! r)"
  shows "active_ok (AList.delete i active) (ss[r := x])"
proof (rule active_ok_update)
  show "active_ok (AList.delete i active) ss"
    using assms(1) dict_ok_delete [of active i] by (auto simp: active_ok_def list_all_iff AList.delete_eq)
  show "gs_request_id x = gs_request_id (ss ! r)" by (rule assms(4))
  show "map_of (AList.delete i active) (gs_request_id (ss ! r)) \<noteq> Some r"
    using assms(3) by (simp add: map_of_delete_dict)
qed

lemma service_session_step_account:
  assumes acc: "sessions_account s" and r: "r < length (sv_sessions s)"
    and st: "service_session_step decode r x s = (ev, s')"
  shows "sessions_account s'"
proof -
  let ?old = "sv_sessions s ! r"
  obtain events session m where ss: "session_step decode x (?old, sv_metrics s) = (events, (session, m))"
    by (metis prod_cases3)
  have eff: "metered_effect (?old, sv_metrics s) (session, m)" and ok: "session_ok session"
    using session_step_effect [OF session_covered [OF acc r] ss] by (auto simp: covered_def)
  have id: "gs_request_id session = gs_request_id ?old" using eff by (simp add: metered_effect_def)
  have act: "active_ok (sv_active s) (sv_sessions s)" using acc by (simp add: sessions_account_def Let_def)
  have len: "(sv_sessions s)[r := session] ! r = session" using r by simp
  show ?thesis
  proof (cases "gs_done session \<and> \<not> gs_done ?old \<and> map_of (sv_active s) (gs_request_id ?old) = Some r")
    case True
    then have "s' = s\<lparr>sv_sessions := (sv_sessions s)[r := session], sv_metrics := m,
        sv_active := AList.delete (gs_request_id ?old) (sv_active s)\<rparr>"
      using st ss r id by (simp add: service_session_step_def session_finished_def Let_def)
    with account_update [OF acc r eff ok finished_active [OF act _ refl id]] True show ?thesis by simp
  next
    case False
    then have "s' = s\<lparr>sv_sessions := (sv_sessions s)[r := session], sv_metrics := m, sv_active := sv_active s\<rparr>"
      using st ss r id by (auto simp: service_session_step_def session_finished_def Let_def)
    with account_update [OF acc r eff ok active_ok_update [OF act id]] False show ?thesis by auto
  qed
qed

lemma metered_fields:
  "metered_effect (x, m) (y, m') \<Longrightarrow>
     me_offered m' = me_offered m \<and> me_accepted m' = me_accepted m \<and> me_rejected m' = me_rejected m"
  by (simp add: metered_effect_def)

lemma drain_effect:
  assumes cov: "covered (x, m)" and dr: "cancel_and_drain reason outcome drained (x, m) = (res, (y, m'))"
  shows "metered_effect (x, m) (y, m') \<and> session_ok y \<and> gs_done y = gs_done x"
proof -
  obtain r1 y1 m1 where c: "session_cancel reason outcome (x, m) = (r1, (y1, m1))" by (metis prod_cases3)
  note ce = cancel_effect [OF cov c]
  then have cov1: "covered (y1, m1)" using covered_step [OF cov] by blast
  have "metered_effect (y1, m1) (y1, metrics_drain_timeout m1)"
    using cov1 by (auto simp: metered_effect_def covered_def metrics_drain_timeout_def metrics_ok_def cancel_count_def)
  then have "metered_effect (x, m) (y1, metrics_drain_timeout m1)" using ce metered_effect_trans by blast
  with ce dr c show ?thesis by (auto simp: cancel_and_drain_def split: sum.splits if_splits)
qed

lemma update_session_account:
  assumes acc: "sessions_account s" and r: "r < length (sv_sessions s)"
    and eff: "metered_effect (sv_sessions s ! r, sv_metrics s) (x, m)" and ok: "session_ok x"
    and dn: "gs_done x = gs_done (sv_sessions s ! r)"
  shows "sessions_account (update_session r (x, m) s)"
proof -
  have "active_ok (sv_active s) (sv_sessions s)" using acc by (simp add: sessions_account_def Let_def)
  then have "active_ok (sv_active s) ((sv_sessions s)[r := x])"
    using dn eff by (intro active_ok_update) (simp_all add: metered_effect_def)
  from account_update [OF acc r eff ok this] show ?thesis by (simp add: update_session_def)
qed

text \<open>The operations on sessions change neither the request counters nor the other fields.\<close>

definition same_requests :: "'c Service \<Rightarrow> 'c Service \<Rightarrow> bool" where
  "same_requests s s' \<longleftrightarrow>
     me_offered (sv_metrics s') = me_offered (sv_metrics s) \<and>
     me_accepted (sv_metrics s') = me_accepted (sv_metrics s) \<and>
     me_rejected (sv_metrics s') = me_rejected (sv_metrics s) \<and>
     sv_options s' = sv_options s \<and> sv_next_request_id s' = sv_next_request_id s \<and>
     sv_handles s' = sv_handles s \<and> sv_detached s' = sv_detached s \<and>
     length (sv_sessions s') = length (sv_sessions s)"

lemma service_ok_same:
  "service_ok n s \<Longrightarrow> same_requests s s' \<Longrightarrow> sessions_account s' \<Longrightarrow> service_ok n s'"
  by (simp add: service_ok_def same_requests_def requests_account_def)

lemma service_session_step_ok:
  assumes "service_ok n s" and r: "r < length (sv_sessions s)" and st: "service_session_step decode r x s = (ev, s')"
  shows "service_ok n s' \<and> same_requests s s'"
proof -
  have acc: "sessions_account s" using assms(1) by (simp add: service_ok_def)
  obtain events session m where ss: "session_step decode x (sv_sessions s ! r, sv_metrics s) = (events, (session, m))"
    by (metis prod_cases3)
  have "metered_effect (sv_sessions s ! r, sv_metrics s) (session, m)"
    using session_step_effect [OF session_covered [OF acc r] ss] by blast
  from metered_fields [OF this] st ss have "same_requests s s'"
    by (auto simp: service_session_step_def session_finished_def same_requests_def Let_def)
  with service_ok_same [OF assms(1)] service_session_step_account [OF acc r st] show ?thesis by blast
qed

lemma service_drain_ok:
  assumes "service_ok n s" and r: "r < length (sv_sessions s)"
    and st: "service_cancel_and_drain reason outcome drained r s = (res, s')"
  shows "service_ok n s' \<and> same_requests s s'"
proof -
  have acc: "sessions_account s" using assms(1) by (simp add: service_ok_def)
  obtain y m where d: "cancel_and_drain reason outcome drained (sv_sessions s ! r, sv_metrics s) = (res, (y, m))"
    and s': "s' = update_session r (y, m) s"
    using st by (auto simp: service_cancel_and_drain_def split: prod.splits)
  note de = drain_effect [OF session_covered [OF acc r] d]
  then have "same_requests s s'" using metered_fields by (auto simp: s' same_requests_def update_session_def)
  with de service_ok_same [OF assms(1)] update_session_account [OF acc r] s' show ?thesis by blast
qed

lemma service_abandon_ok:
  assumes "service_ok n s" and r: "r < length (sv_sessions s)"
  shows "service_ok n (service_abandon r s) \<and> same_requests s (service_abandon r s)"
proof -
  have acc: "sessions_account s" using assms(1) by (simp add: service_ok_def)
  obtain y m where d: "session_abandon (sv_sessions s ! r, sv_metrics s) = (y, m)" by force
  note ae = abandon_effect [OF session_covered [OF acc r] d]
  have dn: "gs_done y = gs_done (sv_sessions s ! r)"
    using d by (auto simp: session_abandon_def split: prod.splits)
  have s': "service_abandon r s = update_session r (y, m) s" by (simp add: service_abandon_def d)
  then have "same_requests s (service_abandon r s)"
    using ae metered_fields by (auto simp: same_requests_def update_session_def)
  with ae dn service_ok_same [OF assms(1)] update_session_account [OF acc r] s' show ?thesis by metis
qed


section \<open>Submission\<close>

text \<open>What the Gateway relies on: the client's \<open>submit\<close> raises only the exceptions it documents.\<close>

definition client_error :: "exn \<Rightarrow> bool" where
  "client_error e \<longleftrightarrow> is_GenerationClientError e \<or> is_ValueError e"

text \<open>The two ways a submission can end, from the state in which it is counted as offered.\<close>

definition rejected_one :: "GatewayError \<Rightarrow> 'c Service \<Rightarrow> 'c Service \<Rightarrow> bool" where
  "rejected_one g s s' \<longleftrightarrow>
     sv_metrics s' = metrics_rejected (ge_code g) (sv_metrics s) \<and>
     sv_sessions s' = sv_sessions s \<and> sv_handles s' = sv_handles s \<and> sv_active s' = sv_active s \<and>
     sv_detached s' = sv_detached s \<and> sv_options s' = sv_options s \<and> sv_manifest s' = sv_manifest s \<and>
     sv_next_request_id s' \<in> {sv_next_request_id s, snd (next_request_id (sv_next_request_id s))}"

definition opened_one :: "int \<Rightarrow> nat \<Rightarrow> 'c Service \<Rightarrow> 'c Service \<Rightarrow> bool" where
  "opened_one i r s s' \<longleftrightarrow>
     r = length (sv_sessions s) \<and> sv_metrics s' = metrics_accepted (sv_metrics s) \<and>
     sv_sessions s' = sv_sessions s @
       [(GatewaySession_init i (ro_max_sse_delta_events_per_request (sv_options s)))\<lparr>gs_started := True\<rparr>] \<and>
     length (sv_handles s') = length (sv_handles s) + 1 \<and>
     sv_active s' = AList.update i r (sv_active s) \<and>
     sv_detached s' = sv_detached s \<and> sv_options s' = sv_options s \<and> sv_manifest s' = sv_manifest s \<and>
     sv_next_request_id s' = sv_next_request_id s"

definition accepted_one :: "nat \<Rightarrow> 'c Service \<Rightarrow> 'c Service \<Rightarrow> bool" where
  "accepted_one r s s' \<longleftrightarrow>
     opened_one (sv_next_request_id s) r
       (s\<lparr>sv_next_request_id := snd (next_request_id (sv_next_request_id s))\<rparr>) s'"

lemma submit_failure_rejects:
  assumes "client_error e" and "submit_failure e s = (e', s')"
  shows "\<exists>g. e' = RaisedGatewayError g \<and> rejected_one g s s'"
  using assms
  by (cases e)
    (auto simp: submit_failure_def client_error_def rejected_one_def upd_metrics_def invalid_input_def
      gateway_error_from_status_def GatewayError_make_def Let_def)

lemma readiness_settle_frame:
  "readiness_settle outcome s = (res, s') \<Longrightarrow>
     \<exists>rd er. s' = s\<lparr>sv_ready := rd, sv_last_readiness_error := er\<rparr>"
  by (auto simp: readiness_settle_def split: sum.splits)

lemma check_readiness_frame:
  assumes "check_readiness ops s = (res, s')"
  shows "\<exists>c rd er. s' = s\<lparr>sv_client := c, sv_ready := rd, sv_last_readiness_error := er\<rparr>"
proof (cases "sv_stopping s")
  case True
  then have "s' = s\<lparr>sv_client := sv_client s, sv_ready := sv_ready s,
      sv_last_readiness_error := sv_last_readiness_error s\<rparr>"
    using assms by (simp add: check_readiness_def)
  then show ?thesis by blast
next
  case False
  then obtain r c where "readiness_settle r (s\<lparr>sv_client := c\<rparr>) = (res, s')"
    using assms by (auto simp: check_readiness_def split: prod.splits)
  from readiness_settle_frame [OF this] show ?thesis by auto
qed

lemma submitted_frame [simp]:
  "rejected_one g (s\<lparr>sv_client := c, sv_ready := rd, sv_last_readiness_error := er\<rparr>) s' = rejected_one g s s'"
  "accepted_one r (s\<lparr>sv_client := c, sv_ready := rd, sv_last_readiness_error := er\<rparr>) s' = accepted_one r s s'"
  by (simp_all add: rejected_one_def accepted_one_def opened_one_def)

locale gateway_contract = tokenizer_contract "to_encode_chat tok" "to_encode_text tok" "to_decode tok"
  for tok :: tokenizer_ops +
  fixes ops :: "'c client_ops"
  assumes submit_raises: "co_submit ops request timeout c = (Inl e, c') \<Longrightarrow> client_error e"
begin

lemma admit_raises:
  assumes "admit tok manifest request = Inl e"
  shows "\<exists>g. e = RaisedGatewayError g \<and> ge_code g = ''invalid_input''"
proof -
  let ?enc = "rbind (to_encode_chat tok (gq_messages request)) (\<lambda>ids.
      rbind (rmap (to_encode_text tok) (gq_stop request)) (\<lambda>stops. Inr (ids, stops)))"
  have "only_TokenizerError ?enc"
    using chat_raises [of "gq_messages request"] stops_raise [of "gq_stop request"]
    by (cases "to_encode_chat tok (gq_messages request)"; cases "rmap (to_encode_text tok) (gq_stop request)")
      (simp_all add: only_TokenizerError_def)
  then consider m where "?enc = Inl (TokenizerError m)" | ids stops where "?enc = Inr (ids, stops)"
    by (auto simp: only_TokenizerError_def split: sum.splits exn.splits)
  then show ?thesis
  proof cases
    case 1
    with assms show ?thesis by (auto simp: admit_def invalid_input_def GatewayError_make_def)
  next
    case 2
    with assms show ?thesis
      by (auto simp: admit_def invalid_input_def GatewayError_make_def result_simps)
  qed
qed

lemma submit_admit_cases:
  assumes fits: "timeout_fits (sv_options s)" and adm: "submit_admit tok request s = (res, s')"
  obtains (Rejected) g where "res = Inl (RaisedGatewayError g)" "rejected_one g s s'"
  | (Admitted) gr ids stops where "res = Inr gr" "gr_request_id gr = sv_next_request_id s"
      "s' = s\<lparr>sv_next_request_id := snd (next_request_id (sv_next_request_id s))\<rparr>"
      "admit tok (sv_manifest s) request = Inr (ids, stops)"
proof (cases "admit tok (sv_manifest s) request")
  case (Inl e)
  then obtain g where "e = RaisedGatewayError g" "ge_code g = ''invalid_input''" using admit_raises by blast
  with Inl adm show ?thesis
    by (intro Rejected [of g]) (auto simp: submit_admit_def upd_metrics_def rejected_one_def)
next
  case (Inr p)
  obtain ids stops where p: "p = (ids, stops)" by force
  obtain gr where "build_generation_request (sv_manifest s) (sv_options s) request (sv_next_request_id s) ids stops = Inr gr"
    "gr_request_id gr = sv_next_request_id s"
    using fits by (auto simp: build_generation_request_def timeout_fits_def isfinite_iff int_of_float_def)
  with Inr adm p show ?thesis
    by (intro Admitted [of gr ids stops]) (auto simp: submit_admit_def next_request_id_def)
qed

lemma submit_ready_cases:
  assumes fits: "timeout_fits (sv_options s)" and sub: "submit_ready ops tok request s = (res, s')"
  obtains (Rejected) g where "res = Inl (RaisedGatewayError g)" "rejected_one g s s'"
  | (Accepted) r ids stops where "res = Inr r" "accepted_one r s s'" "admit tok (sv_manifest s) request = Inr (ids, stops)"
proof -
  obtain ad s1 where ad: "submit_admit tok request s = (ad, s1)" by force
  show ?thesis
  proof (rule submit_admit_cases [OF fits ad])
    fix g assume "ad = Inl (RaisedGatewayError g)" "rejected_one g s s1"
    with ad sub show ?thesis using Rejected by (auto simp: submit_ready_def)
  next
    fix gr ids stops
    assume gr: "ad = Inr gr" "gr_request_id gr = sv_next_request_id s"
      "s1 = s\<lparr>sv_next_request_id := snd (next_request_id (sv_next_request_id s))\<rparr>"
      "admit tok (sv_manifest s) request = Inr (ids, stops)"
    obtain out c where out: "co_submit ops gr (ro_accept_timeout_seconds (sv_options s1)) (sv_client s1) = (out, c)"
      by force
    with ad gr(1) sub have fin: "submit_finish (gr_request_id gr) out (s1\<lparr>sv_client := c\<rparr>) = (res, s')"
      by (simp add: submit_ready_def)
    show ?thesis
    proof (cases out)
      case (Inl e)
      with out have ce: "client_error e" using submit_raises by blast
      from Inl fin obtain e' where e': "submit_failure e (s1\<lparr>sv_client := c\<rparr>) = (e', s')" "res = Inl e'"
        by (auto simp: submit_finish_def split: prod.splits)
      from submit_failure_rejects [OF ce e'(1)] obtain g
        where g: "e' = RaisedGatewayError g" "rejected_one g (s1\<lparr>sv_client := c\<rparr>) s'" by blast
      have "sv_next_request_id s' = sv_next_request_id s1"
        using e'(1) ce by (cases e) (auto simp: submit_failure_def client_error_def upd_metrics_def)
      with g(2) gr(3) have "rejected_one g s s'" by (simp add: rejected_one_def)
      with e'(2) g show ?thesis using Rejected by blast
    next
      case (Inr h)
      with fin gr(2,3) have "res = Inr (length (sv_sessions s))" "accepted_one (length (sv_sessions s)) s s'"
        by (auto simp: submit_finish_def open_session_def accepted_one_def opened_one_def upd_metrics_def Let_def)
      with gr(4) show ?thesis using Accepted by blast
    qed
  qed
qed

lemma service_submit_cases:
  assumes fits: "timeout_fits (sv_options s)" and sub: "service_submit srepr ops tok request s = (res, s')"
  obtains (Rejected) g where "res = Inl (RaisedGatewayError g)" "rejected_one g (upd_metrics metrics_offered s) s'"
  | (Accepted) r ids stops where "res = Inr r" "accepted_one r (upd_metrics metrics_offered s) s'"
      "admit tok (sv_manifest s) request = Inr (ids, stops)" "\<not> sv_stopping s" "gq_model request = mm_model_id (sv_manifest s)"
proof -
  let ?s = "upd_metrics metrics_offered s"
  have keep: "sv_options ?s = sv_options s" "sv_manifest ?s = sv_manifest s" "sv_stopping ?s = sv_stopping s"
    by (simp_all add: upd_metrics_def)
  consider (stop) "sv_stopping s" | (model) "\<not> sv_stopping s" "gq_model request \<noteq> mm_model_id (sv_manifest s)"
    | (ready) "\<not> sv_stopping s" "gq_model request = mm_model_id (sv_manifest s)" "service_ready ops ?s"
    | (check) "\<not> sv_stopping s" "gq_model request = mm_model_id (sv_manifest s)" "\<not> service_ready ops ?s"
    by blast
  then show ?thesis
  proof cases
    case stop
    with sub keep show ?thesis
      by (intro Rejected [of stopping_error])
        (auto simp: service_submit_def submit_begin_def Let_def rejected_one_def upd_metrics_def stopping_error_def GatewayError_make_def)
  next
    case model
    with sub keep have "\<exists>g. res = Inl (RaisedGatewayError g) \<and> rejected_one g ?s s'"
      by (auto simp: service_submit_def submit_begin_def Let_def model_error_def rejected_one_def upd_metrics_def GatewayError_make_def)
    then show ?thesis using Rejected by blast
  next
    case ready
    with sub keep have sr: "submit_ready ops tok request ?s = (res, s')" by (simp add: service_submit_def submit_begin_def Let_def)
    show ?thesis by (rule submit_ready_cases [OF _ sr]) (use fits ready keep Rejected Accepted in auto)
  next
    case check
    obtain rd s1 where c: "check_readiness ops ?s = (rd, s1)" by force
    from check_readiness_frame [OF c] obtain cl rdy er
      where s1: "s1 = ?s\<lparr>sv_client := cl, sv_ready := rdy, sv_last_readiness_error := er\<rparr>" by blast
    show ?thesis
    proof (cases rd)
      case (Inl g)
      with sub check keep c s1 show ?thesis
        by (intro Rejected [of g]) (auto simp: service_submit_def submit_begin_def Let_def rejected_one_def upd_metrics_def)
    next
      case (Inr st)
      with sub check keep c have sr: "submit_ready ops tok request s1 = (res, s')" by (simp add: service_submit_def submit_begin_def Let_def)
      show ?thesis
        by (rule submit_ready_cases [OF _ sr])
          (use fits check keep s1 Rejected Accepted in auto)
    qed
  qed
qed

end


section \<open>Every operation keeps the invariant\<close>

lemma service_ok_frame [simp]:
  "service_ok n (s\<lparr>sv_client := c\<rparr>) = service_ok n s"
  "service_ok n (s\<lparr>sv_ready := rd\<rparr>) = service_ok n s"
  "service_ok n (s\<lparr>sv_stopping := b\<rparr>) = service_ok n s"
  "service_ok n (s\<lparr>sv_last_readiness_error := er\<rparr>) = service_ok n s"
  by (simp_all add: service_ok_def sessions_account_def requests_account_def total_def)

lemma service_ok_init:
  assumes "0 \<le> randbits" "randbits < 2 ^ 62" "options_post_init opts = Inr ()" "timeout_fits opts"
  shows "service_ok 0 (GatewayService_init randbits client manifest opts)"
proof -
  have "metrics_ok GatewayMetrics_init" by simp
  with assms show ?thesis
    by (simp add: service_ok_def sessions_account_def requests_account_def total_def GatewayService_init_def
        GatewayMetrics_init_def active_ok_def id_ok_def Let_def)
qed

lemma id_ok_next: "id_ok n \<Longrightarrow> id_ok (snd (next_request_id n))"
  by (simp add: id_ok_def next_request_id_def)

lemma offered_keeps: "service_ok n s \<Longrightarrow> service_ok (Suc n) (upd_metrics metrics_offered s)"
  by (simp add: service_ok_def sessions_account_def requests_account_def total_def upd_metrics_def
      metrics_offered_def metrics_ok_def Let_def)

lemma rejected_keeps:
  assumes "service_ok (Suc n) s" and "rejected_one g s s'"
  shows "service_ok n s'"
  using assms id_ok_next [of "sv_next_request_id s"]
  by (auto simp: service_ok_def sessions_account_def requests_account_def total_def rejected_one_def
      metrics_rejected_def metrics_ok_def Let_def)

lemma next_id_keeps: "service_ok n s \<Longrightarrow> service_ok n (s\<lparr>sv_next_request_id := snd (next_request_id (sv_next_request_id s))\<rparr>)"
  using id_ok_next [of "sv_next_request_id s"]
  by (simp add: service_ok_def sessions_account_def requests_account_def total_def)

lemma new_session_facts:
  "options_post_init opts = Inr () \<Longrightarrow>
     session_ok (GatewaySession_init i (ro_max_sse_delta_events_per_request opts)\<lparr>gs_started := True\<rparr>)"
  "pending_count (GatewaySession_init i n\<lparr>gs_started := True\<rparr>) = 0"
  "done_count (GatewaySession_init i n\<lparr>gs_started := True\<rparr>) = 0"
  "gs_request_id (GatewaySession_init i n\<lparr>gs_started := True\<rparr>) = i"
  "\<not> gs_done (GatewaySession_init i n\<lparr>gs_started := True\<rparr>)"
proof -
  assume "options_post_init opts = Inr ()"
  then have "0 \<le> ro_max_sse_delta_events_per_request opts"
    by (auto simp: options_post_init_def result_simps)
  then show "session_ok (GatewaySession_init i (ro_max_sse_delta_events_per_request opts)\<lparr>gs_started := True\<rparr>)"
    by (simp add: session_ok_def GatewaySession_init_def) (simp add: AsyncEventBuffer_init_def)
qed (simp_all add: pending_count_def done_count_def GatewaySession_init_def AsyncEventBuffer_init_def)

lemma active_ok_append:
  assumes "active_ok active ss" and "gs_request_id x = i" and "\<not> gs_done x"
  shows "active_ok (AList.update i (length ss) active) (ss @ [x])"
proof -
  have d: "dict_ok active" using assms(1) by (simp add: active_ok_def)
  have "r < length (ss @ [x]) \<and> gs_request_id ((ss @ [x]) ! r) = j \<and> \<not> gs_done ((ss @ [x]) ! r)"
    if "map_of (AList.update i (length ss) active) j = Some r" for j r
  proof (cases "j = i")
    case True
    with that have "r = length ss" by (simp add: dict_simps)
    with True assms show ?thesis by simp
  next
    case False
    with that d have "(j, r) \<in> set active" by (simp add: dict_simps in_dict_iff)
    with assms(1) have "r < length ss \<and> gs_request_id (ss ! r) = j \<and> \<not> gs_done (ss ! r)"
      by (auto simp: active_ok_def list_all_iff)
    then show ?thesis by (simp add: nth_append)
  qed
  with d show ?thesis by (auto simp: active_ok_def list_all_iff in_dict_iff)
qed

lemma opened_sessions:
  assumes acc: "sessions_account s" and opts: "options_post_init (sv_options s) = Inr ()"
    and new: "opened_one i r s s'"
  shows "sessions_account s'"
proof -
  let ?x = "GatewaySession_init i (ro_max_sse_delta_events_per_request (sv_options s))\<lparr>gs_started := True\<rparr>"
  have eqs: "sv_sessions s' = sv_sessions s @ [?x]"
    "sv_active s' = AList.update i (length (sv_sessions s)) (sv_active s)"
    "sv_metrics s' = metrics_accepted (sv_metrics s)"
    using new by (simp_all add: opened_one_def)
  have "active_ok (sv_active s') (sv_sessions s')"
    unfolding eqs using acc by (intro active_ok_append) (simp_all add: sessions_account_def Let_def new_session_facts)
  moreover have "list_all session_ok (sv_sessions s')"
    using acc opts by (simp add: eqs sessions_account_def Let_def new_session_facts)
  moreover have "metrics_ok (sv_metrics s')" using acc by (simp add: eqs sessions_account_def Let_def)
  moreover have "me_accepted (sv_metrics s') = me_accepted (sv_metrics s) + 1"
    "me_active (sv_metrics s') = me_active (sv_metrics s) + 1"
    "me_terminals (sv_metrics s') = me_terminals (sv_metrics s)"
    "me_sse_buffered_events (sv_metrics s') = me_sse_buffered_events (sv_metrics s)"
    by (simp_all add: eqs metrics_accepted_def Let_def)
  ultimately show ?thesis using acc
    by (simp add: sessions_account_def Let_def total_def eqs(1) new_session_facts)
qed

lemma opened_keeps:
  assumes "service_ok (Suc n) s" and "opened_one i r s s'"
  shows "service_ok n s'"
proof -
  have "sessions_account s'" using opened_sessions assms unfolding service_ok_def by blast
  moreover have "requests_account n s'" using assms
    by (simp add: service_ok_def requests_account_def opened_one_def metrics_accepted_def Let_def)
  moreover have "list_all (\<lambda>task. fst task < length (sv_sessions s')) (sv_detached s')"
    using assms by (auto simp: service_ok_def opened_one_def list_all_iff)
  ultimately show ?thesis using assms by (simp add: service_ok_def opened_one_def)
qed

lemma readiness_settle_keeps: "readiness_settle outcome s = (res, s') \<Longrightarrow> service_ok n s' = service_ok n s"
  using readiness_settle_frame [of outcome s res s'] by auto

lemma check_readiness_keeps: "check_readiness ops s = (res, s') \<Longrightarrow> service_ok n s' = service_ok n s"
  using check_readiness_frame [of ops s res s'] by auto

lemma service_start_keeps: "service_start ops s = (b, s') \<Longrightarrow> service_ok n s' = service_ok n s"
  using check_readiness_keeps [of ops "s\<lparr>sv_stopping := False\<rparr>"]
  by (auto simp: service_start_def split: prod.splits sum.splits)

lemma collect_stats_keeps: "collect_worker_stats ops s = (r, s') \<Longrightarrow> service_ok n s' = service_ok n s"
  by (auto simp: collect_worker_stats_def split: prod.splits sum.splits if_splits)

lemma detach_keeps:
  "service_ok n s \<Longrightarrow> r < length (sv_sessions s) \<Longrightarrow> service_ok n (detach_cancel_and_drain r reason s)"
  by (simp add: detach_cancel_and_drain_def service_ok_def sessions_account_def requests_account_def total_def)

lemma discard_keeps: "service_ok n s \<Longrightarrow> service_ok n (discard_task task s)"
  using set_remove1_subset [of task "sv_detached s"]
  by (auto simp: discard_task_def service_ok_def sessions_account_def requests_account_def total_def list_all_iff
      simp del: set_remove1_subset)

end
