(* ===== verification/Gateway_System.thy ===== *)
theory Gateway_System
  imports Service_Inv Client_Settle
begin

text \<open>
  The Gateway on top of the verified client. \<open>generation_client_ops\<close> are the methods of
  \<open>GenerationClient\<close>; what happens around one call (the peer, the kernel, other threads) is a
  \<open>client_env\<close>, chosen anew for every call. A coroutine gives up control only where it awaits,
  so \<open>gw_step\<close> is one block between two awaits of any task, or a change of the client by its
  threads; the submissions that wait (for the readiness probe or for the Worker's answer)
  are kept beside the service. \<open>gw_reachable\<close> therefore covers every interleaving of
  requests, pumps, consumers, drains, readiness checks and shutdown.
\<close>

section \<open>The client as the Gateway uses it\<close>

record client_env =
  en_loads :: loads_fun
  en_frepr :: "rat \<Rightarrow> string"
  en_connect :: connect_env
  en_sendall :: sendall_fun
  en_others :: "Client \<Rightarrow> Client"

text \<open>The Gateway always passes a timeout, so the wait ends at the latest with an expired round.\<close>

definition client_submit :: "client_env \<Rightarrow> GenerationRequest \<Rightarrow> pyfloat \<Rightarrow> Client \<Rightarrow> nat result \<times> Client" where
  "client_submit env request timeout c =
     (case submit (en_frepr env) (en_sendall env) (en_others env) True request c of
        (SubmitHandle rid r, c') \<Rightarrow> (Inr r, c')
      | (SubmitRaise e, c') \<Rightarrow> (Inl e, c')
      | (SubmitWait, c') \<Rightarrow> (Inl (RuntimeError ''waiting''), c'))"

definition generation_client_ops :: "client_env \<Rightarrow> Client client_ops" where
  "generation_client_ops env =
     \<lparr>co_connected = cl_connected, co_connect = connect (en_loads env) (en_frepr env) (en_connect env),
      co_close = close, co_health = health (en_frepr env) (en_sendall env) (en_others env),
      co_submit = client_submit env\<rparr>"

definition hugging_face_ops :: "HuggingFaceTokenizer \<Rightarrow> tokenizer_ops" where
  "hugging_face_ops t =
     \<lparr>to_encode_chat = encode_chat t, to_encode_text = encode_text t, to_decode = tokenizer_decode t\<rparr>"

section \<open>Interleavings\<close>

datatype submit_phase = Probing GatewayRequest | Sent int

type_synonym 'c gateway = "'c Service \<times> submit_phase list"

text \<open>The second half of \<open>cancel\<close>, when the client has answered: the session may have ended
  meanwhile.\<close>

definition cancel_apply :: "nat \<Rightarrow> string \<Rightarrow> bool \<Rightarrow> 'c Service \<Rightarrow> 'c Service" where
  "cancel_apply r reason sent s =
     update_session r ((sv_sessions s ! r)\<lparr>gs_cancel_sent := sent\<rparr>,
       if sent then metrics_cancel reason (sv_metrics s) else sv_metrics s) s"

inductive gw_step ::
  "'c client_ops set \<Rightarrow> tokenizer_ops \<Rightarrow> (string \<Rightarrow> string) \<Rightarrow> 'c gateway \<Rightarrow> 'c gateway \<Rightarrow> bool"
  for E tok srepr where
  OfferRefused: "submit_begin srepr request s = (Inl g, s') \<Longrightarrow> gw_step E tok srepr (s, P) (s', P)"
| OfferProbing: "submit_begin srepr request s = (Inr u, s') \<Longrightarrow> ops \<in> E \<Longrightarrow> \<not> service_ready ops s' \<Longrightarrow>
    gw_step E tok srepr (s, P) (s', Probing request # P)"
| OfferRejected: "submit_begin srepr request s = (Inr u, s1) \<Longrightarrow> ops \<in> E \<Longrightarrow> service_ready ops s1 \<Longrightarrow>
    submit_admit tok request s1 = (Inl e, s') \<Longrightarrow> gw_step E tok srepr (s, P) (s', P)"
| OfferSent: "submit_begin srepr request s = (Inr u, s1) \<Longrightarrow> ops \<in> E \<Longrightarrow> service_ready ops s1 \<Longrightarrow>
    submit_admit tok request s1 = (Inr gr, s') \<Longrightarrow> gw_step E tok srepr (s, P) (s', Sent (gr_request_id gr) # P)"
| ProbeFailed: "Probing request \<in> set P \<Longrightarrow> readiness_settle outcome s = (Inl g, s1) \<Longrightarrow>
    gw_step E tok srepr (s, P) (upd_metrics (metrics_rejected (ge_code g)) s1, remove1 (Probing request) P)"
| ProbeRejected: "Probing request \<in> set P \<Longrightarrow> readiness_settle outcome s = (Inr stats, s1) \<Longrightarrow>
    submit_admit tok request s1 = (Inl e, s') \<Longrightarrow> gw_step E tok srepr (s, P) (s', remove1 (Probing request) P)"
| ProbeSent: "Probing request \<in> set P \<Longrightarrow> readiness_settle outcome s = (Inr stats, s1) \<Longrightarrow>
    submit_admit tok request s1 = (Inr gr, s') \<Longrightarrow>
    gw_step E tok srepr (s, P) (s', Sent (gr_request_id gr) # remove1 (Probing request) P)"
| Answered: "Sent i \<in> set P \<Longrightarrow> ops \<in> E \<Longrightarrow> co_submit ops gr timeout c = (outcome, c') \<Longrightarrow> gr_request_id gr = i \<Longrightarrow>
    submit_finish i outcome s = (res, s') \<Longrightarrow> gw_step E tok srepr (s, P) (s', remove1 (Sent i) P)"
| Readiness: "readiness_settle outcome s = (ready, s') \<Longrightarrow> gw_step E tok srepr (s, P) (s', P)"
| Starting: "gw_step E tok srepr (s, P) (s\<lparr>sv_stopping := False\<rparr>, P)"
| ClientMoves: "gw_step E tok srepr (s, P) (s\<lparr>sv_client := c\<rparr>, P)"
| SessionMoves: "r < length (sv_sessions s) \<Longrightarrow> service_session_step (to_decode tok) r x s = (ev, s') \<Longrightarrow>
    gw_step E tok srepr (s, P) (s', P)"
| CancelAnswered: "r < length (sv_sessions s) \<Longrightarrow> \<not> gs_cancel_sent (sv_sessions s ! r) \<Longrightarrow>
    gw_step E tok srepr (s, P) (cancel_apply r reason sent s, P)"
| Detach: "r < length (sv_sessions s) \<Longrightarrow> gw_step E tok srepr (s, P) (detach_cancel_and_drain r reason s, P)"
| Discard: "gw_step E tok srepr (s, P) (discard_task task s, P)"
| StopBegins: "stop_begin s = (rs, s') \<Longrightarrow> gw_step E tok srepr (s, P) (s', P)"

inductive gw_reachable ::
  "'c client_ops set \<Rightarrow> tokenizer_ops \<Rightarrow> (string \<Rightarrow> string) \<Rightarrow> 'c gateway \<Rightarrow> bool"
  for E tok srepr where
  Init: "0 \<le> randbits \<Longrightarrow> randbits < 2 ^ 62 \<Longrightarrow> options_post_init opts = Inr () \<Longrightarrow> timeout_fits opts \<Longrightarrow>
    gw_reachable E tok srepr (GatewayService_init randbits client manifest opts, [])"
| Step: "gw_reachable E tok srepr g \<Longrightarrow> gw_step E tok srepr g g' \<Longrightarrow> gw_reachable E tok srepr g'"

lemma begin_refused:
  "submit_begin srepr request s = (Inl g, s') \<Longrightarrow> rejected_one g (upd_metrics metrics_offered s) s'"
  by (auto simp: submit_begin_def Let_def rejected_one_def upd_metrics_def stopping_error_def model_error_def
      GatewayError_make_def split: if_splits)

lemma begin_passed: "submit_begin srepr request s = (Inr u, s') \<Longrightarrow> s' = upd_metrics metrics_offered s"
  by (auto simp: submit_begin_def Let_def split: if_splits)

lemma probe_failed_keeps:
  assumes "service_ok (Suc n) s" and "readiness_settle outcome s = (Inl g, s1)"
  shows "service_ok n (upd_metrics (metrics_rejected (ge_code g)) s1)"
proof -
  have "rejected_one g s1 (upd_metrics (metrics_rejected (ge_code g)) s1)"
    by (simp add: rejected_one_def upd_metrics_def)
  with assms readiness_settle_keeps rejected_keeps show ?thesis by blast
qed

lemma cancel_apply_keeps:
  assumes ok: "service_ok n s" and r: "r < length (sv_sessions s)" and "\<not> gs_cancel_sent (sv_sessions s ! r)"
  shows "service_ok n (cancel_apply r reason sent s)"
proof -
  let ?x = "(sv_sessions s ! r)\<lparr>gs_cancel_sent := sent\<rparr>"
  let ?m = "if sent then metrics_cancel reason (sv_metrics s) else sv_metrics s"
  have acc: "sessions_account s" using ok by (simp add: service_ok_def)
  have cov: "covered (sv_sessions s ! r, sv_metrics s)" by (rule session_covered [OF acc r])
  have eff: "metered_effect (sv_sessions s ! r, sv_metrics s) (?x, ?m)" and x: "session_ok ?x"
    using cov assms(3)
    by (auto simp: metered_effect_def covered_def session_ok_def pending_count_def done_count_def cancel_count_def
        metrics_cancel_def metrics_ok_def)
  have "same_requests s (cancel_apply r reason sent s)"
    using metered_fields [OF eff] by (simp add: cancel_apply_def same_requests_def update_session_def)
  moreover have "sessions_account (cancel_apply r reason sent s)"
    unfolding cancel_apply_def by (rule update_session_account [OF acc r eff x]) simp
  ultimately show ?thesis using service_ok_same [OF ok] by blast
qed

locale gateway_system =
  fixes E :: "'c client_ops set" and tok :: tokenizer_ops and srepr :: "string \<Rightarrow> string"
  assumes contract: "ops \<in> E \<Longrightarrow> gateway_contract tok ops"
    and inhabited: "E \<noteq> {}"
begin

lemma admit_keeps:
  assumes ok: "service_ok (Suc n) s" and adm: "submit_admit tok request s = (res, s')"
  shows "case res of Inl e \<Rightarrow> service_ok n s' | Inr gr \<Rightarrow> service_ok (Suc n) s'"
proof -
  obtain ops where "ops \<in> E" using inhabited by blast
  then have "gateway_contract tok ops" by (rule contract)
  moreover have "timeout_fits (sv_options s)" using ok by (simp add: service_ok_def)
  ultimately show ?thesis
  proof (rule gateway_contract.submit_admit_cases [OF _ _ adm])
    fix g assume "res = Inl (RaisedGatewayError g)" "rejected_one g s s'"
    with rejected_keeps [OF ok] show ?thesis by simp
  next
    fix gr ids stops
    assume "res = Inr gr" "s' = s\<lparr>sv_next_request_id := snd (next_request_id (sv_next_request_id s))\<rparr>"
    with next_id_keeps [OF ok] show ?thesis by simp
  qed
qed

lemma finish_keeps:
  assumes ok: "service_ok (Suc n) s" and "ops \<in> E" and sub: "co_submit ops gr timeout c = (outcome, c')"
    and fin: "submit_finish i outcome s = (res, s')"
  shows "service_ok n s'"
proof (cases outcome)
  case (Inl e)
  then have "client_error e" using gateway_contract.submit_raises [OF contract [OF assms(2)]] sub by blast
  moreover from Inl fin obtain e' where "submit_failure e s = (e', s')"
    by (auto simp: submit_finish_def split: prod.splits)
  ultimately obtain g where "rejected_one g s s'" using submit_failure_rejects by blast
  then show ?thesis by (rule rejected_keeps [OF ok])
next
  case (Inr h)
  with fin have "opened_one i (length (sv_sessions s)) s s'"
    by (auto simp: submit_finish_def open_session_def opened_one_def upd_metrics_def Let_def)
  then show ?thesis by (rule opened_keeps [OF ok])
qed

lemma removed_pending: "x \<in> set P \<Longrightarrow> length P = Suc (length (remove1 x P))"
  by (simp add: length_remove1) (metis Suc_pred length_pos_if_in_set)

lemma step_keeps:
  assumes "gw_step E tok srepr (s, P) (s', P')" and ok: "service_ok (length P) s"
  shows "service_ok (length P') s'"
  using assms(1)
proof cases
  case (OfferRefused request g)
  then show ?thesis using rejected_keeps [OF offered_keeps [OF ok]] begin_refused by blast
next
  case (OfferProbing request u ops)
  then show ?thesis using offered_keeps [OF ok] begin_passed by fastforce
next
  case (OfferRejected request u s1 ops e)
  then show ?thesis using admit_keeps [of "length P" s1 request "Inl e" s'] offered_keeps [OF ok] begin_passed by fastforce
next
  case (OfferSent request u s1 ops gr)
  then show ?thesis using admit_keeps [of "length P" s1 request "Inr gr" s'] offered_keeps [OF ok] begin_passed by fastforce
next
  case (ProbeFailed request outcome g s1)
  then show ?thesis using probe_failed_keeps ok removed_pending by metis
next
  case (ProbeRejected request outcome stats s1 e)
  then have "service_ok (Suc (length P')) s1" using ok removed_pending readiness_settle_keeps by metis
  with ProbeRejected admit_keeps show ?thesis by fastforce
next
  case (ProbeSent request outcome stats s1 gr)
  then have "service_ok (length P') s1" using ok removed_pending readiness_settle_keeps by (metis length_Cons)
  with ProbeSent admit_keeps [of "length (remove1 (Probing request) P)" s1 request "Inr gr" s'] show ?thesis by simp
next
  case (Answered i ops gr timeout c outcome c' res)
  then show ?thesis using finish_keeps ok removed_pending by metis
next
  case (Readiness outcome ready)
  then show ?thesis using ok readiness_settle_keeps by blast
next
  case (SessionMoves r x ev)
  then show ?thesis using ok service_session_step_ok by blast
next
  case (CancelAnswered r reason sent)
  then show ?thesis using ok cancel_apply_keeps by blast
next
  case (Detach r reason)
  then show ?thesis using ok detach_keeps by blast
next
  case (Discard task)
  then show ?thesis using ok discard_keeps by blast
next
  case (StopBegins rs)
  then show ?thesis using ok by (auto simp: stop_begin_def)
qed (use ok in simp_all)

lemma gateway_reachable_ok: "gw_reachable E tok srepr (s, P) \<Longrightarrow> service_ok (length P) s"
proof (induction "(s, P)" arbitrary: s P rule: gw_reachable.induct)
  case (Init randbits opts client manifest)
  then show ?case using service_ok_init by simp
next
  case (Step g)
  then show ?case using step_keeps by (cases g) blast
qed

end

section \<open>The contracts hold of the verified components\<close>

lemma client_error_simps [simp]:
  "client_error (ProtocolError m)" "client_error (ValueError m)" "client_error (WorkerUnavailableError m)"
  "client_error (GenerationClientError m)" "client_error (ClientCapacityError m)" "client_error (RequestRejectedError i st)"
  by (simp_all add: client_error_def)

lemma validators_raise [raises_intros]:
  "raises_only client_error (require_int v d lo hi)"
  "raises_only client_error (require_string v d ne)"
  "raises_only client_error (require_bool v d)"
  "raises_only client_error (require_float (JFloat x) d)"
  by (auto simp: require_int_def require_string_def require_bool_def require_float_def py_float_def is_number_def
      Let_def split: json.splits intro!: raises_intros)

lemma validate_request_raises: "raises_only client_error (validate_request request)"
  unfolding validate_request_def validate_optional_int_def validate_stop_sequence_def
  by (intro raises_intros) (auto split: option.splits intro!: raises_intros)

lemma encode_submit_raises: "raises_only client_error (encode_submit frepr request epoch)"
  unfolding encode_submit_def encode_json_def json_dumps_def
  by (intro raises_intros validate_request_raises) simp

lemma require_connected_raises: "raises_only client_error (require_connected_locked c)"
  by (simp add: require_connected_locked_def not_connected_def split: option.splits)

lemma submit_check_raises: "raises_only client_error (submit_check request c)"
  unfolding submit_check_def validate_request_against_worker_def Let_def
  by (intro raises_intros require_connected_raises) simp_all

lemma send_encoded_raises:
  assumes "raises_only client_error encoded"
  shows "raises_only client_error (fst (send_encoded sendall encoded c))"
proof -
  have "client_error e" if "encode_frame p n = Inl e" for p n e
    using that by (auto simp: encode_frame_def result_simps)
  then have w: "raises_only client_error (fst (send_write sendall k n p c))" for k n p
    by (cases "encode_frame p n") (auto simp: send_write_def Let_def raises_only_def split: sum.splits option.splits)
  have "raises_only client_error (send_prepare c)"
    unfolding send_prepare_def by (intro raises_intros require_connected_raises)
  with w assms show ?thesis
    by (auto simp: send_encoded_def send_payload_def split: sum.splits prod.splits)
qed

lemma submit_poll_raises: "fst (submit_poll True rid r c) = SubmitHandle rid r \<or>
    (\<exists>e. fst (submit_poll True rid r c) = SubmitRaise e \<and> client_error e)"
  by (auto simp: submit_poll_def Let_def split: option.splits)

lemma client_submit_raises:
  assumes "client_submit env request timeout c = (Inl e, c')"
  shows "client_error e"
proof (cases "submit_check request c")
  case (Inl x)
  with submit_check_raises [of request c] assms show ?thesis
    by (simp add: client_submit_def submit_def submit_register_def)
next
  case (Inr epoch)
  let ?r = "length (cl_states c)" and ?c1 = "register_request (gr_request_id request) c"
  obtain out c2 where send: "send_encoded (en_sendall env) (encode_submit (en_frepr env) request epoch) ?c1 = (out, c2)"
    by force
  then have out: "raises_only client_error out"
    using send_encoded_raises [OF encode_submit_raises] by (metis fst_conv)
  show ?thesis
  proof (cases out)
    case (Inl x)
    with Inr send out assms show ?thesis
      by (simp add: client_submit_def submit_def submit_register_def submit_send_def)
  next
    case (Inr u)
    with \<open>submit_check request c = Inr epoch\<close> send assms
      submit_poll_raises [of "gr_request_id request" ?r "en_others env c2"] show ?thesis
      by (auto simp: client_submit_def submit_def submit_register_def submit_send_def
          split: prod.splits submit_outcome.splits)
  qed
qed

interpretation gcc: gateway_contract "hugging_face_ops t" "generation_client_ops env" for t env
proof (intro gateway_contract.intro gateway_contract_axioms.intro)
  show "tokenizer_contract (to_encode_chat (hugging_face_ops t)) (to_encode_text (hugging_face_ops t))
      (to_decode (hugging_face_ops t))"
    by (simp add: hugging_face_ops_def hft.tokenizer_contract_axioms)
  show "client_error e" if "co_submit (generation_client_ops env) request timeout c = (Inl e, c')"
    for request timeout c e c'
    using that client_submit_raises by (simp add: generation_client_ops_def)
qed

interpretation gws: gateway_system "range generation_client_ops" "hugging_face_ops t" srepr for t srepr
proof (rule gateway_system.intro)
  show "gateway_contract (hugging_face_ops t) ops" if "ops \<in> range generation_client_ops" for ops
    using that gcc.gateway_contract_axioms by blast
qed simp

end
