(* ===== verification/Gateway_Props.thy ===== *)
theory Gateway_Props
  imports Gateway_System Client_Samples
begin

text \<open>
  Properties of the Gateway service over the verified client and tokenizer wrapper, with a
  sample service that accepts one request and rejects another.
\<close>

section \<open>Lemmas\<close>

lemma admit_Inr:
  assumes "admit tok manifest request = Inr (ids, stops)"
  shows "to_encode_chat tok (gq_messages request) = Inr ids \<and> rmap (to_encode_text tok) (gq_stop request) = Inr stops \<and>
    int (length ids) \<le> mm_max_input_tokens manifest \<and> gq_max_new_tokens request \<le> mm_max_output_tokens manifest \<and>
    int (length ids) + gq_max_new_tokens request \<le> mm_max_sequence_tokens manifest"
  using assms by (auto simp: admit_def result_simps split: sum.splits exn.splits)

lemma sum_done: "sum_list (map done_count ss) = int (length (filter gs_done ss))"
  by (induction ss) (simp_all add: done_count_def)

lemma sum_not_done: "sum_list (map (\<lambda>x. 1 - done_count x) ss) = int (length (filter (\<lambda>x. \<not> gs_done x) ss))"
  by (induction ss) (simp_all add: done_count_def)

section \<open>Samples\<close>

definition sample_options :: GatewayRuntimeOptions where
  "sample_options =
     \<lparr>ro_accept_timeout_seconds = Fin 10, ro_request_timeout_seconds = Fin (1 / 8), ro_health_timeout_seconds = Fin 1,
      ro_cancel_drain_timeout_seconds = Fin 30, ro_shutdown_grace_seconds = Fin 30,
      ro_max_sse_delta_events_per_request = 2, ro_sampling_top_k = 1\<rparr>"

definition sample_hf :: hf_tokenizer where
  "sample_hf =
     \<lparr>hf_eos_token_id = JInt 2, hf_pad_token_id = JInt 0, hf_chat_template = JStr ''t'',
      hf_apply_chat_template = (\<lambda>ms. Inr (PyValue (JList (map (\<lambda>m. JInt (int (length (snd m)))) ms)))),
      hf_encode = (\<lambda>s. Inr (PyValue (JList [JInt (int (length s))]))),
      hf_decode = (\<lambda>ids. Inr (concat (map show_int ids)))\<rparr>"

definition sample_tokenizer :: HuggingFaceTokenizer where
  "sample_tokenizer =
     \<lparr>tk_tokenizer = sample_hf, tk_eos_token_id = 2, tk_pad_token_id = 0,
      tk_tokenizer_fingerprint = ''t'', tk_chat_template_fingerprint = ''c''\<rparr>"

definition sample_env :: client_env where
  "sample_env =
     \<lparr>en_loads = (\<lambda>_. Inr JNull), en_frepr = (\<lambda>_. ''1.0''),
      en_connect = \<lparr>ce_connect = Some ''refused'', ce_sendall = (\<lambda>_. None), ce_stream = [], ce_thread = None\<rparr>,
      en_sendall = (\<lambda>_. None), en_others = (\<lambda>c. snd (dispatch_locked (MAccepted 1) c))\<rparr>"

definition sample_gateway_request :: "string \<Rightarrow> GatewayRequest" where
  "sample_gateway_request model =
     \<lparr>gq_model = model, gq_messages = [(''user'', ''hi'')], gq_max_new_tokens = 4, gq_streaming = True,
      gq_temperature = Fin 1, gq_top_p = Fin 1, gq_random_seed = 0, gq_stop = [], gq_trace_id = ''x''\<rparr>"

definition sample_service :: "Client Service" where
  "sample_service = (GatewayService_init 0 sample_connected sample_manifest sample_options)\<lparr>sv_ready := True\<rparr>"

lemma sample_options_ok: "options_post_init sample_options = Inr ()"
  by (simp add: options_post_init_def sample_options_def u31_max_def)

lemma sample_timeout: "float_mult (Fin (1 / 8)) (Fin 1000) = Fin 125"
  by (simp add: float_mult_def) (code_simp)

lemma sample_timeout_fits: "timeout_fits sample_options"
  by (simp add: timeout_fits_def sample_options_def sample_timeout)

lemma sample_submit_rejected:
  "submit_begin srepr (sample_gateway_request ''x'') (GatewayService_init 0 c sample_manifest sample_options) =
   (Inl (model_error srepr ''x''),
    upd_metrics (metrics_rejected ''model_not_found'') (upd_metrics metrics_offered
      (GatewayService_init 0 c sample_manifest sample_options)))"
  by (simp add: submit_begin_def Let_def upd_metrics_def GatewayService_init_def sample_gateway_request_def sample_manifest_def)

definition sample_generation_request :: GenerationRequest where
  "sample_generation_request =
     \<lparr>gr_request_id = 1, gr_input_token_ids = [2], gr_max_new_tokens = 4, gr_priority = 0,
      gr_timeout_ms = Some 125, gr_trace_id = ''x'', gr_streaming = True,
      gr_sampling = \<lparr>sp_temperature = Fin 1, sp_top_k = 1, sp_top_p = Fin 1, sp_random_seed = 0\<rparr>,
      gr_end_id = Some 2, gr_pad_id = Some 0, gr_stop_sequences = []\<rparr>"

lemma sample_admit:
  "admit (hugging_face_ops sample_tokenizer) sample_manifest (sample_gateway_request ''m'') = Inr ([2], [])"
  by (simp add: admit_def hugging_face_ops_def encode_chat_def sample_tokenizer_def sample_hf_def sample_gateway_request_def
      normalize_token_ids_def normalize_list_def sample_manifest_def)

lemma sample_build:
  "build_generation_request sample_manifest sample_options (sample_gateway_request ''m'') 1 [2] [] =
     Inr sample_generation_request"
  by (simp add: build_generation_request_def sample_options_def sample_timeout int_of_float_def truncate_rat_def
      sample_generation_request_def sample_gateway_request_def sample_manifest_def)

lemma sample_request_valid: "validate_request sample_generation_request = Inr ()"
  by (simp add: validate_request_def sample_generation_request_def require_int_def require_string_def require_bool_def
      require_float_def validate_optional_int_def u31_max_def u32_max_def u64_max_def is_number_def py_float_def)

lemma sample_frame:
  obtains payload frame where "encode_submit (\<lambda>_. ''1.0'') sample_generation_request 7 = Inr payload"
    and "encode_frame payload 1024 = Inr frame"
proof -
  have "\<exists>frame. rbind (encode_submit (\<lambda>_. ''1.0'') sample_generation_request 7) (\<lambda>p. encode_frame p 1024) = Inr frame"
    unfolding encode_submit_def sample_request_valid
    by (simp add: sample_generation_request_def require_int_def u64_max_def u32_max_def encode_json_def json_dumps_def
        json_option_int_def PROTOCOL_VERSION_def encode_frame_def guard_def)
      (simp add: quote_string_def escape_char_def show_int_def show_nat.simps)
  then show ?thesis using that by (auto simp: result_simps)
qed

lemma sample_client_submit: "\<exists>c. client_submit sample_env sample_generation_request x sample_connected = (Inr 0, c)"
proof -
  obtain payload frame where pf: "encode_submit (\<lambda>_. ''1.0'') sample_generation_request 7 = Inr payload"
    "encode_frame payload 1024 = Inr frame" by (rule sample_frame)
  let ?c1 = "sample_connected\<lparr>cl_requests := [(1, 0)], cl_states := [RequestState_init 1 2]\<rparr>"
  have "submit_check sample_generation_request sample_connected = Inr 7"
    by (simp add: submit_check_def sample_generation_request_def sample_connected_eq sample_start_def
        require_connected_locked_def sample_hello_def validate_request_against_worker_def
        sample_manifest_def sample_limits_def sample_config_def request_limit_def)
  then have reg: "submit_register sample_generation_request sample_connected = (Inr (0, 7), ?c1)"
    by (simp add: submit_register_def register_request_def)
      (simp add: sample_connected_eq sample_start_def sample_config_def sample_generation_request_def)
  have send: "submit_send (\<lambda>_. ''1.0'') (\<lambda>_. None) sample_generation_request 7 ?c1 =
      (Inr (), ?c1\<lparr>cl_sent := [(0, frame)]\<rparr>)"
    using pf by (simp add: submit_send_def send_encoded_def send_payload_def send_prepare_def send_write_def
        require_connected_locked_def sample_connected_eq sample_hello_def sample_limits_def sample_start_def)
  have "snd (dispatch_locked (MAccepted 1) (?c1\<lparr>cl_sent := [(0, frame)]\<rparr>)) =
      ?c1\<lparr>cl_sent := [(0, frame)], cl_states := [(RequestState_init 1 2)\<lparr>rs_accepted := True\<rparr>]\<rparr>"
    by (simp add: dispatch_locked_def require_connected_locked_def with_request_def
        dispatch_accepted_def upd_state_def RequestState_init_def sample_connected_eq)
  with reg send show ?thesis
    by (simp add: client_submit_def submit_def sample_env_def submit_poll_def)
qed

lemma sample_submit_accepted:
  "fst (service_submit srepr (generation_client_ops sample_env) (hugging_face_ops sample_tokenizer)
     (sample_gateway_request ''m'') sample_service) = Inr 0"
proof -
  obtain c where "client_submit sample_env sample_generation_request (Fin 10) sample_connected = (Inr 0, c)"
    using sample_client_submit by blast
  moreover have "ro_accept_timeout_seconds sample_options = Fin 10" by (simp add: sample_options_def)
  moreover have "gq_model (sample_gateway_request ''m'') = mm_model_id sample_manifest"
    by (simp add: sample_gateway_request_def sample_manifest_def)
  moreover have "cl_connected sample_connected" by (simp add: sample_connected_eq)
  ultimately show ?thesis
    by (simp add: service_submit_def submit_begin_def service_ready_def upd_metrics_def sample_service_def
        GatewayService_init_def submit_ready_def submit_admit_def submit_finish_def sample_admit sample_build
        next_request_id_def generation_client_ops_def open_session_def Let_def)
qed

section \<open>Properties\<close>





end
