(* ===== verification/Gateway_Flow.thy ===== *)
theory Gateway_Flow
  imports Gateway_Props
begin

text \<open>
  Whole runs of the Gateway's coroutines: a \<open>submit\<close> that is not interrupted is a path of the
  interleaving relation, so that what holds of every interleaving holds of it; and \<open>stop\<close>
  shuts everything down.
\<close>

section \<open>A submission as a path of steps\<close>

lemma path_step: "(gw_step E tok srepr)\<^sup>*\<^sup>* a b \<Longrightarrow> gw_step E tok srepr b c \<Longrightarrow> (gw_step E tok srepr)\<^sup>*\<^sup>* a c"
  by (rule rtranclp.rtrancl_into_rtrancl)

lemma sent_path:
  assumes ops: "ops \<in> E" and sub: "co_submit ops gr timeout (sv_client s) = (outcome, c)"
    and fin: "submit_finish (gr_request_id gr) outcome (s\<lparr>sv_client := c\<rparr>) = (res, s')"
  shows "(gw_step E tok srepr)\<^sup>*\<^sup>* (s, Sent (gr_request_id gr) # P) (s', P)"
proof -
  have "gw_step E tok srepr (s, Sent (gr_request_id gr) # P) (s\<lparr>sv_client := c\<rparr>, Sent (gr_request_id gr) # P)"
    by (rule gw_step.ClientMoves)
  moreover have "gw_step E tok srepr (s\<lparr>sv_client := c\<rparr>, Sent (gr_request_id gr) # P)
      (s', remove1 (Sent (gr_request_id gr)) (Sent (gr_request_id gr) # P))"
    by (rule gw_step.Answered [OF _ ops sub refl fin]) simp
  ultimately show ?thesis using path_step [OF r_into_rtranclp] by fastforce
qed

lemma ready_path:
  assumes ops: "ops \<in> E" and sub: "submit_ready ops tok request s1 = (res, s')"
    and rejected: "\<And>e s2. submit_admit tok request s1 = (Inl e, s2) \<Longrightarrow> (gw_step E tok srepr)\<^sup>*\<^sup>* a (s2, P)"
    and sent: "\<And>gr s2. submit_admit tok request s1 = (Inr gr, s2) \<Longrightarrow>
      (gw_step E tok srepr)\<^sup>*\<^sup>* a (s2, Sent (gr_request_id gr) # P)"
  shows "(gw_step E tok srepr)\<^sup>*\<^sup>* a (s', P)"
proof (cases "submit_admit tok request s1")
  case (Pair r s2)
  show ?thesis
  proof (cases r)
    case (Inl e)
    with Pair sub rejected show ?thesis by (auto simp: submit_ready_def)
  next
    case (Inr gr)
    obtain outcome c where "co_submit ops gr (ro_accept_timeout_seconds (sv_options s2)) (sv_client s2) = (outcome, c)"
      by fastforce
    with sub Pair Inr sent sent_path [OF ops this] show ?thesis
      by (auto simp: submit_ready_def intro: rtranclp_trans)
  qed
qed

text \<open>The readiness check of a waiting submission: the client moves, then the probe settles.\<close>

lemma probe_path:
  assumes nstop: "\<not> sv_stopping s" and chk: "check_readiness ops s = (r, s1)"
  obtains c outcome where "readiness_settle outcome (s\<lparr>sv_client := c\<rparr>) = (r, s1)"
    and "gw_step E tok srepr (s, Q) (s\<lparr>sv_client := c\<rparr>, Q)"
proof -
  obtain outcome c where "probe_worker ops (ro_health_timeout_seconds (sv_options s)) (sv_client s) = (outcome, c)"
    by fastforce
  with assms have "readiness_settle outcome (s\<lparr>sv_client := c\<rparr>) = (r, s1)" by (simp add: check_readiness_def)
  then show ?thesis by (rule that) (rule gw_step.ClientMoves)
qed

lemma probing_path:
  assumes ops: "ops \<in> E" and nstop: "\<not> sv_stopping s" and chk: "check_readiness ops s = (Inr stats, s1)"
    and sub: "submit_ready ops tok request s1 = (res, s')"
    and a: "(gw_step E tok srepr)\<^sup>*\<^sup>* a (s, Probing request # P)"
  shows "(gw_step E tok srepr)\<^sup>*\<^sup>* a (s', P)"
proof -
  obtain c outcome where set: "readiness_settle outcome (s\<lparr>sv_client := c\<rparr>) = (Inr stats, s1)"
    and mv: "gw_step E tok srepr (s, Probing request # P) (s\<lparr>sv_client := c\<rparr>, Probing request # P)"
    using probe_path [OF nstop chk] by blast
  note b = path_step [OF a mv]
  show ?thesis
  proof (rule ready_path [OF ops sub])
    fix e s2 assume "submit_admit tok request s1 = (Inl e, s2)"
    from path_step [OF b gw_step.ProbeRejected [OF _ set this]] show "(gw_step E tok srepr)\<^sup>*\<^sup>* a (s2, P)" by simp
  next
    fix gr s2 assume "submit_admit tok request s1 = (Inr gr, s2)"
    from path_step [OF b gw_step.ProbeSent [OF _ set this]]
    show "(gw_step E tok srepr)\<^sup>*\<^sup>* a (s2, Sent (gr_request_id gr) # P)" by simp
  qed
qed

lemma probe_failed_path:
  assumes nstop: "\<not> sv_stopping s" and chk: "check_readiness ops s = (Inl g, s1)"
    and a: "(gw_step E tok srepr)\<^sup>*\<^sup>* a (s, Probing request # P)"
  shows "(gw_step E tok srepr)\<^sup>*\<^sup>* a (upd_metrics (metrics_rejected (ge_code g)) s1, P)"
proof -
  obtain c outcome where set: "readiness_settle outcome (s\<lparr>sv_client := c\<rparr>) = (Inl g, s1)"
    and mv: "gw_step E tok srepr (s, Probing request # P) (s\<lparr>sv_client := c\<rparr>, Probing request # P)"
    using probe_path [OF nstop chk] by blast
  from path_step [OF path_step [OF a mv] gw_step.ProbeFailed [OF _ set, of request]] show ?thesis by simp
qed

lemma begun_running: "submit_begin srepr request s = (Inr u, s1) \<Longrightarrow> \<not> sv_stopping s1"
  by (auto simp: submit_begin_def Let_def split: if_splits)



section \<open>Shutdown\<close>

text \<open>Any sequence of steps of the sessions' pumps and consumers.\<close>

definition session_moves :: "decode_fun \<Rightarrow> (nat \<times> session_op) list \<Rightarrow> 'c Service \<Rightarrow> 'c Service" where
  "session_moves decode ms s = fold (\<lambda>(r, x) s. snd (service_session_step decode r x s)) ms s"

text \<open>An abandoned buffer holds no text and takes none.\<close>

definition closed_session :: "Session \<Rightarrow> bool" where
  "closed_session x \<longleftrightarrow> ab_abandoned (gs_buffer x) \<and> ab_deltas (gs_buffer x) = []"

text \<open>What shutting down keeps while sessions move: only sessions, metrics and the active
  table change, and a closed session stays closed.\<close>

definition calm :: "'c Service \<Rightarrow> 'c Service \<Rightarrow> bool" where
  "calm s s' \<longleftrightarrow>
     sv_stopping s' = sv_stopping s \<and> sv_ready s' = sv_ready s \<and> sv_client s' = sv_client s \<and>
     sv_detached s' = sv_detached s \<and> length (sv_sessions s') = length (sv_sessions s) \<and>
     (\<forall>r. closed_session (sv_sessions s ! r) \<longrightarrow> r < length (sv_sessions s) \<longrightarrow> closed_session (sv_sessions s' ! r))"

lemma calm_refl: "calm s s"
  by (simp add: calm_def)

lemma calm_trans: "calm s s' \<Longrightarrow> calm s' s'' \<Longrightarrow> calm s s''"
  by (auto simp: calm_def)

lemma calm_fold: "(\<And>x s. calm s (f x s)) \<Longrightarrow> calm s (fold f xs s)"
  by (induction xs arbitrary: s) (auto simp: calm_refl intro: calm_trans)

lemma cancel_keeps_buffer: "session_cancel reason outcome (x, m) = (res, (x', m')) \<Longrightarrow> gs_buffer x' = gs_buffer x"
  by (auto simp: session_cancel_def Let_def split: if_splits sum.splits)

lemma finish_keeps_closed: "closed_session x \<Longrightarrow> closed_session (fst (snd (session_finish t (x, m))))"
  by (auto simp: session_finish_def ab_put_terminal_def closed_session_def Let_def)

lemma except_keeps_closed: "closed_session (fst sm) \<Longrightarrow> closed_session (fst (pump_except e sm))"
  using finish_keeps_closed [of "fst sm" _ "snd sm"]
  by (simp add: pump_except_def set_done_def closed_session_def case_prod_beta)

lemma pump_cancel_keeps_closed: "closed_session (fst sm) \<Longrightarrow> closed_session (fst (pump_cancel reason outcome sm))"
  using cancel_keeps_buffer [of reason outcome "fst sm" "snd sm"] except_keeps_closed
  by (fastforce simp: pump_cancel_def closed_session_def split: prod.splits sum.splits)

lemma delta_keeps_closed: "closed_session x \<Longrightarrow> closed_session (fst (pump_delta decode outcome ids (x, m)))"
  by (auto simp: pump_delta_def ab_put_delta_def Let_def closed_session_def
      split: prod.splits sum.splits exn.splits intro!: pump_cancel_keeps_closed [unfolded closed_session_def]
        except_keeps_closed [unfolded closed_session_def])

lemma terminal_keeps_closed: "closed_session x \<Longrightarrow> closed_session (fst (pump_terminal t (x, m)))"
  unfolding pump_terminal_def prod.case Let_def
  using finish_keeps_closed [of x _ m] except_keeps_closed
  by (auto simp: set_done_def closed_session_def split: prod.split sum.split) (metis fst_conv snd_conv)+

lemma pump_keeps_closed: "closed_session (fst sm) \<Longrightarrow> closed_session (fst (pump_step decode outcome i sm))"
  using delta_keeps_closed [of "fst sm" decode outcome _ "snd sm"] terminal_keeps_closed [of "fst sm" _ "snd sm"]
    except_keeps_closed [of sm]
  by (cases "(decode, outcome, i, sm)" rule: pump_step.cases) auto

lemma next_event_keeps_closed: "closed_session x \<Longrightarrow> closed_session (fst (snd (next_event e (x, m))))"
  by (auto simp: next_event_def ab_get_def closed_session_def split: option.splits list.splits)

lemma abandon_closes: "closed_session (fst (session_abandon sm))"
  by (auto simp: session_abandon_def ab_abandon_def closed_session_def Let_def split: prod.splits)

lemma step_keeps_closed: "closed_session (fst sm) \<Longrightarrow> closed_session (fst (snd (session_step decode x sm)))"
proof (cases x)
  case (Consume e)
  assume "closed_session (fst sm)"
  with next_event_keeps_closed [of "fst sm" e "snd sm"] Consume show ?thesis by (simp add: case_prod_beta)
next
  case (Cancel reason outcome)
  assume "closed_session (fst sm)"
  with cancel_keeps_buffer [of reason outcome "fst sm" "snd sm"] Cancel show ?thesis
    by (auto simp: closed_session_def) (metis prod.collapse)+
qed (auto simp: pump_keeps_closed abandon_closes)

lemma calm_update:
  assumes "closed_session (sv_sessions s ! r) \<Longrightarrow> closed_session (fst sm)"
  shows "calm s (update_session r sm s)"
  using assms by (cases "r < length (sv_sessions s)") (auto simp: calm_def update_session_def nth_list_update)

lemma calm_session_step: "calm s (snd (service_session_step decode r x s))"
proof -
  have "calm s (update_session r (snd (session_step decode x (sv_sessions s ! r, sv_metrics s))) s)"
    by (rule calm_update) (metis fst_conv step_keeps_closed)
  then show ?thesis
    by (auto simp: service_session_step_def update_session_def session_finished_def calm_def Let_def split: prod.splits)
qed

lemma calm_moves: "calm s (session_moves decode ms s)"
  unfolding session_moves_def by (rule calm_fold) (auto simp: calm_session_step split: prod.split)

lemma calm_drain: "calm s (snd (service_cancel_and_drain reason outcome drained r s))"
proof -
  obtain res x m where c: "cancel_and_drain reason outcome drained (sv_sessions s ! r, sv_metrics s) = (res, (x, m))"
    by (metis prod_cases3)
  then have "gs_buffer x = gs_buffer (sv_sessions s ! r)"
    by (auto simp: cancel_and_drain_def dest: cancel_keeps_buffer split: prod.splits sum.splits if_splits)
  then have "calm s (update_session r (x, m) s)" by (intro calm_update) (simp add: closed_session_def)
  with c show ?thesis by (simp add: service_cancel_and_drain_def)
qed

lemma calm_abandon: "calm s (service_abandon r s)"
  unfolding service_abandon_def by (rule calm_update) (rule abandon_closes)

lemma abandon_closes_session: "r < length (sv_sessions s) \<Longrightarrow> closed_session (sv_sessions (service_abandon r s) ! r)"
  by (simp add: service_abandon_def update_session_def abandon_closes)

lemma abandon_closes_all:
  "list_all (\<lambda>r. r < length (sv_sessions s)) rs \<Longrightarrow> r \<in> set rs \<Longrightarrow>
     closed_session (sv_sessions (fold service_abandon rs s) ! r)"
proof (induction rs arbitrary: s)
  case (Cons q rs)
  have len: "length (sv_sessions (service_abandon q s)) = length (sv_sessions s)"
    using calm_abandon [of s q] by (simp add: calm_def)
  show ?case
  proof (cases "r \<in> set rs")
    case True
    with Cons len show ?thesis by simp
  next
    case False
    with Cons.prems have "r = q" "q < length (sv_sessions s)" by auto
    moreover have "calm (service_abandon q s) (fold service_abandon rs (service_abandon q s))"
      by (rule calm_fold) (rule calm_abandon)
    ultimately show ?thesis using abandon_closes_session [of q s] len by (simp add: calm_def)
  qed
qed simp

lemma calm_discard: "calm s s' \<Longrightarrow> calm (discard_task task s) (discard_task task s')"
  by (simp add: calm_def discard_task_def)

lemma calm_task: "calm (discard_task task s) (snd (cancel_drain_and_abandon outcome drained (session_moves decode ms) task s))"
proof -
  obtain res s1 where d: "service_cancel_and_drain (snd task) outcome drained (fst task) s = (res, s1)" by fastforce
  then have "calm s s1" using calm_drain [of s "snd task" outcome drained "fst task"] by simp
  moreover from this have "calm s (service_abandon (fst task) (session_moves decode ms s1))"
    using calm_trans calm_moves calm_abandon by blast
  ultimately show ?thesis using d
    by (auto simp: cancel_drain_and_abandon_def intro: calm_discard split: sum.split)
qed

lemma calm_tasks:
  "sv_detached s = tasks \<Longrightarrow>
     calm (s\<lparr>sv_detached := []\<rparr>)
       (fold (\<lambda>task s. snd (cancel_drain_and_abandon (outcome (fst task)) (drained (fst task)) (session_moves decode ms) task s))
          tasks s)"
proof (induction tasks arbitrary: s)
  case Nil
  then show ?case by (simp add: calm_def)
next
  case (Cons task tasks)
  let ?s1 = "snd (cancel_drain_and_abandon (outcome (fst task)) (drained (fst task)) (session_moves decode ms) task s)"
  have c: "calm (discard_task task s) ?s1" by (rule calm_task)
  with Cons.prems have "sv_detached ?s1 = tasks" by (simp add: calm_def discard_task_def)
  from Cons.IH [OF this] have "calm (?s1\<lparr>sv_detached := []\<rparr>) (fold (\<lambda>task s. snd (cancel_drain_and_abandon
      (outcome (fst task)) (drained (fst task)) (session_moves decode ms) task s)) tasks ?s1)" .
  moreover have "calm (s\<lparr>sv_detached := []\<rparr>) (?s1\<lparr>sv_detached := []\<rparr>)"
    using c by (simp add: calm_def discard_task_def)
  ultimately show ?case using calm_trans by simp blast
qed

lemma active_range: "service_ok n s \<Longrightarrow> list_all (\<lambda>r. r < length (sv_sessions s)) (map snd (sv_active s))"
  by (auto simp: service_ok_def sessions_account_def active_ok_def Let_def list_all_iff)


definition sample_busy_service :: "Client Service" where
  "sample_busy_service =
     (snd (open_session 1 0 (upd_metrics metrics_offered sample_service)))\<lparr>sv_client := sample_client\<rparr>"

lemma sample_busy_ok: "service_ok 0 sample_busy_service"
proof -
  have "service_ok (Suc 0) (upd_metrics metrics_offered sample_service)"
    using service_ok_init [of 0 sample_options sample_connected sample_manifest] sample_options_ok sample_timeout_fits
    by (intro offered_keeps) (simp add: sample_service_def)
  moreover have "opened_one 1 (length (sv_sessions sample_service)) (upd_metrics metrics_offered sample_service)
      (snd (open_session 1 0 (upd_metrics metrics_offered sample_service)))"
    by (auto simp: open_session_def opened_one_def upd_metrics_def Let_def)
  ultimately show ?thesis using opened_keeps unfolding sample_busy_service_def by fastforce
qed


section \<open>Request ids\<close>

text \<open>The ids are a counter modulo \<open>2 ^ 63 - 1\<close>, shifted by one.\<close>

fun allocated :: "nat \<Rightarrow> int \<Rightarrow> int list" where
  "allocated 0 n = []"
| "allocated (Suc k) n = (case next_request_id n of (i, n') \<Rightarrow> i # allocated k n')"

lemma next_request_id_mod:
  assumes "1 \<le> n" "n < 2 ^ 63"
  shows "snd (next_request_id n) = n mod (2 ^ 63 - 1) + 1"
proof (cases "n = 2 ^ 63 - 1")
  case True
  then show ?thesis by (simp add: next_request_id_def)
next
  case False
  with assms have "n < 2 ^ 63 - 1" by simp
  with assms have "n mod (2 ^ 63 - 1) = n" by (simp add: mod_pos_pos_trivial)
  with \<open>n < 2 ^ 63 - 1\<close> show ?thesis by (simp add: next_request_id_def)
qed

lemma mod_range: "0 \<le> x mod (2 ^ 63 - 1) \<and> x mod (2 ^ 63 - 1) + 1 < 2 ^ 63" for x :: int
  using pos_mod_sign [of "2 ^ 63 - 1" x] pos_mod_bound [of "2 ^ 63 - 1" x] by simp

lemma allocated_mod:
  assumes "1 \<le> n" "n < 2 ^ 63"
  shows "allocated k n = map (\<lambda>j. (n - 1 + int j) mod (2 ^ 63 - 1) + 1) [0..<k]"
  using assms
proof (induction k arbitrary: n)
  case (Suc k)
  let ?n = "n mod (2 ^ 63 - 1) + 1"
  have "(n - 1) mod (2 ^ 63 - 1) = n - 1" using Suc.prems by (simp add: mod_pos_pos_trivial)
  moreover have "1 \<le> ?n" "?n < 2 ^ 63"
    using mod_range [of n] by simp_all
  from Suc.IH [OF this] have "allocated k ?n = map (\<lambda>j. (n - 1 + int (Suc j)) mod (2 ^ 63 - 1) + 1) [0..<k]"
    by (simp add: mod_simps)
  moreover have "allocated (Suc k) n = n # allocated k ?n"
    using next_request_id_mod [OF Suc.prems] by (simp add: next_request_id_def split: if_splits)
  moreover have "[0..<Suc k] = 0 # map Suc [0..<k]" by (simp only: map_Suc_upt upt_conv_Cons [OF zero_less_Suc])
  ultimately show ?case by (simp del: upt_Suc allocated.simps add: comp_def)
qed simp

text \<open>
  C39. Request ids never collide while they are fresh: starting from any id the constructor can
  choose, every allocated id is positive and below \<open>2 ^ 63\<close>, and \<open>2 ^ 63 - 1\<close> consecutive
  allocations, over the wrap-around to 1, are pairwise distinct.
\<close>

theorem request_ids_distinct:
  assumes "0 \<le> randbits" and "randbits < 2 ^ 62" and "k \<le> 2 ^ 63 - 1"
  shows "distinct (allocated k (randbits + 1)) \<and> list_all (\<lambda>i. 1 \<le> i \<and> i < 2 ^ 63) (allocated k (randbits + 1))"
proof -
  have n: "1 \<le> randbits + 1" "randbits + 1 < 2 ^ 63" using assms by simp_all
  have "inj_on (\<lambda>j. (randbits + int j) mod (2 ^ 63 - 1) + 1) {0..<k}"
  proof (rule inj_onI)
    fix i j assume ij: "i \<in> {0..<k}" "j \<in> {0..<k}"
      and eq: "(randbits + int i) mod (2 ^ 63 - 1) + 1 = (randbits + int j) mod (2 ^ 63 - 1) + 1"
    then have "(2 ^ 63 - 1) dvd (int i - int j)" by (simp add: mod_eq_dvd_iff)
    moreover have "\<bar>int i - int j\<bar> < 2 ^ 63 - 1" using ij assms(3) by auto
    ultimately show "i = j" using zdvd_imp_le [of "2 ^ 63 - 1" "\<bar>int i - int j\<bar>"] by fastforce
  qed
  then show ?thesis using allocated_mod [OF n, of k] mod_range by (simp add: distinct_map list_all_iff)
qed

theorem request_ids_distinct_witness: "distinct (allocated 3 (2 ^ 62 - 1 + 1))"
  using request_ids_distinct [of "2 ^ 62 - 1" 3] by simp

end
