(* ===== verification/OpenAI.thy ===== *)
theory OpenAI
  imports Service
begin

text \<open>
  \<open>openai.py\<close>: validation of a chat completion request and the JSON documents of the
  responses. The argument of the parser is the value \<open>json.loads\<close> returned. A dictionary
  literal is the list of its entries in order. \<open>frepr\<close> prints a float; no response contains one.
\<close>

section \<open>Commands\<close>

record ChatCompletionCommand =
  cc_model :: string
  cc_messages :: "chat_message list"
  cc_stream :: bool
  cc_include_usage :: bool
  cc_max_new_tokens :: int
  cc_temperature :: pyfloat
  cc_top_p :: pyfloat
  cc_random_seed :: int
  cc_stop :: "string list"

definition to_gateway_request :: "string \<Rightarrow> ChatCompletionCommand \<Rightarrow> GatewayRequest" where
  "to_gateway_request trace_id c =
     \<lparr>gq_model = cc_model c, gq_messages = cc_messages c, gq_max_new_tokens = cc_max_new_tokens c,
      gq_streaming = cc_stream c, gq_temperature = cc_temperature c, gq_top_p = cc_top_p c,
      gq_random_seed = cc_random_seed c, gq_stop = cc_stop c, gq_trace_id = trace_id\<rparr>"

section \<open>Validators\<close>

definition invalid :: "string \<Rightarrow> string option \<Rightarrow> exn" where
  "invalid message param =
     RaisedGatewayError (GatewayError_make message 400 ''invalid_request_error'' ''invalid_request'' param)"

definition chat_string :: "json \<Rightarrow> string \<Rightarrow> bool \<Rightarrow> string result" where
  "chat_string v param non_empty =
     (let err = Inl (invalid (param @ '' must be a '' @ (if non_empty then ''non-empty '' else '''') @ ''string'')
                       (Some param))
      in case v of JStr s \<Rightarrow> if non_empty \<and> s = [] then err else Inr s | _ \<Rightarrow> err)"

definition chat_integer :: "json \<Rightarrow> string \<Rightarrow> int \<Rightarrow> int \<Rightarrow> int result" where
  "chat_integer v param minimum maximum =
     (let err = Inl (invalid (param @ '' is outside the supported range'') (Some param))
      in case v of JInt n \<Rightarrow> if n < minimum \<or> maximum < n then err else Inr n | _ \<Rightarrow> err)"

definition chat_number :: "json \<Rightarrow> string \<Rightarrow> pyfloat \<Rightarrow> pyfloat \<Rightarrow> pyfloat result" where
  "chat_number v param minimum_exclusive maximum =
     rbind (guard (is_number v) (invalid (param @ '' must be numeric'') (Some param))) (\<lambda>_.
     rbind (py_float v) (\<lambda>converted.
     rbind (guard (\<not> (\<not> isfinite converted \<or> float_le converted minimum_exclusive \<or> float_lt maximum converted))
              (invalid (param @ '' is outside the supported range'') (Some param))) (\<lambda>_.
     Inr converted)))"

definition chat_message :: "nat \<times> json \<Rightarrow> chat_message result" where
  "chat_message im =
     (let param = ''messages['' @ show_int (int (fst im)) @ '']'';
          err = Inl (invalid (param @ '' must contain exactly role and content'') (Some param))
      in case snd im of
           JDict d \<Rightarrow>
             if \<not> keys_are d [''role'', ''content''] then err
             else
               rbind (rbind (py_getitem d ''role'') (\<lambda>v. chat_string v (param @ ''.role'') True)) (\<lambda>role.
               rbind (guard (role \<in> set [''system'', ''user'', ''assistant''])
                        (invalid (param @ ''.role is unsupported by the fixed chat template'') (Some (param @ ''.role'')))) (\<lambda>_.
               rbind (rbind (py_getitem d ''content'') (\<lambda>v. chat_string v (param @ ''.content'') False)) (\<lambda>content.
               Inr (role, content))))
         | _ \<Rightarrow> err)"

definition chat_messages :: "json \<Rightarrow> chat_message list result" where
  "chat_messages v =
     (case v of
        JList (x # xs) \<Rightarrow> rmap chat_message (enumerate 0 (x # xs))
      | _ \<Rightarrow> Inl (invalid ''messages must be a non-empty array'' (Some ''messages'')))"

definition chat_stop :: "json \<Rightarrow> string list result" where
  "chat_stop v =
     (if v = JNull then Inr []
      else
        rbind (case v of
                 JStr s \<Rightarrow> Inr [v]
               | JList xs \<Rightarrow> Inr xs
               | _ \<Rightarrow> Inl (invalid ''stop must be a string or an array of strings'' (Some ''stop''))) (\<lambda>vs.
        rbind (guard (\<not> (vs = [] \<or> 4 < length vs))
                 (invalid ''stop must contain between 1 and 4 sequences'' (Some ''stop''))) (\<lambda>_.
        rbind (rmap (\<lambda>item. chat_string item ''stop'' True) vs) (\<lambda>ss.
        rbind (guard (card (set ss) = length ss) (invalid ''stop sequences must be unique'' (Some ''stop''))) (\<lambda>_.
        Inr ss)))))"

section \<open>\<open>parse_chat_completion_request\<close>\<close>

definition supported_fields :: "string list" where
  "supported_fields =
     [''model'', ''messages'', ''stream'', ''stream_options'', ''max_tokens'', ''max_completion_tokens'',
      ''temperature'', ''top_p'', ''seed'', ''stop'', ''n'', ''user'', ''frequency_penalty'', ''presence_penalty'']"

definition check_fields :: "(string \<times> json) list \<Rightarrow> unit result" where
  "check_fields d =
     rbind (case sort (filter (\<lambda>k. k \<notin> set supported_fields) (map fst d)) of
              [] \<Rightarrow> Inr ()
            | field # _ \<Rightarrow> Inl (invalid (''unsupported request field '' @ field) (Some field))) (\<lambda>_.
     rbind (guard (map_of d ''model'' \<noteq> None) (invalid ''missing required field model'' (Some ''model''))) (\<lambda>_.
     guard (map_of d ''messages'' \<noteq> None) (invalid ''missing required field messages'' (Some ''messages''))))"

definition chat_max_tokens :: "(string \<times> json) list \<Rightarrow> ModelManifest \<Rightarrow> int result" where
  "chat_max_tokens d manifest =
     rbind (guard (\<not> (map_of d ''max_tokens'' \<noteq> None \<and> map_of d ''max_completion_tokens'' \<noteq> None))
              (invalid ''max_tokens and max_completion_tokens are mutually exclusive'' (Some ''max_tokens''))) (\<lambda>_.
     chat_integer (py_get d ''max_completion_tokens''
         (py_get d ''max_tokens'' (JInt (min 32 (mm_max_output_tokens manifest)))))
       ''max_tokens'' 1 (mm_max_output_tokens manifest))"

definition check_penalty :: "(string \<times> json) list \<Rightarrow> string \<Rightarrow> unit result" where
  "check_penalty d penalty =
     (case map_of d penalty of
        None \<Rightarrow> Inr ()
      | Some number \<Rightarrow>
          rbind (guard (is_number number) (invalid (penalty @ '' must be numeric'') (Some penalty))) (\<lambda>_.
          rbind (py_float number) (\<lambda>converted.
          rbind (guard (isfinite converted) (invalid (penalty @ '' must be numeric'') (Some penalty))) (\<lambda>_.
          guard (converted = Fin 0) (invalid (''only '' @ penalty @ ''=0 is supported'') (Some penalty))))))"

definition chat_include_usage :: "json \<Rightarrow> bool \<Rightarrow> bool result" where
  "chat_include_usage stream_options stream =
     (if stream_options = JNull then Inr False
      else
        rbind (guard stream (invalid ''stream_options requires stream=true'' (Some ''stream_options''))) (\<lambda>_.
        let err = Inl (invalid ''stream_options must contain exactly boolean include_usage'' (Some ''stream_options''))
        in case stream_options of
             JDict d \<Rightarrow>
               if \<not> keys_are d [''include_usage''] then err
               else (case map_of d ''include_usage'' of Some (JBool b) \<Rightarrow> Inr b | _ \<Rightarrow> err)
           | _ \<Rightarrow> err))"

definition parse_chat_completion_request :: "json \<Rightarrow> ModelManifest \<Rightarrow> ChatCompletionCommand result" where
  "parse_chat_completion_request v manifest =
     (case v of
        JDict d \<Rightarrow>
          rbind (check_fields d) (\<lambda>_.
          rbind (rbind (py_getitem d ''model'') (\<lambda>x. chat_string x ''model'' True)) (\<lambda>model.
          rbind (rbind (py_getitem d ''messages'') chat_messages) (\<lambda>messages.
          rbind (case py_get d ''stream'' (JBool False) of
                   JBool b \<Rightarrow> Inr b | _ \<Rightarrow> Inl (invalid ''stream must be a boolean'' (Some ''stream''))) (\<lambda>stream.
          rbind (chat_integer (py_get d ''n'' (JInt 1)) ''n'' 1 1) (\<lambda>n.
          rbind (guard (n = 1) (invalid ''only n=1 is supported'' (Some ''n''))) (\<lambda>_.
          rbind (chat_max_tokens d manifest) (\<lambda>max_new_tokens.
          rbind (chat_number (py_get d ''temperature'' (JFloat (Fin 1))) ''temperature'' (Fin 0) (Fin 2)) (\<lambda>temperature.
          rbind (chat_number (py_get d ''top_p'' (JFloat (Fin 1))) ''top_p'' (Fin 0) (Fin 1)) (\<lambda>top_p.
          rbind (chat_integer (py_get d ''seed'' (JInt 0)) ''seed'' 0 (2 ^ 32 - 1)) (\<lambda>random_seed.
          rbind (chat_stop (py_get d ''stop'' JNull)) (\<lambda>stop.
          rbind (rmap (check_penalty d) [''frequency_penalty'', ''presence_penalty'']) (\<lambda>_.
          rbind (case map_of d ''user'' of
                   None \<Rightarrow> Inr [] | Some x \<Rightarrow> chat_string x ''user'' True) (\<lambda>_.
          rbind (chat_include_usage (py_get d ''stream_options'' JNull) stream) (\<lambda>include_usage.
          Inr \<lparr>cc_model = model, cc_messages = messages, cc_stream = stream, cc_include_usage = include_usage,
               cc_max_new_tokens = max_new_tokens, cc_temperature = temperature, cc_top_p = top_p,
               cc_random_seed = random_seed, cc_stop = stop\<rparr>))))))))))))))
      | _ \<Rightarrow> Inl (invalid ''request body must be a JSON object'' None))"

section \<open>Responses\<close>

definition openai_finish_reason :: "string option \<Rightarrow> string" where
  "openai_finish_reason v = (if v = Some ''length'' then ''length'' else ''stop'')"

definition usage_json :: "Usage \<Rightarrow> json" where
  "usage_json u = JDict
     [(''prompt_tokens'', JInt (us_prompt_tokens u)), (''completion_tokens'', JInt (us_completion_tokens u)),
      (''total_tokens'', JInt (us_prompt_tokens u + us_completion_tokens u))]"

definition json_option_str :: "string option \<Rightarrow> json" where
  "json_option_str v = (case v of None \<Rightarrow> JNull | Some s \<Rightarrow> JStr s)"

definition error_json :: "GatewayError \<Rightarrow> json" where
  "error_json g = JDict
     [(''error'', JDict
        [(''message'', JStr (ge_message g)), (''type'', JStr (ge_error_type g)),
         (''param'', json_option_str (ge_param g)), (''code'', JStr (ge_code g))])]"

definition chat_completion_json :: "string \<Rightarrow> int \<Rightarrow> string \<Rightarrow> string \<Rightarrow> GatewayTerminal \<Rightarrow> json" where
  "chat_completion_json completion_id created model content terminal = JDict
     [(''id'', JStr completion_id), (''object'', JStr ''chat.completion''), (''created'', JInt created),
      (''model'', JStr model),
      (''choices'', JList [JDict
         [(''index'', JInt 0),
          (''message'', JDict [(''role'', JStr ''assistant''), (''content'', JStr content)]),
          (''finish_reason'', JStr (openai_finish_reason (gt_finish_reason terminal)))]]),
      (''usage'', usage_json (gt_usage terminal))]"

definition chat_completion_chunk_json ::
  "string \<Rightarrow> int \<Rightarrow> string \<Rightarrow> (string \<times> string) list \<Rightarrow> string option \<Rightarrow> json" where
  "chat_completion_chunk_json completion_id created model delta finish_reason = JDict
     [(''id'', JStr completion_id), (''object'', JStr ''chat.completion.chunk''), (''created'', JInt created),
      (''model'', JStr model),
      (''choices'', JList [JDict
         [(''index'', JInt 0), (''delta'', JDict (map (\<lambda>(k, v). (k, JStr v)) delta)),
          (''finish_reason'', json_option_str finish_reason)]])]"

definition usage_chunk_json :: "string \<Rightarrow> int \<Rightarrow> string \<Rightarrow> Usage \<Rightarrow> json" where
  "usage_chunk_json completion_id created model usage = JDict
     [(''id'', JStr completion_id), (''object'', JStr ''chat.completion.chunk''), (''created'', JInt created),
      (''model'', JStr model), (''choices'', JList []), (''usage'', usage_json usage)]"

text \<open>\<open>json.dumps\<close> with the default \<open>allow_nan\<close> never raises here, so the text is \<open>json_text\<close>.\<close>

definition encode_sse :: "(rat \<Rightarrow> string) \<Rightarrow> json \<Rightarrow> bytes" where
  "encode_sse frepr v = utf8 (''data: '' @ json_text frepr v @ [CHR 0x0A, CHR 0x0A])"

end
