(* ===== verification/OpenAI_Props.thy ===== *)
theory OpenAI_Props
  imports OpenAI
begin

text \<open>What the request parser accepts and raises, and the framing of server-sent events.\<close>

section \<open>Accepted commands\<close>

definition command_ok :: "ModelManifest \<Rightarrow> ChatCompletionCommand \<Rightarrow> bool" where
  "command_ok manifest c \<longleftrightarrow>
     cc_model c \<noteq> [] \<and> cc_messages c \<noteq> [] \<and>
     list_all (\<lambda>m. fst m \<in> set [''system'', ''user'', ''assistant'']) (cc_messages c) \<and>
     1 \<le> cc_max_new_tokens c \<and> cc_max_new_tokens c \<le> mm_max_output_tokens manifest \<and>
     isfinite (cc_temperature c) \<and> float_lt (Fin 0) (cc_temperature c) \<and> float_le (cc_temperature c) (Fin 2) \<and>
     isfinite (cc_top_p c) \<and> float_lt (Fin 0) (cc_top_p c) \<and> float_le (cc_top_p c) (Fin 1) \<and>
     0 \<le> cc_random_seed c \<and> cc_random_seed c < 2 ^ 32 \<and>
     length (cc_stop c) \<le> 4 \<and> distinct (cc_stop c) \<and> list_all (\<lambda>s. s \<noteq> []) (cc_stop c) \<and>
     (cc_include_usage c \<longrightarrow> cc_stream c)"

lemma chat_string_Inr:
  "chat_string v p ne = Inr s \<longleftrightarrow> v = JStr s \<and> (ne \<longrightarrow> s \<noteq> [])"
  by (auto simp: chat_string_def Let_def split: json.splits if_splits)

lemma chat_integer_Inr:
  "chat_integer v p lo hi = Inr n \<longleftrightarrow> v = JInt n \<and> lo \<le> n \<and> n \<le> hi"
  by (auto simp: chat_integer_def Let_def split: json.splits if_splits)

lemma chat_number_range:
  assumes "chat_number v p (Fin lo) (Fin hi) = Inr x"
  shows "isfinite x \<and> float_lt (Fin lo) x \<and> float_le x (Fin hi)"
  using assms by (auto simp: chat_number_def result_simps isfinite_iff not_le)

lemma chat_message_role: "chat_message im = Inr m \<Longrightarrow> fst m \<in> set [''system'', ''user'', ''assistant'']"
  by (auto simp: chat_message_def Let_def result_simps split: json.splits if_splits)

lemma chat_messages_ok:
  assumes "chat_messages v = Inr ms"
  shows "ms \<noteq> [] \<and> list_all (\<lambda>m. fst m \<in> set [''system'', ''user'', ''assistant'']) ms"
proof -
  obtain x xs where v: "v = JList (x # xs)" and ms: "rmap chat_message (enumerate 0 (x # xs)) = Inr ms"
    using assms by (auto simp: chat_messages_def split: json.splits list.splits)
  have "length ms = Suc (length xs)" using rmap_length [OF ms] by simp
  moreover have "fst m \<in> set [''system'', ''user'', ''assistant'']" if "m \<in> set ms" for m
    using rmap_set [OF ms] that chat_message_role by blast
  ultimately show ?thesis by (auto simp: list_all_iff)
qed

lemma chat_stop_ok:
  assumes "chat_stop v = Inr ss"
  shows "length ss \<le> 4 \<and> distinct ss \<and> list_all (\<lambda>s. s \<noteq> []) ss"
proof (cases "v = JNull")
  case True
  with assms show ?thesis by (simp add: chat_stop_def)
next
  case False
  with assms obtain vs where vs: "length vs \<le> 4" "rmap (\<lambda>item. chat_string item ''stop'' True) vs = Inr ss"
    "card (set ss) = length ss"
    by (auto simp: chat_stop_def result_simps not_less)
  have "s \<noteq> []" if "s \<in> set ss" for s
    using rmap_set [OF vs(2)] that by (auto simp: chat_string_Inr)
  with vs rmap_length [OF vs(2)] show ?thesis by (auto simp: list_all_iff card_distinct)
qed

lemma include_usage_streams: "chat_include_usage v stream = Inr b \<Longrightarrow> b \<Longrightarrow> stream"
  by (auto simp: chat_include_usage_def result_simps split: if_splits)

lemma parse_fields:
  assumes "parse_chat_completion_request (JDict d) manifest = Inr c"
  shows "rbind (py_getitem d ''model'') (\<lambda>x. chat_string x ''model'' True) = Inr (cc_model c)"
    "rbind (py_getitem d ''messages'') chat_messages = Inr (cc_messages c)"
    "chat_max_tokens d manifest = Inr (cc_max_new_tokens c)"
    "chat_number (py_get d ''temperature'' (JFloat (Fin 1))) ''temperature'' (Fin 0) (Fin 2) = Inr (cc_temperature c)"
    "chat_number (py_get d ''top_p'' (JFloat (Fin 1))) ''top_p'' (Fin 0) (Fin 1) = Inr (cc_top_p c)"
    "chat_integer (py_get d ''seed'' (JInt 0)) ''seed'' 0 (2 ^ 32 - 1) = Inr (cc_random_seed c)"
    "chat_stop (py_get d ''stop'' JNull) = Inr (cc_stop c)"
    "chat_include_usage (py_get d ''stream_options'' JNull) (cc_stream c) = Inr (cc_include_usage c)"
  using assms by (auto simp: parse_chat_completion_request_def rbind_Inr split: json.splits)

section \<open>Exceptions\<close>

text \<open>What the HTTP layer turns into a 400 response.\<close>

definition request_error :: "exn \<Rightarrow> bool" where
  "request_error e \<longleftrightarrow> (\<exists>message param. e = invalid message param)"

text \<open>\<open>float\<close> of an integer literal that is too large raises \<open>OverflowError\<close>.\<close>

definition parse_error :: "exn \<Rightarrow> bool" where
  "parse_error e \<longleftrightarrow> request_error e \<or> e = OverflowError ''int too large to convert to float''"

lemma invalid_errors [simp]: "request_error (invalid m p)" "parse_error (invalid m p)"
  by (auto simp: request_error_def parse_error_def)

lemma float_of_int_raises: "raises_only parse_error (float_of_int n)"
  by (auto simp: float_of_int_def parse_error_def split: pyfloat.splits)

lemma py_float_raises: "is_number v \<Longrightarrow> raises_only parse_error (py_float v)"
  by (auto simp: py_float_def is_number_def float_of_int_raises split: json.splits)

lemma chat_validators_raise [raises_intros]:
  "raises_only parse_error (chat_string v p ne)" "raises_only parse_error (chat_integer v p lo hi)"
  by (auto simp: chat_string_def chat_integer_def Let_def split: json.splits)

lemma chat_number_raises [raises_intros]: "raises_only parse_error (chat_number v p lo hi)"
  unfolding chat_number_def by (intro raises_intros py_float_raises) (auto simp: result_simps)

lemma py_getitem_raises:
  "map_of d k \<noteq> None \<Longrightarrow> (\<And>v. raises_only P (f v)) \<Longrightarrow> raises_only P (rbind (py_getitem d k) f)"
  by (auto simp: py_getitem_def)

lemma chat_message_raises [raises_intros]: "raises_only parse_error (chat_message im)"
proof (cases "\<exists>d. snd im = JDict d \<and> keys_are d [''role'', ''content'']")
  case True
  then obtain d where d: "snd im = JDict d" "keys_are d [''role'', ''content'']" by blast
  then have "map_of d ''role'' \<noteq> None" "map_of d ''content'' \<noteq> None"
    using keys_are_lookup [OF d(2)] by fastforce+
  with d show ?thesis
    by (auto simp: chat_message_def Let_def intro!: raises_intros py_getitem_raises)
next
  case False
  then show ?thesis by (auto simp: chat_message_def Let_def split: json.splits)
qed

lemma chat_parts_raise [raises_intros]:
  "raises_only parse_error (chat_messages v)" "raises_only parse_error (chat_stop w)"
  "raises_only parse_error (check_fields d)" "raises_only parse_error (chat_max_tokens d manifest)"
  "raises_only parse_error (chat_include_usage v stream)"
proof -
  show "raises_only parse_error (chat_messages v)"
    by (cases v) (auto simp: chat_messages_def simp del: rmap.simps split: list.splits intro!: raises_intros)
  show "raises_only parse_error (chat_stop w)"
    by (cases w) (auto simp: chat_stop_def simp del: rmap.simps intro!: raises_intros)
  show "raises_only parse_error (check_fields d)"
    unfolding check_fields_def by (intro raises_intros) (auto split: list.splits)
  show "raises_only parse_error (chat_max_tokens d manifest)"
    unfolding chat_max_tokens_def by (intro raises_intros) auto
  show "raises_only parse_error (chat_include_usage v stream)"
    unfolding chat_include_usage_def Let_def
    by (auto intro!: raises_intros split: json.splits option.splits)
qed

lemma check_penalty_raises [raises_intros]: "raises_only parse_error (check_penalty d p)"
  unfolding check_penalty_def
  by (cases "map_of d p") (auto intro!: raises_intros py_float_raises simp: result_simps)

section \<open>Rendering a command\<close>

text \<open>The request body an API client sends for a command.\<close>

definition message_json :: "chat_message \<Rightarrow> json" where
  "message_json m = JDict [(''role'', JStr (fst m)), (''content'', JStr (snd m))]"

definition request_json :: "ChatCompletionCommand \<Rightarrow> json" where
  "request_json c = JDict
     ([(''model'', JStr (cc_model c)), (''messages'', JList (map message_json (cc_messages c))),
       (''stream'', JBool (cc_stream c)), (''max_tokens'', JInt (cc_max_new_tokens c)),
       (''temperature'', JFloat (cc_temperature c)), (''top_p'', JFloat (cc_top_p c)),
       (''seed'', JInt (cc_random_seed c)),
       (''stop'', if cc_stop c = [] then JNull else JList (map JStr (cc_stop c)))] @
      (if cc_include_usage c then [(''stream_options'', JDict [(''include_usage'', JBool True)])] else []))"

lemma messages_render:
  "list_all (\<lambda>m. fst m \<in> set [''system'', ''user'', ''assistant'']) ms \<Longrightarrow>
     rmap chat_message (enumerate n (map message_json ms)) = Inr ms"
proof (induction ms arbitrary: n)
  case (Cons m ms)
  have "chat_message (n, message_json m) = Inr m"
    using Cons.prems by (cases m)
      (auto simp: chat_message_def message_json_def keys_are_def py_getitem_def chat_string_def Let_def)
  with Cons show ?case by simp
qed simp

lemma stop_render:
  assumes "length ss \<le> 4" "distinct ss" "list_all (\<lambda>s. s \<noteq> []) ss" "ss \<noteq> []"
  shows "chat_stop (JList (map JStr ss)) = Inr ss"
proof -
  have "rmap (\<lambda>item. chat_string item ''stop'' True) (map JStr ss) = Inr ss"
    using assms(3) by (induction ss) (simp_all add: chat_string_def)
  with assms show ?thesis by (simp add: chat_stop_def distinct_card)
qed

lemma number_render:
  "isfinite x \<Longrightarrow> float_lt (Fin lo) x \<Longrightarrow> float_le x (Fin hi) \<Longrightarrow> chat_number (JFloat x) p (Fin lo) (Fin hi) = Inr x"
  by (auto simp: chat_number_def is_number_def py_float_def isfinite_iff)

lemma parse_request_json:
  assumes "command_ok manifest c"
  shows "parse_chat_completion_request (request_json c) manifest = Inr c"
proof -
  have stop: "chat_stop (if cc_stop c = [] then JNull else JList (map JStr (cc_stop c))) = Inr (cc_stop c)"
    using stop_render [of "cc_stop c"] assms by (auto simp: command_ok_def chat_stop_def)
  have msgs: "chat_messages (JList (map message_json (cc_messages c))) = Inr (cc_messages c)"
    using assms messages_render [of "cc_messages c" 0]
    by (cases "cc_messages c") (simp_all add: command_ok_def chat_messages_def)
  have nums: "chat_number (JFloat (cc_temperature c)) ''temperature'' (Fin 0) (Fin 2) = Inr (cc_temperature c)"
    "chat_number (JFloat (cc_top_p c)) ''top_p'' (Fin 0) (Fin 1) = Inr (cc_top_p c)"
    using assms by (simp_all add: command_ok_def number_render)
  have ints: "chat_integer (JInt (cc_max_new_tokens c)) ''max_tokens'' 1 (mm_max_output_tokens manifest) = Inr (cc_max_new_tokens c)"
    "chat_integer (JInt (cc_random_seed c)) ''seed'' 0 (2 ^ 32 - 1) = Inr (cc_random_seed c)"
    using assms by (simp_all add: command_ok_def chat_integer_Inr)
  have model: "chat_string (JStr (cc_model c)) ''model'' True = Inr (cc_model c)"
    using assms by (simp add: command_ok_def chat_string_Inr)
  show ?thesis
  proof (cases "cc_include_usage c")
    case True
    with assms have st: "cc_stream c" by (simp add: command_ok_def)
    with True stop msgs nums ints model show ?thesis
      by (simp add: parse_chat_completion_request_def request_json_def check_fields_def supported_fields_def
          py_getitem_def py_get_def chat_max_tokens_def check_penalty_def chat_include_usage_def keys_are_def
          chat_integer_def)
  next
    case False
    with stop msgs nums ints model show ?thesis
      by (simp add: parse_chat_completion_request_def request_json_def check_fields_def supported_fields_def
          py_getitem_def py_get_def chat_max_tokens_def check_penalty_def chat_include_usage_def
          chat_integer_def)
  qed
qed

definition sample_chat_manifest :: ModelManifest where
  "sample_chat_manifest =
     \<lparr>mm_model_id = ''m'', mm_revision = ''r'', mm_tokenizer_fingerprint = ''t'',
      mm_chat_template_fingerprint = ''c'', mm_engine_fingerprint = ''e'', mm_eos_token_id = 2,
      mm_pad_token_id = 0, mm_max_input_tokens = 16, mm_max_output_tokens = 16,
      mm_max_sequence_tokens = 32, mm_precision = ''fp16'', mm_max_batch_size = 2\<rparr>"

definition sample_command :: ChatCompletionCommand where
  "sample_command =
     \<lparr>cc_model = ''m'', cc_messages = [(''system'', []), (''user'', ''hi'')], cc_stream = True,
      cc_include_usage = True, cc_max_new_tokens = 8, cc_temperature = Fin (1 / 2), cc_top_p = Fin 1,
      cc_random_seed = 7, cc_stop = [''a'', ''b'']\<rparr>"

lemma sample_command_ok: "command_ok sample_chat_manifest sample_command"
  by (simp add: command_ok_def sample_command_def sample_chat_manifest_def)

lemma parse_command_ok:
  assumes "parse_chat_completion_request v manifest = Inr c"
  shows "command_ok manifest c"
proof -
  obtain d where v: "v = JDict d" using assms by (cases v) (simp_all add: parse_chat_completion_request_def)
  note parts = parse_fields [OF assms [unfolded v]]
  have "cc_model c \<noteq> []" using parts(1) by (auto simp: rbind_Inr chat_string_Inr)
  moreover have "cc_messages c \<noteq> [] \<and> list_all (\<lambda>m. fst m \<in> set [''system'', ''user'', ''assistant'']) (cc_messages c)"
    using parts(2) chat_messages_ok by (auto simp: rbind_Inr)
  moreover have "1 \<le> cc_max_new_tokens c \<and> cc_max_new_tokens c \<le> mm_max_output_tokens manifest"
    using parts(3) by (auto simp: chat_max_tokens_def rbind_Inr chat_integer_Inr)
  moreover have "0 \<le> cc_random_seed c \<and> cc_random_seed c < 2 ^ 32" using parts(6) by (auto simp: chat_integer_Inr)
  ultimately show ?thesis
    using chat_number_range [OF parts(4)] chat_number_range [OF parts(5)] chat_stop_ok [OF parts(7)]
      include_usage_streams [OF parts(8)]
    by (simp add: command_ok_def)
qed

lemma parse_request_raises: "raises_only parse_error (parse_chat_completion_request v manifest)"
proof (cases v)
  case (JDict d)
  have "map_of d ''model'' \<noteq> None \<and> map_of d ''messages'' \<noteq> None" if "check_fields d = Inr u" for u
    using that by (auto simp: check_fields_def result_simps)
  with JDict show ?thesis unfolding parse_chat_completion_request_def
    by (auto simp del: rmap.simps intro!: raises_intros py_getitem_raises split: json.splits option.splits)
qed (simp_all add: parse_chat_completion_request_def)

lemma temperature_overflow:
  assumes "float_of_int n = Inl e"
  shows "parse_chat_completion_request (JDict
     [(''model'', JStr ''m''),
      (''messages'', JList [JDict [(''role'', JStr ''user''), (''content'', JStr ''hi'')]]),
      (''temperature'', JInt n)]) sample_chat_manifest = Inl e"
  by (simp add: parse_chat_completion_request_def check_fields_def py_getitem_def chat_string_def chat_messages_def
      chat_message_def keys_are_def chat_max_tokens_def chat_integer_def sample_chat_manifest_def supported_fields_def
      py_get_def chat_number_def is_number_def py_float_def assms)

section \<open>Properties of the parser\<close>

text \<open>
  C33. The parser accepts exactly the well-formed commands (a model name, at least one message
  with a known role, an output bound between one and the model's limit, a temperature in
  (0, 2] and a top_p in (0, 1], a 32-bit seed, at most four distinct non-empty stop strings,
  usage reporting only on streams): what it returns is well formed, and the body an API
  client renders for a well-formed command is parsed back to the same command.
\<close>

theorem parse_exact:
  "(command_ok manifest c \<longleftrightarrow> (\<exists>v. parse_chat_completion_request v manifest = Inr c)) \<and>
   (command_ok manifest c \<longleftrightarrow> parse_chat_completion_request (request_json c) manifest = Inr c)"
  using parse_command_ok parse_request_json by blast

text \<open>
  C34. The parser raises nothing but a 400 \<open>invalid_request\<close> error naming the offending field,
  or, for an integer temperature, top_p or penalty beyond the float range, an
  \<open>OverflowError\<close> that the HTTP handler does not catch.
\<close>

theorem parse_raises: "raises_only parse_error (parse_chat_completion_request v manifest)"
  by (rule parse_request_raises)

text \<open>
  The uncaught case occurs: a request that is valid but for the integer temperature
  \<open>2 ^ 1024\<close> makes the parser raise \<open>OverflowError\<close> instead of reporting the field as out of
  range.
\<close>

theorem huge_temperature_uncaught:
  "parse_chat_completion_request (JDict
     [(''model'', JStr ''m''),
      (''messages'', JList [JDict [(''role'', JStr ''user''), (''content'', JStr ''hi'')]]),
      (''temperature'', JInt (2 ^ 1024))]) sample_chat_manifest =
   Inl (OverflowError ''int too large to convert to float'')"
  by (rule temperature_overflow [OF float_of_huge])

section \<open>Server-sent events\<close>

definition newline_free :: "string \<Rightarrow> bool" where
  "newline_free s \<longleftrightarrow> list_all (\<lambda>c. c \<noteq> CHR 0x0A \<and> c \<noteq> CHR 0x0D) s"

lemma newline_free_simps [simp]:
  "newline_free []" "newline_free (s @ u) \<longleftrightarrow> newline_free s \<and> newline_free u"
  "newline_free (c # s) \<longleftrightarrow> c \<noteq> CHR 0x0A \<and> c \<noteq> CHR 0x0D \<and> newline_free s"
  "newline_free (concat ss) \<longleftrightarrow> list_all newline_free ss"
  by (auto simp: newline_free_def list_all_iff)

lemma char_of_newline: "(char_of (n :: nat) :: char) = CHR 0x0A \<longleftrightarrow> n mod 256 = 10"
  "(char_of (n :: nat) :: char) = CHR 0x0D \<longleftrightarrow> n mod 256 = 13"
  by (simp_all add: char_of_eq_iff take_bit_eq_mod)

lemma newline_free_escape: "newline_free (escape_char c)"
proof -
  have "hex_digit n \<noteq> CHR 0x0A \<and> hex_digit n \<noteq> CHR 0x0D" if "n < 16" for n
    using that by (simp add: hex_digit_def char_of_newline)
  moreover have "of_char c div 16 < (16 :: nat)" using less_mult_imp_div_less [of "of_char c" 16 16] by simp
  ultimately show ?thesis by (simp add: escape_char_def)
qed

lemma newline_free_quote: "newline_free (quote_string s)"
  by (simp add: quote_string_def list_all_iff newline_free_escape)

lemma newline_free_join: "newline_free sep \<Longrightarrow> list_all newline_free ss \<Longrightarrow> newline_free (join sep ss)"
  by (induction sep ss rule: join.induct) auto

lemma newline_free_show_nat: "newline_free (show_nat n)"
proof (induction n rule: show_nat.induct)
  case (1 n)
  have "newline_free [char_of (48 + n mod 10 :: nat)]" by (simp add: char_of_newline)
  with 1 show ?case
    by (cases "n < 10") (simp_all add: show_nat.simps [of n] Let_def del: newline_free_simps(3))
qed

lemma newline_free_json:
  assumes "\<And>x. newline_free (frepr x)"
  shows "newline_free (json_text frepr v)"
  using assms
  by (induction frepr v rule: json_text.induct)
    (auto intro!: newline_free_join simp: list_all_iff newline_free_quote show_int_def newline_free_show_nat)

text \<open>A reader of server-sent events: an event ends at an empty line.\<close>

fun sse_split :: "bytes \<Rightarrow> bytes \<Rightarrow> bytes list" where
  "sse_split acc [] = []"
| "sse_split acc (b # bs) =
     (if b = 10 \<and> bs \<noteq> [] \<and> hd bs = 10 then acc # sse_split [] (tl bs) else sse_split (acc @ [b]) bs)"

lemma sse_split_plain:
  "newline_free s \<Longrightarrow> sse_split acc (utf8 s @ 10 # 10 # bs) = (acc @ utf8 s) # sse_split [] bs"
proof (induction s arbitrary: acc)
  case (Cons c s)
  have "(of_nat (of_char c) :: byte) \<noteq> 10"
    using Cons.prems byte_of_char_inj [of c "CHR 0x0A"] by simp
  with Cons show ?case by (simp add: utf8_def)
qed (simp add: utf8_def)

text \<open>
  The event stream is unambiguous: whatever texts the JSON documents contain, each of
  them is written as one event, and a reader that splits the stream at empty lines gets back
  exactly the documents in order (a float is printed without line breaks).
\<close>

theorem sse_roundtrip:
  assumes "\<And>x. newline_free (frepr x)"
  shows "sse_split [] (concat (map (encode_sse frepr) vs)) = map (\<lambda>v. utf8 (''data: '' @ json_text frepr v)) vs"
proof (induction vs)
  case (Cons v vs)
  have "encode_sse frepr v = utf8 (''data: '' @ json_text frepr v) @ [10, 10]"
    by (simp add: encode_sse_def utf8_def)
  moreover have "newline_free (''data: '' @ json_text frepr v)" using newline_free_json [OF assms] by simp
  ultimately show ?case using Cons.IH sse_split_plain [of "''data: '' @ json_text frepr v" "[]"] by simp
qed simp

theorem sse_roundtrip_witness:
  "sse_split [] (encode_sse (\<lambda>_. ''1.0'') (JStr [CHR 0x0A, CHR 0x0A])) =
     [utf8 (''data: '' @ json_text (\<lambda>_. ''1.0'') (JStr [CHR 0x0A, CHR 0x0A]))]"
  using sse_roundtrip [of "\<lambda>_. ''1.0''" "[JStr [CHR 0x0A, CHR 0x0A]]"] by simp

end
