(* ===== verification/Config.thy ===== *)
theory Config
  imports Client OpenAI_Props
begin

text \<open>
  \<open>config.py\<close> and \<open>build_gateway_service\<close> of \<open>api.py\<close>: loading and validating the Gateway
  configuration and constructing the client and the service from it. The environment
  (\<open>file_env\<close>) reads files, expands the home directory and resolves symbolic links; a
  path is its text.
\<close>

section \<open>Files and paths\<close>

datatype file_failure = ReadOSError string | ReadDecodeError string

record file_env =
  fe_read :: "string \<Rightarrow> file_failure + bytes"
  fe_expanduser :: "string \<Rightarrow> string result"
  fe_resolve :: "string \<Rightarrow> string result"

definition is_absolute :: "string \<Rightarrow> bool" where
  "is_absolute p \<longleftrightarrow> take 1 p = ''/''"

definition path_join :: "string \<Rightarrow> string \<Rightarrow> string" where
  "path_join base p = (if is_absolute p then p else base @ ''/'' @ p)"

definition path_parent :: "string \<Rightarrow> string" where
  "path_parent p =
     (let d = rev (tl (dropWhile (\<lambda>c. c \<noteq> CHR ''/'') (rev p))) in if d = [] then ''/'' else d)"

section \<open>Validators\<close>

fun config_json_failure :: "string \<Rightarrow> json_failure \<Rightarrow> exn" where
  "config_json_failure description (JSONConstant c) = GatewayConfigError (''invalid JSON constant '' @ c)"
| "config_json_failure description (UnicodeDecodeError m) =
     GatewayConfigError (''failed to parse '' @ description @ '': '' @ m)"
| "config_json_failure description (JSONDecodeError m) =
     GatewayConfigError (''failed to parse '' @ description @ '': '' @ m)"
| "config_json_failure description (RecursionError m) = RuntimeError m"
| "config_json_failure description (IntegerDigits m) = ValueError m"

definition load_json_object :: "loads_fun \<Rightarrow> file_env \<Rightarrow> string \<Rightarrow> string \<Rightarrow> (string \<times> json) list result" where
  "load_json_object loads env path description =
     (case fe_read env path of
        Inl (ReadOSError _) \<Rightarrow> Inl (GatewayConfigError (''failed to read '' @ description @ '': '' @ path))
      | Inl (ReadDecodeError m) \<Rightarrow> Inl (ValueError m)
      | Inr payload \<Rightarrow>
          (case loads payload of
             Inl f \<Rightarrow> Inl (config_json_failure description f)
           | Inr (JDict d) \<Rightarrow> Inr d
           | Inr _ \<Rightarrow> Inl (GatewayConfigError (description @ '' must be a JSON object''))))"

definition require_fields ::
  "(string \<times> json) list \<Rightarrow> string list \<Rightarrow> string list \<Rightarrow> string \<Rightarrow> unit result" where
  "require_fields d required optional description =
     (let fields = map fst d;
          missing = filter (\<lambda>k. k \<notin> set fields) required;
          unexpected = remdups (filter (\<lambda>k. k \<notin> set required \<and> k \<notin> set optional) fields)
      in rbind (guard (missing = [])
                  (GatewayConfigError (description @ '' is missing fields: '' @ join '', '' (sort missing)))) (\<lambda>_.
         guard (unexpected = [])
           (GatewayConfigError (description @ '' contains unexpected fields: '' @ join '', '' (sort unexpected)))))"

definition config_string :: "json \<Rightarrow> string \<Rightarrow> string result" where
  "config_string v description =
     (let err = Inl (GatewayConfigError (description @ '' must be a non-empty string''))
      in case v of JStr s \<Rightarrow> if s = [] then err else Inr s | _ \<Rightarrow> err)"

definition config_integer :: "json \<Rightarrow> string \<Rightarrow> int \<Rightarrow> int \<Rightarrow> int result" where
  "config_integer v description minimum maximum =
     (let err = Inl (GatewayConfigError (description @ '' is outside the supported range''))
      in case v of JInt n \<Rightarrow> if n < minimum \<or> maximum < n then err else Inr n | _ \<Rightarrow> err)"

definition config_number :: "json \<Rightarrow> string \<Rightarrow> pyfloat result" where
  "config_number v description =
     rbind (guard (is_number v) (GatewayConfigError (description @ '' must be numeric''))) (\<lambda>_.
     rbind (py_float v) (\<lambda>converted.
     rbind (guard (\<not> (\<not> isfinite converted \<or> float_le converted (Fin 0)))
              (GatewayConfigError (description @ '' must be finite and positive''))) (\<lambda>_.
     Inr converted)))"

definition item_string :: "(string \<times> json) list \<Rightarrow> string \<Rightarrow> string \<Rightarrow> string result" where
  "item_string d key description = rbind (py_getitem d key) (\<lambda>v. config_string v description)"

definition item_integer :: "(string \<times> json) list \<Rightarrow> string \<Rightarrow> string \<Rightarrow> int \<Rightarrow> int result" where
  "item_integer d key description minimum =
     rbind (py_getitem d key) (\<lambda>v. config_integer v description minimum u31_max)"

definition manifest_fields :: "string list" where
  "manifest_fields =
     [''model_id'', ''revision'', ''tokenizer_fingerprint'', ''chat_template_fingerprint'', ''engine_fingerprint'',
      ''eos_token_id'', ''pad_token_id'', ''max_input_tokens'', ''max_output_tokens'', ''max_sequence_tokens'',
      ''precision'', ''max_batch_size'']"

definition config_manifest :: "json \<Rightarrow> ModelManifest result" where
  "config_manifest v =
     (case v of
        JDict d \<Rightarrow>
          rbind (require_fields d manifest_fields [] ''worker manifest'') (\<lambda>_.
          rbind (item_string d ''model_id'' ''manifest.model_id'') (\<lambda>model_id.
          rbind (item_string d ''revision'' ''manifest.revision'') (\<lambda>revision.
          rbind (item_string d ''tokenizer_fingerprint'' ''manifest.tokenizer_fingerprint'') (\<lambda>tokenizer_fingerprint.
          rbind (item_string d ''chat_template_fingerprint'' ''manifest.chat_template_fingerprint'') (\<lambda>chat_template_fingerprint.
          rbind (item_string d ''engine_fingerprint'' ''manifest.engine_fingerprint'') (\<lambda>engine_fingerprint.
          rbind (item_integer d ''eos_token_id'' ''manifest.eos_token_id'' 0) (\<lambda>eos_token_id.
          rbind (item_integer d ''pad_token_id'' ''manifest.pad_token_id'' 0) (\<lambda>pad_token_id.
          rbind (item_integer d ''max_input_tokens'' ''manifest.max_input_tokens'' 1) (\<lambda>max_input_tokens.
          rbind (item_integer d ''max_output_tokens'' ''manifest.max_output_tokens'' 1) (\<lambda>max_output_tokens.
          rbind (item_integer d ''max_sequence_tokens'' ''manifest.max_sequence_tokens'' 1) (\<lambda>max_sequence_tokens.
          rbind (item_string d ''precision'' ''manifest.precision'') (\<lambda>precision.
          rbind (item_integer d ''max_batch_size'' ''manifest.max_batch_size'' 1) (\<lambda>max_batch_size.
          rbind (guard (\<not> (max_sequence_tokens < max_input_tokens \<or> max_sequence_tokens < max_output_tokens))
                   (GatewayConfigError ''manifest token limits exceed max_sequence_tokens'')) (\<lambda>_.
          Inr \<lparr>mm_model_id = model_id, mm_revision = revision, mm_tokenizer_fingerprint = tokenizer_fingerprint,
               mm_chat_template_fingerprint = chat_template_fingerprint, mm_engine_fingerprint = engine_fingerprint,
               mm_eos_token_id = eos_token_id, mm_pad_token_id = pad_token_id,
               mm_max_input_tokens = max_input_tokens, mm_max_output_tokens = max_output_tokens,
               mm_max_sequence_tokens = max_sequence_tokens, mm_precision = precision,
               mm_max_batch_size = max_batch_size\<rparr>))))))))))))))
      | _ \<Rightarrow> Inl (GatewayConfigError ''worker manifest must be a JSON object''))"

section \<open>\<open>GatewayConfig\<close>\<close>

record GatewayConfig =
  cf_worker_config_path :: string
  cf_tokenizer_path :: string
  cf_socket_path :: string
  cf_manifest :: ModelManifest
  cf_host :: string
  cf_port :: int
  cf_log_level :: string
  cf_accept_timeout_seconds :: pyfloat
  cf_request_timeout_seconds :: pyfloat
  cf_health_timeout_seconds :: pyfloat
  cf_event_poll_seconds :: pyfloat
  cf_cancel_drain_timeout_seconds :: pyfloat
  cf_shutdown_grace_seconds :: pyfloat
  cf_max_http_body_bytes :: int
  cf_max_pending_requests :: int
  cf_max_client_delta_events_per_request :: int
  cf_max_sse_delta_events_per_request :: int
  cf_sampling_top_k :: int

definition config_required :: "string list" where
  "config_required = [''worker_config_path'', ''tokenizer_path'']"

definition config_optional :: "string list" where
  "config_optional =
     [''host'', ''port'', ''log_level'', ''accept_timeout_seconds'', ''request_timeout_seconds'',
      ''health_timeout_seconds'', ''event_poll_seconds'', ''cancel_drain_timeout_seconds'',
      ''shutdown_grace_seconds'', ''max_http_body_bytes'', ''max_pending_requests'',
      ''max_client_delta_events_per_request'', ''max_sse_delta_events_per_request'', ''sampling_top_k'']"

definition resolve_path :: "file_env \<Rightarrow> string \<Rightarrow> string \<Rightarrow> string result" where
  "resolve_path env base v =
     rbind (fe_expanduser env v) (\<lambda>p. fe_resolve env (path_join base p))"

definition get_number :: "(string \<times> json) list \<Rightarrow> string \<Rightarrow> rat \<Rightarrow> pyfloat result" where
  "get_number root_object key dflt = config_number (py_get root_object key (JFloat (float_of_rat dflt))) key"

definition get_integer :: "(string \<times> json) list \<Rightarrow> string \<Rightarrow> int \<Rightarrow> int \<Rightarrow> int result" where
  "get_integer root_object key dflt maximum = config_integer (py_get root_object key (JInt dflt)) key 1 maximum"

definition get_string :: "(string \<times> json) list \<Rightarrow> string \<Rightarrow> string \<Rightarrow> string result" where
  "get_string root_object key dflt = config_string (py_get root_object key (JStr dflt)) key"

text \<open>The part of \<open>load\<close> after the files are read: \<open>d\<close> is the Gateway configuration.\<close>

definition config_values ::
  "(string \<times> json) list \<Rightarrow> string \<Rightarrow> string \<Rightarrow> string \<Rightarrow> ModelManifest \<Rightarrow> GatewayConfig result" where
  "config_values d worker_config_path tokenizer_path socket_path manifest =
     rbind (get_string d ''host'' ''127.0.0.1'') (\<lambda>host.
     rbind (get_integer d ''port'' 8000 65535) (\<lambda>port.
     rbind (get_string d ''log_level'' ''info'') (\<lambda>log_level.
     rbind (get_number d ''accept_timeout_seconds'' 10) (\<lambda>accept_timeout.
     rbind (get_number d ''request_timeout_seconds'' 120) (\<lambda>request_timeout.
     rbind (get_number d ''health_timeout_seconds'' 1) (\<lambda>health_timeout.
     rbind (get_number d ''event_poll_seconds'' (1 / 10)) (\<lambda>event_poll.
     rbind (get_number d ''cancel_drain_timeout_seconds'' 30) (\<lambda>drain_timeout.
     rbind (get_number d ''shutdown_grace_seconds'' 30) (\<lambda>shutdown_grace.
     rbind (get_integer d ''max_http_body_bytes'' (1024 * 1024) u31_max) (\<lambda>max_body.
     rbind (get_integer d ''max_pending_requests'' 8 u31_max) (\<lambda>max_pending.
     rbind (get_integer d ''max_client_delta_events_per_request'' 64 u31_max) (\<lambda>max_client.
     rbind (get_integer d ''max_sse_delta_events_per_request'' 32 u31_max) (\<lambda>max_sse.
     rbind (get_integer d ''sampling_top_k'' 1 u31_max) (\<lambda>top_k.
     rbind (guard (\<not> max_client < max_sse)
              (GatewayConfigError ''max_sse_delta_events_per_request must not exceed the GenerationClient delta capacity'')) (\<lambda>_.
     rbind (guard (log_level \<in> set [''critical'', ''error'', ''warning'', ''info'', ''debug''])
              (GatewayConfigError ''log_level is unsupported'')) (\<lambda>_.
     Inr \<lparr>cf_worker_config_path = worker_config_path, cf_tokenizer_path = tokenizer_path,
          cf_socket_path = socket_path, cf_manifest = manifest, cf_host = host, cf_port = port,
          cf_log_level = log_level, cf_accept_timeout_seconds = accept_timeout,
          cf_request_timeout_seconds = request_timeout, cf_health_timeout_seconds = health_timeout,
          cf_event_poll_seconds = event_poll, cf_cancel_drain_timeout_seconds = drain_timeout,
          cf_shutdown_grace_seconds = shutdown_grace, cf_max_http_body_bytes = max_body,
          cf_max_pending_requests = max_pending, cf_max_client_delta_events_per_request = max_client,
          cf_max_sse_delta_events_per_request = max_sse, cf_sampling_top_k = top_k\<rparr>))))))))))))))))"

definition GatewayConfig_load :: "loads_fun \<Rightarrow> file_env \<Rightarrow> string \<Rightarrow> GatewayConfig result" where
  "GatewayConfig_load loads env path =
     rbind (rbind (fe_expanduser env path) (fe_resolve env)) (\<lambda>config_path.
     rbind (load_json_object loads env config_path ''Gateway configuration'') (\<lambda>d.
     rbind (require_fields d config_required config_optional ''Gateway configuration'') (\<lambda>_.
     rbind (rbind (item_string d ''worker_config_path'' ''worker_config_path'')
              (resolve_path env (path_parent config_path))) (\<lambda>worker_config_path.
     rbind (rbind (item_string d ''tokenizer_path'' ''tokenizer_path'')
              (resolve_path env (path_parent config_path))) (\<lambda>tokenizer_path.
     rbind (load_json_object loads env worker_config_path ''Worker configuration'') (\<lambda>worker.
     rbind (guard (map_of worker ''socket_path'' \<noteq> None \<and> map_of worker ''manifest'' \<noteq> None)
              (GatewayConfigError ''Worker configuration must contain socket_path and manifest'')) (\<lambda>_.
     rbind (item_string worker ''socket_path'' ''worker socket_path'') (\<lambda>socket_value.
     rbind (resolve_path env (path_parent worker_config_path) socket_value) (\<lambda>socket_path.
     rbind (rbind (py_getitem worker ''manifest'') config_manifest) (\<lambda>manifest.
     config_values d worker_config_path tokenizer_path socket_path manifest))))))))))"

section \<open>Building the service\<close>

definition client_config :: "GatewayConfig \<Rightarrow> GenerationClientConfig" where
  "client_config c =
     \<lparr>gc_socket_path = cf_socket_path c, gc_expected_manifest = cf_manifest c,
      gc_connect_timeout = cf_accept_timeout_seconds c, gc_handshake_timeout = cf_accept_timeout_seconds c,
      gc_max_frame_payload_bytes = DEFAULT_MAX_FRAME_PAYLOAD_BYTES,
      gc_max_pending_requests = cf_max_pending_requests c,
      gc_max_delta_events_per_request = cf_max_client_delta_events_per_request c\<rparr>"

definition runtime_options :: "GatewayConfig \<Rightarrow> GatewayRuntimeOptions" where
  "runtime_options c =
     \<lparr>ro_accept_timeout_seconds = cf_accept_timeout_seconds c,
      ro_request_timeout_seconds = cf_request_timeout_seconds c,
      ro_health_timeout_seconds = cf_health_timeout_seconds c,
      ro_cancel_drain_timeout_seconds = cf_cancel_drain_timeout_seconds c,
      ro_shutdown_grace_seconds = cf_shutdown_grace_seconds c,
      ro_max_sse_delta_events_per_request = cf_max_sse_delta_events_per_request c,
      ro_sampling_top_k = cf_sampling_top_k c\<rparr>"

text \<open>\<open>tokenizer\<close> is what \<open>HuggingFaceTokenizer.load\<close> returned, \<open>randbits\<close> what
  \<open>secrets.randbits(62)\<close> did.\<close>

definition build_gateway_service ::
  "(string \<Rightarrow> string) \<Rightarrow> HuggingFaceTokenizer result \<Rightarrow> int \<Rightarrow> GatewayConfig \<Rightarrow> (HuggingFaceTokenizer \<times> Client Service) result" where
  "build_gateway_service srepr tokenizer randbits c =
     rbind tokenizer (\<lambda>t.
     rbind (tokenizer_validate_manifest srepr t (cf_manifest c)) (\<lambda>_.
     rbind (GenerationClient_init (client_config c)) (\<lambda>client.
     rbind (options_post_init (runtime_options c)) (\<lambda>_.
     Inr (t, GatewayService_init randbits client (cf_manifest c) (runtime_options c))))))"

end
