(* ===== verification/Api.thy ===== *)
theory Api
  imports Config
begin

text \<open>
  The HTTP side of the Gateway, \<open>api.py\<close>: reading the request body, the endpoints, and the
  loops that collect or stream a session. FastAPI is not modelled: a response is its status
  and JSON document, its text, or the byte chunks an event stream yields. A loop is run for
  a list of rounds; a round says what the loop sees when it looks: the client has gone away,
  the task is cancelled, or an event is awaited for the poll interval while other tasks run.
\<close>

section \<open>The request body\<close>

fun read_bounded_body :: "int \<Rightarrow> bytes list \<Rightarrow> bytes \<Rightarrow> bytes result" where
  "read_bounded_body max_bytes [] body =
     (if body = [] then Inl (RaisedGatewayError (GatewayError_make ''request body must not be empty'' 400
        ''invalid_request_error'' ''invalid_json'' None))
      else Inr body)"
| "read_bounded_body max_bytes (chunk # chunks) body =
     (if max_bytes < int (length body) + int (length chunk)
      then Inl (RaisedGatewayError (GatewayError_make ''request body exceeds the configured limit'' 413
             ''invalid_request_error'' ''request_too_large'' None))
      else read_bounded_body max_bytes chunks (body @ chunk))"

definition invalid_json :: "string \<Rightarrow> exn" where
  "invalid_json m =
     RaisedGatewayError (GatewayError_make (''invalid JSON request body: '' @ m) 400 ''invalid_request_error''
       ''invalid_json'' None)"

fun body_failure :: "json_failure \<Rightarrow> exn" where
  "body_failure (UnicodeDecodeError m) = invalid_json m"
| "body_failure (JSONDecodeError m) = invalid_json m"
| "body_failure (JSONConstant c) = invalid_json (''invalid JSON constant '' @ c)"
| "body_failure (IntegerDigits m) = invalid_json m"
| "body_failure (RecursionError m) = RuntimeError m"

definition parse_body :: "loads_fun \<Rightarrow> bytes \<Rightarrow> json result" where
  "parse_body loads body = (case loads body of Inl f \<Rightarrow> Inl (body_failure f) | Inr v \<Rightarrow> Inr v)"

section \<open>Application state and the simple endpoints\<close>

record 'c ApplicationState =
  as_config :: GatewayConfig
  as_service :: "(tokenizer_ops \<times> 'c Service) option"
  as_startup_error :: "string option"

datatype response = JsonResponse int json | PlainText string

definition unavailable_error :: "'c ApplicationState \<Rightarrow> GatewayError" where
  "unavailable_error st =
     GatewayError_make
       (case as_startup_error st of
          None \<Rightarrow> ''Gateway is not initialized''
        | Some m \<Rightarrow> if m = [] then ''Gateway is not initialized'' else m)
       503 ''server_error'' ''not_ready'' None"

definition require_service :: "'c ApplicationState \<Rightarrow> GatewayError + (tokenizer_ops \<times> 'c Service)" where
  "require_service st = (case as_service st of None \<Rightarrow> Inl (unavailable_error st) | Some sv \<Rightarrow> Inr sv)"

definition error_response :: "GatewayError \<Rightarrow> response" where
  "error_response g = JsonResponse (ge_http_status g) (error_json g)"

text \<open>Before the \<open>yield\<close> of \<open>lifespan\<close>; \<open>built\<close> is the result of \<open>build_gateway_service\<close>.\<close>

definition lifespan_start ::
  "'c client_ops \<Rightarrow> (tokenizer_ops \<times> 'c Service) result \<Rightarrow> 'c ApplicationState \<Rightarrow> 'c ApplicationState" where
  "lifespan_start ops built st =
     (case (case as_service st of Some sv \<Rightarrow> Inr sv | None \<Rightarrow> built) of
        Inl e \<Rightarrow> st\<lparr>as_startup_error := Some (exn_str e)\<rparr>
      | Inr (tok, s) \<Rightarrow>
          (case service_start ops s of
             (started, s') \<Rightarrow>
               st\<lparr>as_service := Some (tok, s'),
                  as_startup_error := (if started then None else sv_last_readiness_error s')\<rparr>))"

definition lifespan_stop ::
  "('c Service \<Rightarrow> 'c Service) \<Rightarrow> 'c ApplicationState \<Rightarrow> 'c ApplicationState" where
  "lifespan_stop stop st = st\<lparr>as_service := map_option (\<lambda>(tok, s). (tok, stop s)) (as_service st)\<rparr>"

definition healthz :: response where
  "healthz = JsonResponse 200 (JDict [(''status'', JStr ''ok'')])"

definition not_ready_response :: "GatewayError \<Rightarrow> response" where
  "not_ready_response g =
     JsonResponse 503 (JDict [(''status'', JStr ''not_ready''), (''reason'', JStr (ge_message g))])"

definition readyz :: "'c client_ops \<Rightarrow> 'c ApplicationState \<Rightarrow> response \<times> 'c ApplicationState" where
  "readyz ops st =
     (case require_service st of
        Inl g \<Rightarrow> (not_ready_response g, st\<lparr>as_startup_error := Some (ge_message g)\<rparr>)
      | Inr (tok, s) \<Rightarrow>
          (case check_readiness ops s of
             (Inl g, s') \<Rightarrow>
               (not_ready_response g, st\<lparr>as_service := Some (tok, s'), as_startup_error := Some (ge_message g)\<rparr>)
           | (Inr stats, s') \<Rightarrow>
               (JsonResponse 200 (JDict
                  [(''status'', JStr ''ready''), (''model'', JStr (mm_model_id (sv_manifest s'))),
                   (''worker_connected'', JBool (service_connected ops s')),
                   (''active_requests'', JInt (ss_active_requests stats))]),
                st\<lparr>as_service := Some (tok, s'), as_startup_error := None\<rparr>)))"

definition metrics_endpoint :: "'c client_ops \<Rightarrow> 'c ApplicationState \<Rightarrow> response \<times> 'c ApplicationState" where
  "metrics_endpoint ops st =
     (case as_service st of
        None \<Rightarrow>
          (PlainText (''kim_llm_gateway_connected 0'' @ [CHR 0x0A] @ ''kim_llm_gateway_ready 0'' @ [CHR 0x0A]), st)
      | Some (tok, s) \<Rightarrow>
          (case collect_worker_stats ops s of
             (stats, s') \<Rightarrow> (PlainText (render_metrics ops stats s'), st\<lparr>as_service := Some (tok, s')\<rparr>)))"

definition models :: "'c ApplicationState \<Rightarrow> response" where
  "models st =
     (case require_service st of
        Inl g \<Rightarrow> error_response g
      | Inr (tok, s) \<Rightarrow>
          JsonResponse 200 (JDict
            [(''object'', JStr ''list''),
             (''data'', JList [JDict
                [(''id'', JStr (mm_model_id (sv_manifest s))), (''object'', JStr ''model''),
                 (''created'', JInt 0), (''owned_by'', JStr ''kim-llm-serving'')]])]))"

section \<open>Chat completions\<close>

text \<open>Up to the submission: the parsed command and the session, or the exception.\<close>

definition chat_submit ::
  "(string \<Rightarrow> string) \<Rightarrow> 'c client_ops \<Rightarrow> loads_fun \<Rightarrow> string \<Rightarrow> bytes list \<Rightarrow> 'c ApplicationState \<Rightarrow>
     (ChatCompletionCommand \<times> nat) result \<times> 'c ApplicationState" where
  "chat_submit srepr ops loads completion_id chunks st =
     (case require_service st of
        Inl g \<Rightarrow> (Inl (RaisedGatewayError g), st)
      | Inr (tok, s) \<Rightarrow>
          (case rbind (read_bounded_body (cf_max_http_body_bytes (as_config st)) chunks []) (\<lambda>body.
                rbind (parse_body loads body) (\<lambda>v.
                parse_chat_completion_request v (sv_manifest s))) of
             Inl e \<Rightarrow> (Inl e, st)
           | Inr command \<Rightarrow>
               (case service_submit srepr ops tok (to_gateway_request completion_id command) s of
                  (Inl e, s') \<Rightarrow> (Inl e, st\<lparr>as_service := Some (tok, s')\<rparr>)
                | (Inr r, s') \<Rightarrow> (Inr (command, r), st\<lparr>as_service := Some (tok, s')\<rparr>))))"

datatype 'c http_round = Disconnected | Cancelled | Poll "'c Service \<Rightarrow> 'c Service"

definition service_next_event :: "nat \<Rightarrow> 'c Service \<Rightarrow> (string, GatewayTerminal) got \<times> 'c Service" where
  "service_next_event r s =
     (case next_event True (sv_sessions s ! r, sv_metrics s) of (g, sm) \<Rightarrow> (g, update_session r sm s))"

definition drop_client :: "nat \<Rightarrow> 'c Service \<Rightarrow> 'c Service" where
  "drop_client r s = detach_cancel_and_drain r ''http_disconnect'' s"

definition disconnected_error :: exn where
  "disconnected_error =
     RaisedGatewayError (GatewayError_make ''HTTP client disconnected'' 499 ''server_error'' ''client_disconnected'' None)"

datatype collect_outcome =
    CollectDone string GatewayTerminal
  | CollectRaise exn
  | CollectCancelled
  | CollectPending

fun collect_non_streaming ::
  "nat \<Rightarrow> 'c http_round list \<Rightarrow> string list \<Rightarrow> 'c Service \<Rightarrow> collect_outcome \<times> 'c Service" where
  "collect_non_streaming r [] chunks s = (CollectPending, s)"
| "collect_non_streaming r (Disconnected # rounds) chunks s = (CollectRaise disconnected_error, drop_client r s)"
| "collect_non_streaming r (Cancelled # rounds) chunks s = (CollectCancelled, drop_client r s)"
| "collect_non_streaming r (Poll others # rounds) chunks s =
     (case service_next_event r (others s) of
        (GotDelta d, s') \<Rightarrow> collect_non_streaming r rounds (chunks @ [d]) s'
      | (GotTerminal t, s') \<Rightarrow> (CollectDone (concat chunks) t, s')
      | (GotStop, s') \<Rightarrow> (CollectRaise StopIteration, drop_client r s')
      | (_, s') \<Rightarrow> collect_non_streaming r rounds chunks s')"

text \<open>The answer to a request with \<open>stream=false\<close>: the response, or the exception that escapes.\<close>

definition collect_response ::
  "string \<Rightarrow> int \<Rightarrow> string \<Rightarrow> collect_outcome \<Rightarrow> (exn + response) option" where
  "collect_response completion_id created model outcome =
     (case outcome of
        CollectDone content terminal \<Rightarrow>
          Some (Inr (if \<not> status_ok (gt_status terminal)
             then error_response (gateway_error_from_status (gt_status terminal))
             else JsonResponse 200 (chat_completion_json completion_id created model content terminal)))
      | CollectRaise (RaisedGatewayError g) \<Rightarrow> Some (Inr (error_response g))
      | CollectRaise e \<Rightarrow> Some (Inl e)
      | CollectCancelled \<Rightarrow> None
      | CollectPending \<Rightarrow> None)"

section \<open>Streaming\<close>

definition done_event :: bytes where
  "done_event = utf8 (''data: [DONE]'' @ [CHR 0x0A, CHR 0x0A])"

definition role_event :: "(rat \<Rightarrow> string) \<Rightarrow> string \<Rightarrow> int \<Rightarrow> string \<Rightarrow> bytes" where
  "role_event frepr completion_id created model =
     encode_sse frepr (chat_completion_chunk_json completion_id created model [(''role'', ''assistant'')] None)"

definition content_event :: "(rat \<Rightarrow> string) \<Rightarrow> string \<Rightarrow> int \<Rightarrow> string \<Rightarrow> string \<Rightarrow> bytes" where
  "content_event frepr completion_id created model d =
     encode_sse frepr (chat_completion_chunk_json completion_id created model [(''content'', d)] None)"

definition terminal_events ::
  "(rat \<Rightarrow> string) \<Rightarrow> string \<Rightarrow> int \<Rightarrow> string \<Rightarrow> bool \<Rightarrow> GatewayTerminal \<Rightarrow> bytes list" where
  "terminal_events frepr completion_id created model include_usage t =
     (if \<not> status_ok (gt_status t)
      then [encode_sse frepr (error_json (gateway_error_from_status (gt_status t))), done_event]
      else [encode_sse frepr (chat_completion_chunk_json completion_id created model []
              (Some (openai_finish_reason (gt_finish_reason t))))] @
           (if include_usage
            then [encode_sse frepr (usage_chunk_json completion_id created model (gt_usage t))] else []) @
           [done_event])"

text \<open>How the generator ended: with the terminal, without it, or still running.\<close>

datatype stream_end = StreamCompleted | StreamDropped | StreamRunning

fun stream_loop ::
  "(string \<Rightarrow> bytes) \<Rightarrow> (GatewayTerminal \<Rightarrow> bytes list) \<Rightarrow> nat \<Rightarrow> 'c http_round list \<Rightarrow> 'c Service \<Rightarrow>
     bytes list \<times> stream_end \<times> 'c Service" where
  "stream_loop content final r [] s = ([], StreamRunning, s)"
| "stream_loop content final r (Disconnected # rounds) s = ([], StreamDropped, drop_client r s)"
| "stream_loop content final r (Cancelled # rounds) s = ([], StreamDropped, drop_client r s)"
| "stream_loop content final r (Poll others # rounds) s =
     (case service_next_event r (others s) of
        (GotDelta d, s') \<Rightarrow>
          (case stream_loop content final r rounds s' of (ys, e, s'') \<Rightarrow> (content d # ys, e, s''))
      | (GotTerminal t, s') \<Rightarrow> (final t, StreamCompleted, s')
      | (GotStop, s') \<Rightarrow> ([], StreamDropped, drop_client r s')
      | (_, s') \<Rightarrow> stream_loop content final r rounds s')"

definition stream_chat_completion ::
  "(rat \<Rightarrow> string) \<Rightarrow> string \<Rightarrow> int \<Rightarrow> string \<Rightarrow> bool \<Rightarrow> nat \<Rightarrow> 'c http_round list \<Rightarrow> 'c Service \<Rightarrow>
     bytes list \<times> stream_end \<times> 'c Service" where
  "stream_chat_completion frepr completion_id created model include_usage r rounds s =
     (case stream_loop (content_event frepr completion_id created model)
             (terminal_events frepr completion_id created model include_usage) r rounds s of
        (ys, e, s') \<Rightarrow> (role_event frepr completion_id created model # ys, e, s'))"

section \<open>The chat endpoint\<close>

text \<open>
  What the handler hands to the server: a complete response, an event stream (its chunks so far and how
  its generator stands), an exception that escapes, or nothing yet.
\<close>

datatype chat_reply = ChatResponse response | EventStream "bytes list" stream_end | ChatRaised exn | ChatUnfinished

definition stream_headers :: "(string \<times> string) list" where
  "stream_headers =
     [(''Cache-Control'', ''no-cache, no-transform''), (''Connection'', ''keep-alive''), (''X-Accel-Buffering'', ''no'')]"

fun reply_of :: "(exn + response) option \<Rightarrow> chat_reply" where
  "reply_of None = ChatUnfinished"
| "reply_of (Some (Inl e)) = ChatRaised e"
| "reply_of (Some (Inr r)) = ChatResponse r"

definition chat_completions ::
  "(string \<Rightarrow> string) \<Rightarrow> (rat \<Rightarrow> string) \<Rightarrow> 'c client_ops \<Rightarrow> loads_fun \<Rightarrow> string \<Rightarrow> int \<Rightarrow> bytes list \<Rightarrow>
     'c http_round list \<Rightarrow> 'c ApplicationState \<Rightarrow> chat_reply \<times> 'c ApplicationState" where
  "chat_completions srepr frepr ops loads completion_id created chunks rounds st =
     (case chat_submit srepr ops loads completion_id chunks st of
        (Inl e, st') \<Rightarrow>
          ((case e of RaisedGatewayError g \<Rightarrow> ChatResponse (error_response g) | _ \<Rightarrow> ChatRaised e), st')
      | (Inr (command, r), st') \<Rightarrow>
          (case as_service st' of
             None \<Rightarrow> (ChatUnfinished, st') \<comment> \<open>not reached: a submission leaves the service in place\<close>
           | Some (tok, s) \<Rightarrow>
               if \<not> cc_stream command
               then (case collect_non_streaming r rounds [] s of
                       (outcome, s') \<Rightarrow>
                         (reply_of (collect_response completion_id created (cc_model command) outcome),
                          st'\<lparr>as_service := Some (tok, s')\<rparr>))
               else (case stream_chat_completion frepr completion_id created (cc_model command)
                            (cc_include_usage command) r rounds s of
                       (ys, e, s') \<Rightarrow> (EventStream ys e, st'\<lparr>as_service := Some (tok, s')\<rparr>))))"

end
