(* ===== verification/Config_Props.thy ===== *)
theory Config_Props
  imports Config Gateway_Props
begin

text \<open>
  A configuration that loads is valid for every component it is handed to: the client, the
  service, and the protocol's manifest check. A sample configuration is loaded and built.
\<close>

section \<open>Loaded configurations\<close>

definition config_ok :: "GatewayConfig \<Rightarrow> bool" where
  "config_ok c \<longleftrightarrow>
     validate_manifest (cf_manifest c) = Inr () \<and> validate_config (client_config c) = Inr () \<and>
     options_post_init (runtime_options c) = Inr () \<and>
     1 \<le> cf_port c \<and> cf_port c \<le> 65535 \<and> 1 \<le> cf_max_http_body_bytes c \<and>
     float_lt (Fin 0) (cf_event_poll_seconds c) \<and>
     cf_max_sse_delta_events_per_request c \<le> cf_max_client_delta_events_per_request c \<and>
     cf_log_level c \<in> set [''critical'', ''error'', ''warning'', ''info'', ''debug'']"

lemma config_string_Inr: "config_string v p = Inr s \<longleftrightarrow> v = JStr s \<and> s \<noteq> []"
  by (auto simp: config_string_def Let_def split: json.splits if_splits)

lemma config_integer_Inr: "config_integer v p lo hi = Inr n \<longleftrightarrow> v = JInt n \<and> lo \<le> n \<and> n \<le> hi"
  by (auto simp: config_integer_def Let_def split: json.splits if_splits)

lemma config_number_Inr: "config_number v p = Inr x \<Longrightarrow> \<exists>q. x = Fin q \<and> 0 < q"
  by (auto simp: config_number_def result_simps isfinite_iff not_le)

lemma item_ranges:
  "item_string d k p = Inr s \<Longrightarrow> s \<noteq> []"
  "item_integer d k p lo = Inr n \<Longrightarrow> lo \<le> n \<and> n \<le> u31_max"
  by (auto simp: item_string_def item_integer_def rbind_Inr config_string_Inr config_integer_Inr)

lemma get_ranges:
  "get_string d k s0 = Inr s \<Longrightarrow> s \<noteq> []"
  "get_integer d k n0 hi = Inr n \<Longrightarrow> 1 \<le> n \<and> n \<le> hi"
  "get_number d k q0 = Inr x \<Longrightarrow> \<exists>q. x = Fin q \<and> 0 < q"
  by (auto simp: get_string_def get_integer_def config_string_Inr config_integer_Inr)
    (auto simp: get_number_def dest: config_number_Inr)

lemma manifest_parts:
  assumes "config_manifest v = Inr m"
  shows "mm_model_id m \<noteq> [] \<and> mm_revision m \<noteq> [] \<and> mm_tokenizer_fingerprint m \<noteq> [] \<and>
      mm_chat_template_fingerprint m \<noteq> [] \<and> mm_engine_fingerprint m \<noteq> [] \<and> mm_precision m \<noteq> []"
    "0 \<le> mm_eos_token_id m \<and> mm_eos_token_id m \<le> u31_max \<and> 0 \<le> mm_pad_token_id m \<and> mm_pad_token_id m \<le> u31_max"
    "1 \<le> mm_max_input_tokens m \<and> mm_max_input_tokens m \<le> u31_max \<and>
     1 \<le> mm_max_output_tokens m \<and> mm_max_output_tokens m \<le> u31_max \<and>
     1 \<le> mm_max_sequence_tokens m \<and> mm_max_sequence_tokens m \<le> u31_max \<and>
     1 \<le> mm_max_batch_size m \<and> mm_max_batch_size m \<le> u31_max"
    "mm_max_input_tokens m \<le> mm_max_sequence_tokens m \<and> mm_max_output_tokens m \<le> mm_max_sequence_tokens m"
  using assms
  by (auto simp: config_manifest_def rbind_Inr guard_Inr not_less dest!: item_ranges split: json.splits)

lemma manifest_valid:
  assumes "config_manifest v = Inr m"
  shows "validate_manifest m = Inr ()"
  using manifest_parts [OF assms]
  by (simp add: validate_manifest_def require_int_def manifest_limits_ok_def u31_max_def u32_max_def)

lemma config_values_ok:
  assumes "config_values d w t sock m = Inr c" and "sock \<noteq> []" and "validate_manifest m = Inr ()"
  shows "config_ok c \<and> cf_manifest c = m \<and> cf_socket_path c = sock"
proof -
  have "cf_manifest c = m" "cf_socket_path c = sock" "cf_max_sse_delta_events_per_request c \<le> cf_max_client_delta_events_per_request c"
    "cf_log_level c \<in> set [''critical'', ''error'', ''warning'', ''info'', ''debug'']"
    using assms(1) by (auto simp: config_values_def rbind_Inr guard_Inr)
  moreover have "\<exists>q. cf_accept_timeout_seconds c = Fin q \<and> 0 < q" "\<exists>q. cf_request_timeout_seconds c = Fin q \<and> 0 < q"
    "\<exists>q. cf_health_timeout_seconds c = Fin q \<and> 0 < q" "\<exists>q. cf_event_poll_seconds c = Fin q \<and> 0 < q"
    "\<exists>q. cf_cancel_drain_timeout_seconds c = Fin q \<and> 0 < q" "\<exists>q. cf_shutdown_grace_seconds c = Fin q \<and> 0 < q"
    using assms(1) by (auto simp: config_values_def rbind_Inr dest: get_ranges(3))
  moreover have "1 \<le> cf_port c \<and> cf_port c \<le> 65535" "1 \<le> cf_max_http_body_bytes c" "1 \<le> cf_max_pending_requests c"
    "1 \<le> cf_max_client_delta_events_per_request c" "1 \<le> cf_max_sse_delta_events_per_request c"
    "1 \<le> cf_sampling_top_k c \<and> cf_sampling_top_k c \<le> u31_max"
    using assms(1) by (auto simp: config_values_def rbind_Inr dest: get_ranges(2))
  ultimately show ?thesis using assms(2,3)
    by (auto simp: config_ok_def validate_config_def client_config_def options_post_init_def runtime_options_def
        DEFAULT_MAX_FRAME_PAYLOAD_BYTES_def)
qed

lemma loaded_config_ok:
  assumes "GatewayConfig_load loads env path = Inr c" and "\<And>p q. fe_resolve env p = Inr q \<Longrightarrow> q \<noteq> []"
  shows "config_ok c"
proof -
  obtain d w t sock v m where "config_values d w t sock m = Inr c" "config_manifest v = Inr m"
    "\<exists>p. fe_resolve env p = Inr sock"
    using assms(1) unfolding GatewayConfig_load_def resolve_path_def rbind_Inr by blast
  with assms(2) config_values_ok manifest_valid show ?thesis by blast
qed

section \<open>Exceptions\<close>

text \<open>Besides \<open>GatewayConfigError\<close>: an integer beyond the float range, a file that is not UTF-8
  or holds an integer literal that is too long, and nesting beyond the interpreter's limit.\<close>

fun config_error :: "exn \<Rightarrow> bool" where
  "config_error (GatewayConfigError _) = True"
| "config_error (OverflowError _) = True"
| "config_error (ValueError _) = True"
| "config_error (RuntimeError _) = True"
| "config_error _ = False"

lemma config_validators_raise [raises_intros]:
  "raises_only config_error (config_string v p)" "raises_only config_error (config_integer v p lo hi)"
  "raises_only config_error (config_number v p)"
proof -
  show "raises_only config_error (config_string v p)" "raises_only config_error (config_integer v p lo hi)"
    by (auto simp: config_string_def config_integer_def Let_def split: json.splits)
  have "raises_only config_error (float_of_int n)" for n by (auto simp: float_of_int_def split: pyfloat.splits)
  then have "raises_only config_error (py_float v)" by (auto simp: py_float_def split: json.splits)
  then show "raises_only config_error (config_number v p)"
    unfolding config_number_def by (intro raises_intros) auto
qed

lemma config_getters_raise [raises_intros]:
  "raises_only config_error (get_string d k s)" "raises_only config_error (get_integer d k n hi)"
  "raises_only config_error (get_number d k q)"
  unfolding get_string_def get_integer_def get_number_def by (intro raises_intros)+

lemma load_json_raises [raises_intros]: "raises_only config_error (load_json_object loads env path p)"
proof -
  have "config_error (config_json_failure p f)" for f by (cases f) auto
  then show ?thesis
    by (auto simp: load_json_object_def split: sum.splits file_failure.splits json.splits)
qed

lemma require_fields_raises [raises_intros]: "raises_only config_error (require_fields d req opt p)"
  unfolding require_fields_def Let_def by (intro raises_intros) auto

lemma require_fields_lookup: "require_fields d req opt p = Inr u \<Longrightarrow> k \<in> set req \<Longrightarrow> map_of d k \<noteq> None"
  by (auto simp: require_fields_def Let_def result_simps filter_empty_conv map_of_eq_None_iff)

lemma config_manifest_raises [raises_intros]: "raises_only config_error (config_manifest v)"
proof (cases v)
  case (JDict d)
  have item: "raises_only config_error (item_string d k p)" "raises_only config_error (item_integer d k p lo)"
    if "require_fields d manifest_fields [] q = Inr u" "k \<in> set manifest_fields" for k p lo q u
    using require_fields_lookup [OF that]
    by (auto simp: item_string_def item_integer_def py_getitem_def intro!: raises_intros)
  from JDict show ?thesis unfolding config_manifest_def
    by (auto intro!: raises_intros item simp: manifest_fields_def)
qed (simp_all add: config_manifest_def)

lemma config_values_raises [raises_intros]: "raises_only config_error (config_values d w t sock m)"
  unfolding config_values_def by (intro raises_intros) auto

lemma load_raises:
  assumes env: "\<And>p. raises_only config_error (fe_expanduser env p)" "\<And>p. raises_only config_error (fe_resolve env p)"
  shows "raises_only config_error (GatewayConfig_load loads env path)"
proof -
  have res: "raises_only config_error (resolve_path env base v)" for base v
    unfolding resolve_path_def by (intro raises_intros env)
  have item: "raises_only config_error (item_string d k p)" if "map_of d k \<noteq> None" for d k p
    using that by (auto simp: item_string_def py_getitem_def intro!: raises_intros)
  have req: "map_of d ''worker_config_path'' \<noteq> None" "map_of d ''tokenizer_path'' \<noteq> None"
    if "require_fields d config_required config_optional p = Inr u" for d p u
    using require_fields_lookup [OF that] by (auto simp: config_required_def)
  show ?thesis unfolding GatewayConfig_load_def
    by (intro raises_intros env res item) (auto simp: guard_Inr py_getitem_def dest: req)
qed

section \<open>A sample configuration\<close>

definition sample_entries :: "(string \<times> json) list" where
  "sample_entries =
     [(''worker_config_path'', JStr ''worker.json''), (''tokenizer_path'', JStr ''/tok''),
      (''accept_timeout_seconds'', JFloat (Fin 10)), (''request_timeout_seconds'', JFloat (Fin (1 / 8))),
      (''health_timeout_seconds'', JFloat (Fin 1)), (''event_poll_seconds'', JFloat (Fin (1 / 8))),
      (''cancel_drain_timeout_seconds'', JFloat (Fin 30)), (''shutdown_grace_seconds'', JFloat (Fin 30))]"

definition sample_gateway_json :: json where
  "sample_gateway_json = JDict sample_entries"

definition sample_worker_json :: json where
  "sample_worker_json = JDict
     [(''socket_path'', JStr ''/w''),
      (''manifest'', JDict
         [(''model_id'', JStr ''m''), (''revision'', JStr ''r''), (''tokenizer_fingerprint'', JStr ''t''),
          (''chat_template_fingerprint'', JStr ''c''), (''engine_fingerprint'', JStr ''e''), (''eos_token_id'', JInt 2),
          (''pad_token_id'', JInt 0), (''max_input_tokens'', JInt 16), (''max_output_tokens'', JInt 16),
          (''max_sequence_tokens'', JInt 32), (''precision'', JStr ''fp16''), (''max_batch_size'', JInt 2)])]"

definition sample_files :: file_env where
  "sample_files =
     \<lparr>fe_read = (\<lambda>p. if p = ''/etc/gateway.json'' then Inr [1] else if p = ''/etc/worker.json'' then Inr [2]
        else Inl (ReadOSError ''missing'')),
      fe_expanduser = Inr, fe_resolve = (\<lambda>p. if p = [] then Inr ''/'' else Inr p)\<rparr>"

definition sample_loads :: loads_fun where
  "sample_loads b = (if b = [1] then Inr sample_gateway_json else Inr sample_worker_json)"

definition sample_gateway_config :: GatewayConfig where
  "sample_gateway_config =
     \<lparr>cf_worker_config_path = ''/etc/worker.json'', cf_tokenizer_path = ''/tok'', cf_socket_path = ''/w'',
      cf_manifest = sample_manifest, cf_host = ''127.0.0.1'', cf_port = 8000, cf_log_level = ''info'',
      cf_accept_timeout_seconds = Fin 10, cf_request_timeout_seconds = Fin (1 / 8),
      cf_health_timeout_seconds = Fin 1, cf_event_poll_seconds = Fin (1 / 8),
      cf_cancel_drain_timeout_seconds = Fin 30, cf_shutdown_grace_seconds = Fin 30,
      cf_max_http_body_bytes = 1024 * 1024, cf_max_pending_requests = 8,
      cf_max_client_delta_events_per_request = 64, cf_max_sse_delta_events_per_request = 32, cf_sampling_top_k = 1\<rparr>"

lemma sample_load: "GatewayConfig_load sample_loads sample_files ''/etc/gateway.json'' = Inr sample_gateway_config"
proof -
  have p: "path_parent ''/etc/gateway.json'' = ''/etc''" "path_parent ''/etc/worker.json'' = ''/etc''"
    by (simp_all add: path_parent_def)
  have gj: "load_json_object sample_loads sample_files ''/etc/gateway.json'' ''Gateway configuration'' =
      Inr sample_entries"
    by (simp add: load_json_object_def sample_files_def sample_loads_def sample_gateway_json_def)
  have wj: "load_json_object sample_loads sample_files ''/etc/worker.json'' ''Worker configuration'' =
      Inr (case sample_worker_json of JDict d \<Rightarrow> d | _ \<Rightarrow> [])"
    by (simp add: load_json_object_def sample_files_def sample_loads_def sample_worker_json_def)
  have m: "config_manifest (JDict
         [(''model_id'', JStr ''m''), (''revision'', JStr ''r''), (''tokenizer_fingerprint'', JStr ''t''),
          (''chat_template_fingerprint'', JStr ''c''), (''engine_fingerprint'', JStr ''e''), (''eos_token_id'', JInt 2),
          (''pad_token_id'', JInt 0), (''max_input_tokens'', JInt 16), (''max_output_tokens'', JInt 16),
          (''max_sequence_tokens'', JInt 32), (''precision'', JStr ''fp16''), (''max_batch_size'', JInt 2)]) = Inr sample_manifest"
    by (simp add: config_manifest_def require_fields_def manifest_fields_def item_string_def item_integer_def
        py_getitem_def config_string_def config_integer_def u31_max_def sample_manifest_def)
  have v: "config_values sample_entries ''/etc/worker.json'' ''/tok'' ''/w'' sample_manifest =
      Inr sample_gateway_config"
    by (simp add: config_values_def get_string_def get_integer_def get_number_def py_get_def config_string_def
        config_integer_def config_number_def is_number_def py_float_def sample_entries_def sample_gateway_config_def u31_max_def)
  have sample_lookup: "map_of sample_entries ''worker_config_path'' = Some (JStr ''worker.json'')"
    "map_of sample_entries ''tokenizer_path'' = Some (JStr ''/tok'')"
    "require_fields sample_entries config_required config_optional ''Gateway configuration'' = Inr ()"
    by (simp_all add: sample_entries_def require_fields_def config_required_def config_optional_def)
  have fe: "fe_expanduser sample_files = Inr" "\<And>p. p \<noteq> [] \<Longrightarrow> fe_resolve sample_files p = Inr p"
    by (simp_all add: sample_files_def)
  show ?thesis
    unfolding GatewayConfig_load_def
    by (simp add: gj wj p m v fe sample_lookup item_string_def py_getitem_def config_string_def resolve_path_def path_join_def
        is_absolute_def sample_worker_json_def)
qed

end
