(* ===== verification/Cli.thy ===== *)
theory Cli
  imports Api Config_Props
begin

text \<open>
  \<open>HuggingFaceTokenizer.load\<close> and the command line of \<open>__main__.py\<close>. \<open>transformers\<close> is third
  party: its \<open>AutoTokenizer.from_pretrained\<close> is a parameter that returns the tokenizer or the
  message of its exception, \<open>None\<close> when the package cannot be imported; so are \<open>uvicorn\<close>
  and FastAPI (whether they can be imported) and the regular files of a directory. A command is what
  \<open>argparse\<close> returns for an accepted command line.
\<close>

section \<open>Definitions\<close>

record installation =
  in_files :: file_env
  in_directory :: "string \<Rightarrow> (string, bytes) dict option"
  in_from_pretrained :: "(string \<Rightarrow> string + hf_tokenizer) option"
  in_fastapi :: bool
  in_uvicorn :: bool

definition HuggingFaceTokenizer_load :: "(bytes \<Rightarrow> string) \<Rightarrow> installation \<Rightarrow> string \<Rightarrow> HuggingFaceTokenizer result" where
  "HuggingFaceTokenizer_load sha256 inst tokenizer_path =
     rbind (rbind (fe_expanduser (in_files inst) tokenizer_path) (fe_resolve (in_files inst))) (\<lambda>path.
     case in_from_pretrained inst of
       None \<Rightarrow> Inl (TokenizerError ''transformers is required to load the Gateway tokenizer'')
     | Some from_pretrained \<Rightarrow>
         (case from_pretrained path of
            Inl m \<Rightarrow> Inl (TokenizerError (''failed to load Tokenizer from '' @ path @ '': '' @ m))
          | Inr tokenizer \<Rightarrow> HuggingFaceTokenizer_init sha256 tokenizer path (in_directory inst path)))"

text \<open>\<open>json.dumps(..., indent=2)\<close> of a flat object: one member per line.\<close>

definition indented_object :: "(string \<times> string) list \<Rightarrow> string" where
  "indented_object members =
     ''{'' @ [CHR 0x0A] @
     join ('','' @ [CHR 0x0A]) (map (\<lambda>(k, v). ''  '' @ quote_string k @ '': '' @ v) members) @ [CHR 0x0A] @ ''}''"

definition tokenizer_report :: "HuggingFaceTokenizer \<Rightarrow> string" where
  "tokenizer_report t =
     indented_object
       [(''tokenizer_fingerprint'', quote_string (tk_tokenizer_fingerprint t)),
        (''chat_template_fingerprint'', quote_string (tk_chat_template_fingerprint t)),
        (''eos_token_id'', show_int (tk_eos_token_id t)),
        (''pad_token_id'', show_int (tk_pad_token_id t))]"

datatype command = Serve string | InspectTokenizer string

text \<open>What the process does in the end: print a line and exit with 0, or hand the application
  to the server with these arguments (and one worker).\<close>

datatype main_outcome =
    Printed string
  | Serving "Client ApplicationState" string int string

text \<open>\<open>create_app\<close> before the routes are registered: the application state without a service,
  which the lifespan builds.\<close>

definition create_app :: "bool \<Rightarrow> GatewayConfig \<Rightarrow> (tokenizer_ops \<times> 'c Service) option \<Rightarrow> 'c ApplicationState result" where
  "create_app fastapi config service =
     rbind (guard fastapi (RuntimeError ''FastAPI is required to create the Gateway application'')) (\<lambda>_.
     Inr \<lparr>as_config = config, as_service = service, as_startup_error = None\<rparr>)"

definition main :: "(bytes \<Rightarrow> string) \<Rightarrow> loads_fun \<Rightarrow> installation \<Rightarrow> command \<Rightarrow> main_outcome result" where
  "main sha256 loads inst args =
     (case args of
        InspectTokenizer tokenizer_path \<Rightarrow>
          rbind (HuggingFaceTokenizer_load sha256 inst tokenizer_path) (\<lambda>tokenizer.
          Inr (Printed (tokenizer_report tokenizer @ [CHR 0x0A])))
      | Serve path \<Rightarrow>
          rbind (GatewayConfig_load loads (in_files inst) path) (\<lambda>config.
          rbind (guard (in_uvicorn inst) (RuntimeError ''uvicorn is required to serve the Gateway'')) (\<lambda>_.
          rbind (create_app (in_fastapi inst) config None) (\<lambda>app.
          Inr (Serving app (cf_host config) (cf_port config) (cf_log_level config))))))"

section \<open>Lemmas\<close>

lemma report_inject:
  assumes "tokenizer_report t @ u = tokenizer_report t' @ u'"
  shows "tk_tokenizer_fingerprint t = tk_tokenizer_fingerprint t' \<and>
    tk_chat_template_fingerprint t = tk_chat_template_fingerprint t' \<and>
    tk_eos_token_id t = tk_eos_token_id t' \<and> tk_pad_token_id t = tk_pad_token_id t'"
proof -
  have sep: "\<not> is_digit (CHR '','')" "\<not> is_digit (CHR 0x0A)" by (simp_all add: is_digit_def)
  from assms have 1: "tk_tokenizer_fingerprint t = tk_tokenizer_fingerprint t'"
    "tk_chat_template_fingerprint t = tk_chat_template_fingerprint t'"
    by (auto simp: tokenizer_report_def indented_object_def quote_string_inject)
  from assms 1 have eos: "\<exists>x x'. show_int (tk_eos_token_id t) @ CHR '','' # x = show_int (tk_eos_token_id t') @ CHR '','' # x'"
    by (simp add: tokenizer_report_def indented_object_def quote_string_inject) blast
  then have 2: "tk_eos_token_id t = tk_eos_token_id t'" using show_int_inject sep(1) by blast
  from assms 1 2 have "\<exists>x x'. show_int (tk_pad_token_id t) @ CHR 0x0A # x = show_int (tk_pad_token_id t') @ CHR 0x0A # x'"
    by (simp add: tokenizer_report_def indented_object_def quote_string_inject) blast
  then have "tk_pad_token_id t = tk_pad_token_id t'" using show_int_inject sep(2) by blast
  with 1 2 show ?thesis by blast
qed

section \<open>Properties\<close>

definition sample_installation :: installation where
  "sample_installation =
     \<lparr>in_files = sample_files, in_directory = (\<lambda>_. Some [(''tokenizer.json'', [1, 2])]),
      in_from_pretrained = Some (\<lambda>_. Inr sample_hf), in_fastapi = True, in_uvicorn = True\<rparr>"

text \<open>
  What \<open>inspect-tokenizer\<close> prints pins all that start-up compares: two tokenizers with the
  same printed report (from any two installations) pass and fail the manifest check
  together, with the same message, so a manifest written from the report of one fits the other.
\<close>

theorem tokenizer_report_pins:
  assumes "main sha256 loads inst (InspectTokenizer path) = Inr (Printed out)"
    and "main sha256' loads' inst' (InspectTokenizer path') = Inr (Printed out)"
  shows "\<exists>t t'. HuggingFaceTokenizer_load sha256 inst path = Inr t \<and> HuggingFaceTokenizer_load sha256' inst' path' = Inr t' \<and>
    (\<forall>srepr manifest. tokenizer_validate_manifest srepr t manifest = tokenizer_validate_manifest srepr t' manifest)"
proof -
  obtain t t' where t: "HuggingFaceTokenizer_load sha256 inst path = Inr t" "HuggingFaceTokenizer_load sha256' inst' path' = Inr t'"
    and "tokenizer_report t @ [CHR 0x0A] = tokenizer_report t' @ [CHR 0x0A]"
    using assms by (auto simp: main_def rbind_Inr)
  from report_inject [OF this(3)] t show ?thesis
    by (auto simp: tokenizer_validate_manifest_def manifest_mismatches_def)
qed

theorem tokenizer_report_pins_witness:
  "\<exists>t t'. HuggingFaceTokenizer_load (\<lambda>_. ''00'') sample_installation ''/a'' = Inr t \<and>
    HuggingFaceTokenizer_load (\<lambda>_. ''00'') sample_installation ''/b'' = Inr t' \<and>
    (\<forall>srepr manifest. tokenizer_validate_manifest srepr t manifest = tokenizer_validate_manifest srepr t' manifest)"
proof -
  have "\<exists>out. main (\<lambda>_. ''00'') sample_loads sample_installation (InspectTokenizer ''/a'') = Inr (Printed out) \<and>
      main (\<lambda>_. ''00'') sample_loads sample_installation (InspectTokenizer ''/b'') = Inr (Printed out)"
    by (simp add: main_def HuggingFaceTokenizer_load_def sample_installation_def sample_files_def HuggingFaceTokenizer_init_def
        sample_hf_def token_id_attribute_def fingerprint_tokenizer_assets_def present_assets_def TOKENIZER_ASSET_NAMES_def
        fingerprint_chat_template_def List.map_filter_def)
  with tokenizer_report_pins show ?thesis by blast
qed

text \<open>
  C37. \<open>serve\<close> starts the server only on a configuration that is valid for every component, with
  the configured address and level; otherwise it raises: \<open>GatewayConfigError\<close>, or one of the
  exceptions that pass through the loader's handlers (\<open>OverflowError\<close> for an integer timeout
  beyond the float range, \<open>ValueError\<close> for a file that is not UTF-8 or an over-long integer
  literal, \<open>RuntimeError\<close> for nesting beyond the recursion limit, a missing home directory or a
  missing FastAPI or uvicorn) and nothing else, when the path functions raise no more than that.
\<close>

theorem serve_outcome:
  assumes "\<And>p. raises_only config_error (fe_expanduser (in_files inst) p)"
    and "\<And>p. raises_only config_error (fe_resolve (in_files inst) p)"
    and "\<And>p q. fe_resolve (in_files inst) p = Inr q \<Longrightarrow> q \<noteq> []"
  shows "case main sha256 loads inst (Serve path) of
      Inl e \<Rightarrow> config_error e
    | Inr (Printed out) \<Rightarrow> False
    | Inr (Serving app host port level) \<Rightarrow>
        GatewayConfig_load loads (in_files inst) path = Inr (as_config app) \<and> config_ok (as_config app) \<and>
        as_service app = None \<and> host = cf_host (as_config app) \<and> port = cf_port (as_config app) \<and>
        1 \<le> port \<and> port \<le> 65535 \<and> level = cf_log_level (as_config app)"
proof (cases "GatewayConfig_load loads (in_files inst) path")
  case (Inl e)
  with load_raises [OF assms(1,2), where loads = loads and path = path] show ?thesis by (simp add: main_def)
next
  case (Inr c)
  have "config_ok c" using loaded_config_ok [OF Inr assms(3)] .
  with Inr show ?thesis by (auto simp: main_def create_app_def guard_def config_ok_def)
qed

theorem serve_outcome_witness:
  "\<exists>app. config_ok (as_config app) \<and>
   main (\<lambda>_. []) sample_loads sample_installation (Serve ''/etc/gateway.json'') =
     Inr (Serving app ''127.0.0.1'' 8000 ''info'')"
proof -
  have files: "in_files sample_installation = sample_files" by (simp add: sample_installation_def)
  have main: "main (\<lambda>_. []) sample_loads sample_installation (Serve ''/etc/gateway.json'') =
      Inr (Serving \<lparr>as_config = sample_gateway_config, as_service = None, as_startup_error = None\<rparr>
        ''127.0.0.1'' 8000 ''info'')"
    using sample_load unfolding main_def files
    by (simp add: sample_installation_def sample_gateway_config_def create_app_def)
  moreover have "case main (\<lambda>_. []) sample_loads sample_installation (Serve ''/etc/gateway.json'') of
      Inl e \<Rightarrow> config_error e | Inr (Printed out) \<Rightarrow> False
    | Inr (Serving app host port level) \<Rightarrow>
        GatewayConfig_load sample_loads (in_files sample_installation) ''/etc/gateway.json'' = Inr (as_config app) \<and>
        config_ok (as_config app) \<and> as_service app = None \<and> host = cf_host (as_config app) \<and>
        port = cf_port (as_config app) \<and> 1 \<le> port \<and> port \<le> 65535 \<and> level = cf_log_level (as_config app)"
    by (rule serve_outcome) (auto simp: sample_installation_def sample_files_def split: if_splits)
  ultimately show ?thesis by simp
qed

end
