(* ===== verification/Worker_Decode.thy ===== *)
theory Worker_Decode
  imports Wire Framing
begin

text \<open>
  How the Worker reads the client's messages (\<open>src/ipc/ipc_protocol.cpp\<close>), with the C++ integer
  types as words: \<open>uint32_t\<close> and \<open>uint64_t\<close> are read by \<open>uint\<close>, \<open>int32_t\<close> by \<open>sint\<close>. A parsed
  document is a \<open>cjson\<close>, whose constructors are the value kinds of the JSON library
  (\<open>is_number_unsigned\<close>, \<open>is_number_integer\<close>, \<open>is_number_float\<close> and so on); the library's parser is
  the parameter \<open>parse\<close>. An object has each key once.
\<close>

unbundle bit_operations_syntax

section \<open>JSON values of the Worker\<close>

type_synonym uint32 = "32 word"
type_synonym int32 = "32 word"
type_synonym uint64 = "64 word"
type_synonym int64 = "64 word"

datatype cjson =
    CNull
  | CBool bool
  | CUnsigned uint64
  | CInteger int64
  | CFloat pyfloat
  | CString string
  | CArray "cjson list"
  | CObject "(string \<times> cjson) list"

type_synonym cobject = "(string \<times> cjson) list"

definition invalid_status :: "string \<Rightarrow> Status" where
  "invalid_status message = Status_make ''invalid_input'' message"

definition exactFields :: "cjson \<Rightarrow> string list \<Rightarrow> cobject option" where
  "exactFields v names =
     (case v of
        CObject d \<Rightarrow> if length d = length names \<and> list_all (\<lambda>f. map_of d f \<noteq> None) names then Some d else None
      | _ \<Rightarrow> None)"

definition readUnsigned64 :: "cobject \<Rightarrow> string \<Rightarrow> uint64 option" where
  "readUnsigned64 d key = (case map_of d key of Some (CUnsigned raw) \<Rightarrow> Some raw | _ \<Rightarrow> None)"

definition readUnsigned32 :: "cobject \<Rightarrow> string \<Rightarrow> uint32 option" where
  "readUnsigned32 d key =
     (case map_of d key of
        Some (CUnsigned raw) \<Rightarrow> if uint raw > 2 ^ 32 - 1 then None else Some (ucast raw)
      | _ \<Rightarrow> None)"

definition signed32 :: "cjson \<Rightarrow> int32 option" where
  "signed32 v =
     (case v of
        CUnsigned raw \<Rightarrow> if uint raw > 2 ^ 31 - 1 then None else Some (ucast raw)
      | CInteger raw \<Rightarrow> if sint raw < - (2 ^ 31) \<or> sint raw > 2 ^ 31 - 1 then None else Some (ucast raw)
      | _ \<Rightarrow> None)"

definition readSigned32 :: "cobject \<Rightarrow> string \<Rightarrow> int32 option" where
  "readSigned32 d key = (case map_of d key of None \<Rightarrow> None | Some v \<Rightarrow> signed32 v)"

definition readString :: "cobject \<Rightarrow> string \<Rightarrow> string option" where
  "readString d key = (case map_of d key of Some (CString s) \<Rightarrow> Some s | _ \<Rightarrow> None)"

definition readBoolean :: "cobject \<Rightarrow> string \<Rightarrow> bool option" where
  "readBoolean d key = (case map_of d key of Some (CBool b) \<Rightarrow> Some b | _ \<Rightarrow> None)"

definition readFiniteDouble :: "cobject \<Rightarrow> string \<Rightarrow> pyfloat option" where
  "readFiniteDouble d key =
     (let finite = (\<lambda>x. if isfinite x then Some x else None) in
      case map_of d key of
        Some (CUnsigned raw) \<Rightarrow> finite (float_of_rat (of_int (uint raw)))
      | Some (CInteger raw) \<Rightarrow> finite (float_of_rat (of_int (sint raw)))
      | Some (CFloat x) \<Rightarrow> finite x
      | _ \<Rightarrow> None)"

definition readOptionalUnsigned64 :: "cobject \<Rightarrow> string \<Rightarrow> uint64 option option" where
  "readOptionalUnsigned64 d key =
     (case map_of d key of
        Some CNull \<Rightarrow> Some None
      | Some (CUnsigned raw) \<Rightarrow> Some (Some raw)
      | _ \<Rightarrow> None)"

definition readOptionalSigned32 :: "cobject \<Rightarrow> string \<Rightarrow> int32 option option" where
  "readOptionalSigned32 d key =
     (case map_of d key of
        None \<Rightarrow> None
      | Some CNull \<Rightarrow> Some None
      | Some v \<Rightarrow> map_option Some (signed32 v))"

definition tokenIds :: "cjson \<Rightarrow> int32 list option" where
  "tokenIds v = (case v of CArray items \<Rightarrow> those (map signed32 items) | _ \<Rightarrow> None)"

definition readTokenIds :: "cobject \<Rightarrow> string \<Rightarrow> int32 list option" where
  "readTokenIds d key = Option.bind (map_of d key) tokenIds"

definition readStopSequences :: "cobject \<Rightarrow> string \<Rightarrow> int32 list list option" where
  "readStopSequences d key =
     (case map_of d key of Some (CArray items) \<Rightarrow> those (map tokenIds items) | _ \<Rightarrow> None)"

section \<open>Messages\<close>

record Sampling =
  cs_temperature :: pyfloat
  cs_top_k :: int32
  cs_top_p :: pyfloat
  cs_random_seed :: uint64

record Submit =
  sb_protocol_version :: uint32
  sb_worker_epoch :: uint64
  sb_request_id :: uint64
  sb_priority :: int32
  sb_timeout_ms :: "uint64 option"
  sb_trace_id :: string
  sb_input_token_ids :: "int32 list"
  sb_max_new_tokens :: uint32
  sb_streaming :: bool
  sb_sampling :: Sampling
  sb_end_id :: "int32 option"
  sb_pad_id :: "int32 option"
  sb_stop_sequences :: "int32 list list"

record Hello =
  hl_protocol_version :: uint32
  hl_model_id :: string
  hl_revision :: string

record Envelope = \<comment> \<open>\<open>Cancel\<close>, and \<open>Health\<close> with its probe id\<close>
  ev_protocol_version :: uint32
  ev_worker_epoch :: uint64
  ev_id :: uint64

datatype ClientMessage = HelloMessage Hello | SubmitMessage Submit | CancelMessage Envelope | HealthMessage Envelope

section \<open>Validation\<close>

type_synonym 'a cresult = "Status + 'a"

definition check :: "bool \<Rightarrow> string \<Rightarrow> unit cresult" where
  "check b message = (if b then Inr () else Inl (invalid_status message))"

definition validateProtocol :: "uint32 \<Rightarrow> unit cresult" where
  "validateProtocol version = check (version = 1) ''unsupported protocol_version''"

definition validateEpoch :: "uint64 \<Rightarrow> unit cresult" where
  "validateEpoch epoch = check (epoch \<noteq> 0) ''worker_epoch must be positive''"

definition validateRequestId :: "uint64 \<Rightarrow> unit cresult" where
  "validateRequestId request_id = check (request_id \<noteq> 0) ''request_id must be positive''"

definition validateTokenId :: "string \<Rightarrow> int32 \<Rightarrow> unit cresult" where
  "validateTokenId field token_id = check (\<not> sint token_id < 0) (field @ '' must be non-negative'')"

definition validateTokenIds :: "string \<Rightarrow> int32 list \<Rightarrow> unit cresult" where
  "validateTokenIds field token_ids =
     rbind (check (token_ids \<noteq> []) (field @ '' must not be empty'')) (\<lambda>_.
     rbind (rmap (validateTokenId field) token_ids) (\<lambda>_. Inr ()))"

definition validateSampling :: "Sampling \<Rightarrow> unit cresult" where
  "validateSampling s =
     rbind (check (\<not> (\<not> isfinite (cs_temperature s) \<or> float_le (cs_temperature s) (Fin 0)))
              ''temperature must be finite and positive'') (\<lambda>_.
     rbind (check (\<not> sint (cs_top_k s) < 0) ''top_k must be non-negative'') (\<lambda>_.
     check (\<not> (\<not> isfinite (cs_top_p s) \<or> float_le (cs_top_p s) (Fin 0) \<or> float_lt (Fin 1) (cs_top_p s)))
       ''top_p must be in (0, 1]''))"

definition validateOptionalTokenId :: "string \<Rightarrow> int32 option \<Rightarrow> unit cresult" where
  "validateOptionalTokenId field v = (case v of None \<Rightarrow> Inr () | Some t \<Rightarrow> validateTokenId field t)"

definition validateSubmit :: "Submit \<Rightarrow> unit cresult" where
  "validateSubmit m =
     rbind (validateProtocol (sb_protocol_version m)) (\<lambda>_.
     rbind (validateEpoch (sb_worker_epoch m)) (\<lambda>_.
     rbind (validateRequestId (sb_request_id m)) (\<lambda>_.
     rbind (check (sb_timeout_ms m \<noteq> Some 0) ''timeout_ms must be positive when present'') (\<lambda>_.
     rbind (validateTokenIds ''input_token_ids'' (sb_input_token_ids m)) (\<lambda>_.
     rbind (check (sb_max_new_tokens m \<noteq> 0) ''max_new_tokens must be positive'') (\<lambda>_.
     rbind (validateSampling (sb_sampling m)) (\<lambda>_.
     rbind (validateOptionalTokenId ''end_id'' (sb_end_id m)) (\<lambda>_.
     rbind (validateOptionalTokenId ''pad_id'' (sb_pad_id m)) (\<lambda>_.
     rbind (rmap (validateTokenIds ''stop_sequences'') (sb_stop_sequences m)) (\<lambda>_.
     Inr ()))))))))))"

definition validateHello :: "Hello \<Rightarrow> unit cresult" where
  "validateHello m =
     rbind (validateProtocol (hl_protocol_version m)) (\<lambda>_.
     check (hl_model_id m \<noteq> [] \<and> hl_revision m \<noteq> []) ''Hello model_id and revision must not be empty'')"

definition validateRequestEnvelope :: "Envelope \<Rightarrow> unit cresult" where
  "validateRequestEnvelope m =
     rbind (validateProtocol (ev_protocol_version m)) (\<lambda>_.
     rbind (validateEpoch (ev_worker_epoch m)) (\<lambda>_.
     validateRequestId (ev_id m)))"

definition validateHealth :: "Envelope \<Rightarrow> unit cresult" where
  "validateHealth m =
     rbind (validateProtocol (ev_protocol_version m)) (\<lambda>_.
     rbind (validateEpoch (ev_worker_epoch m)) (\<lambda>_.
     check (ev_id m \<noteq> 0) ''probe_id must be positive''))"

section \<open>Decoding\<close>

definition decodeError :: "string \<Rightarrow> 'a cresult" where
  "decodeError message = Inl (invalid_status message)"

text \<open>\<open>decoded\<close>: what was read has still to pass its \<open>validate\<close>; \<open>None\<close> is a failed read.\<close>

definition decoded :: "('m \<Rightarrow> unit cresult) \<Rightarrow> string \<Rightarrow> 'm option \<Rightarrow> 'm cresult" where
  "decoded validate message read =
     (case read of
        None \<Rightarrow> decodeError message
      | Some m \<Rightarrow> rbind (validate m) (\<lambda>_. Inr m))"

definition decodeHello :: "cjson \<Rightarrow> Hello cresult" where
  "decodeHello v =
     (case exactFields v [''type'', ''protocol_version'', ''model_id'', ''revision''] of
        None \<Rightarrow> decodeError ''Hello contains missing or unexpected fields''
      | Some d \<Rightarrow> decoded validateHello ''Hello contains invalid field types''
          (Option.bind (readUnsigned32 d ''protocol_version'') (\<lambda>version.
           Option.bind (readString d ''model_id'') (\<lambda>model_id.
           Option.bind (readString d ''revision'') (\<lambda>revision.
           Some \<lparr>hl_protocol_version = version, hl_model_id = model_id, hl_revision = revision\<rparr>)))))"

definition readSampling :: "cobject \<Rightarrow> string \<Rightarrow> Sampling option" where
  "readSampling object key =
     Option.bind (map_of object key) (\<lambda>v.
     Option.bind (exactFields v [''temperature'', ''top_k'', ''top_p'', ''random_seed'']) (\<lambda>d.
     Option.bind (readFiniteDouble d ''temperature'') (\<lambda>temperature.
     Option.bind (readSigned32 d ''top_k'') (\<lambda>top_k.
     Option.bind (readFiniteDouble d ''top_p'') (\<lambda>top_p.
     Option.bind (readUnsigned64 d ''random_seed'') (\<lambda>random_seed.
     Some \<lparr>cs_temperature = temperature, cs_top_k = top_k, cs_top_p = top_p, cs_random_seed = random_seed\<rparr>))))))"

definition readSubmit :: "cobject \<Rightarrow> Submit option" where
  "readSubmit d =
     Option.bind (readUnsigned32 d ''protocol_version'') (\<lambda>version.
     Option.bind (readUnsigned64 d ''worker_epoch'') (\<lambda>epoch.
     Option.bind (readUnsigned64 d ''request_id'') (\<lambda>request_id.
     Option.bind (readSigned32 d ''priority'') (\<lambda>priority.
     Option.bind (readOptionalUnsigned64 d ''timeout_ms'') (\<lambda>timeout_ms.
     Option.bind (readString d ''trace_id'') (\<lambda>trace_id.
     Option.bind (readTokenIds d ''input_token_ids'') (\<lambda>input_token_ids.
     Option.bind (readUnsigned32 d ''max_new_tokens'') (\<lambda>max_new_tokens.
     Option.bind (readBoolean d ''streaming'') (\<lambda>streaming.
     Option.bind (readSampling d ''sampling'') (\<lambda>sampling.
     Option.bind (readOptionalSigned32 d ''end_id'') (\<lambda>end_id.
     Option.bind (readOptionalSigned32 d ''pad_id'') (\<lambda>pad_id.
     Option.bind (readStopSequences d ''stop_sequences'') (\<lambda>stop_sequences.
     Some \<lparr>sb_protocol_version = version, sb_worker_epoch = epoch, sb_request_id = request_id,
           sb_priority = priority, sb_timeout_ms = timeout_ms, sb_trace_id = trace_id,
           sb_input_token_ids = input_token_ids, sb_max_new_tokens = max_new_tokens,
           sb_streaming = streaming, sb_sampling = sampling, sb_end_id = end_id, sb_pad_id = pad_id,
           sb_stop_sequences = stop_sequences\<rparr>)))))))))))))"

definition submit_fields :: "string list" where
  "submit_fields =
     [''type'', ''protocol_version'', ''worker_epoch'', ''request_id'', ''priority'', ''timeout_ms'', ''trace_id'',
      ''input_token_ids'', ''max_new_tokens'', ''streaming'', ''sampling'', ''end_id'', ''pad_id'', ''stop_sequences'']"

definition decodeSubmit :: "cjson \<Rightarrow> Submit cresult" where
  "decodeSubmit v =
     (case exactFields v submit_fields of
        None \<Rightarrow> decodeError ''Submit contains missing or unexpected fields''
      | Some d \<Rightarrow> decoded validateSubmit ''Submit contains invalid fields'' (readSubmit d))"

definition readEnvelope :: "cobject \<Rightarrow> string \<Rightarrow> Envelope option" where
  "readEnvelope d key =
     Option.bind (readUnsigned32 d ''protocol_version'') (\<lambda>version.
     Option.bind (readUnsigned64 d ''worker_epoch'') (\<lambda>epoch.
     Option.bind (readUnsigned64 d key) (\<lambda>i.
     Some \<lparr>ev_protocol_version = version, ev_worker_epoch = epoch, ev_id = i\<rparr>)))"

definition decodeCancel :: "cjson \<Rightarrow> Envelope cresult" where
  "decodeCancel v =
     (case exactFields v [''type'', ''protocol_version'', ''worker_epoch'', ''request_id''] of
        None \<Rightarrow> decodeError ''Cancel contains missing or unexpected fields''
      | Some d \<Rightarrow> decoded validateRequestEnvelope ''Cancel contains invalid fields'' (readEnvelope d ''request_id''))"

definition decodeHealth :: "cjson \<Rightarrow> Envelope cresult" where
  "decodeHealth v =
     (case exactFields v [''type'', ''protocol_version'', ''worker_epoch'', ''probe_id''] of
        None \<Rightarrow> decodeError ''Health contains missing or unexpected fields''
      | Some d \<Rightarrow> decoded validateHealth ''Health contains invalid fields'' (readEnvelope d ''probe_id''))"

text \<open>\<open>decodePayload\<close> on the messages of a client. The outer \<open>None\<close> is one of the six types that the
  Worker itself sends, whose decoders are not modelled.\<close>

definition worker_types :: "string list" where
  "worker_types = [''hello_ack'', ''accepted'', ''rejected'', ''token_delta'', ''terminal'', ''stats'']"

definition decodePayload :: "(bytes \<Rightarrow> string + cjson) \<Rightarrow> bytes \<Rightarrow> ClientMessage cresult option" where
  "decodePayload parse payload =
     (case parse payload of
        Inl what \<Rightarrow> Some (decodeError (''invalid JSON payload: '' @ what))
      | Inr (CObject d) \<Rightarrow>
          (case readString d ''type'' of
             None \<Rightarrow> Some (decodeError ''message type must be a string'')
           | Some name \<Rightarrow>
               if name = ''hello'' then Some (map_sum id HelloMessage (decodeHello (CObject d)))
               else if name = ''submit'' then Some (map_sum id SubmitMessage (decodeSubmit (CObject d)))
               else if name = ''cancel'' then Some (map_sum id CancelMessage (decodeCancel (CObject d)))
               else if name = ''health'' then Some (map_sum id HealthMessage (decodeHealth (CObject d)))
               else if name \<in> set worker_types then None
               else Some (decodeError ''unknown message type''))
      | Inr _ \<Rightarrow> Some (decodeError ''payload must be a JSON object''))"

section \<open>What the parser returns for a document\<close>

text \<open>
  The documented behaviour of the JSON library on the text of a document: a non-negative
  integer that fits is unsigned, a negative one that fits is signed, other integers and
  numbers with a fraction or an exponent are floats.
\<close>

fun to_cjson :: "json \<Rightarrow> cjson" where
  "to_cjson JNull = CNull"
| "to_cjson (JBool b) = CBool b"
| "to_cjson (JInt n) =
     (if 0 \<le> n \<and> n \<le> u64_max then CUnsigned (of_int n)
      else if - (2 ^ 63) \<le> n \<and> n < 0 then CInteger (of_int n)
      else CFloat (float_of_rat (of_int n)))"
| "to_cjson (JFloat x) = CFloat x"
| "to_cjson (JStr s) = CString s"
| "to_cjson (JList xs) = CArray (map to_cjson xs)"
| "to_cjson (JDict d) = CObject (map (\<lambda>(k, v). (k, to_cjson v)) d)"

text \<open>The documents that the client encodes.\<close>

definition submit_document :: "GenerationRequest \<Rightarrow> int \<Rightarrow> json" where
  "submit_document r worker_epoch = JDict
     [(''type'', JStr ''submit''), (''protocol_version'', JInt PROTOCOL_VERSION),
      (''worker_epoch'', JInt worker_epoch), (''request_id'', JInt (gr_request_id r)),
      (''priority'', JInt (gr_priority r)), (''timeout_ms'', json_option_int (gr_timeout_ms r)),
      (''trace_id'', JStr (gr_trace_id r)), (''input_token_ids'', JList (map JInt (gr_input_token_ids r))),
      (''max_new_tokens'', JInt (gr_max_new_tokens r)), (''streaming'', JBool (gr_streaming r)),
      (''sampling'', JDict
         [(''temperature'', JFloat (sp_temperature (gr_sampling r))), (''top_k'', JInt (sp_top_k (gr_sampling r))),
          (''top_p'', JFloat (sp_top_p (gr_sampling r))), (''random_seed'', JInt (sp_random_seed (gr_sampling r)))]),
      (''end_id'', json_option_int (gr_end_id r)), (''pad_id'', json_option_int (gr_pad_id r)),
      (''stop_sequences'', JList (map (\<lambda>s. JList (map JInt s)) (gr_stop_sequences r)))]"

definition envelope_document :: "string \<Rightarrow> string \<Rightarrow> int \<Rightarrow> int \<Rightarrow> json" where
  "envelope_document name key i worker_epoch = JDict
     [(''type'', JStr name), (''protocol_version'', JInt PROTOCOL_VERSION),
      (''worker_epoch'', JInt worker_epoch), (key, JInt i)]"

definition hello_document :: "ModelManifest \<Rightarrow> json" where
  "hello_document m = JDict
     [(''type'', JStr ''hello''), (''protocol_version'', JInt PROTOCOL_VERSION),
      (''model_id'', JStr (mm_model_id m)), (''revision'', JStr (mm_revision m))]"

lemma encode_documents:
  "encode_hello frepr m = rbind (validate_manifest m) (\<lambda>_. encode_json frepr (hello_document m))"
  "encode_submit frepr r e =
     rbind (validate_request r) (\<lambda>_. rbind (require_int (JInt e) ''worker_epoch'' 1 u64_max) (\<lambda>_.
     encode_json frepr (submit_document r e)))"
  "encode_cancel frepr i e =
     rbind (require_int (JInt i) ''request_id'' 1 u64_max) (\<lambda>_. rbind (require_int (JInt e) ''worker_epoch'' 1 u64_max) (\<lambda>_.
     encode_json frepr (envelope_document ''cancel'' ''request_id'' i e)))"
  "encode_health frepr i e =
     rbind (require_int (JInt i) ''probe_id'' 1 u64_max) (\<lambda>_. rbind (require_int (JInt e) ''worker_epoch'' 1 u64_max) (\<lambda>_.
     encode_json frepr (envelope_document ''health'' ''probe_id'' i e)))"
  by (simp_all add: encode_hello_def encode_submit_def encode_cancel_def encode_health_def hello_document_def
      submit_document_def envelope_document_def)

section \<open>Reading the client's documents\<close>

lemma uint_of_int64: "0 \<le> n \<Longrightarrow> n \<le> u64_max \<Longrightarrow> uint (of_int n :: uint64) = n"
  by (simp add: u64_max_def uint_word_of_int_eq take_bit_int_eq_self)

lemma uint_of_int32: "0 \<le> n \<Longrightarrow> n \<le> u32_max \<Longrightarrow> uint (of_int n :: uint32) = n"
  by (simp add: u32_max_def uint_word_of_int_eq take_bit_int_eq_self)

lemma sint_of_int64: "- (2 ^ 63) \<le> n \<Longrightarrow> n < 2 ^ 63 \<Longrightarrow> sint (of_int n :: int64) = n"
  by (simp add: signed_of_int signed_take_bit_int_eq_self)

lemma sint_of_int32: "- (2 ^ 31) \<le> n \<Longrightarrow> n \<le> u31_max \<Longrightarrow> sint (of_int n :: int32) = n"
  by (simp add: u31_max_def signed_of_int signed_take_bit_int_eq_self)

lemma ucast_of_int64: "ucast (of_int n :: uint64) = (of_int n :: uint32)"
  by (rule bit_word_eqI) (simp add: bit_simps)

lemma of_int_eq_0:
  "0 \<le> n \<Longrightarrow> n \<le> u64_max \<Longrightarrow> (of_int n :: uint64) = 0 \<longleftrightarrow> n = 0"
  "0 \<le> n \<Longrightarrow> n \<le> u32_max \<Longrightarrow> (of_int n :: uint32) = 0 \<longleftrightarrow> n = 0"
  using uint_of_int64 [of n] uint_of_int32 [of n] by (metis uint_0_eq of_int_0)+

lemma signed32_JInt:
  "signed32 (to_cjson (JInt n)) = (if - (2 ^ 31) \<le> n \<and> n \<le> u31_max then Some (of_int n) else None)"
proof -
  consider "0 \<le> n \<and> n \<le> u64_max" | "- (2 ^ 63) \<le> n \<and> n < 0" | "n < - (2 ^ 63) \<or> u64_max < n" by linarith
  then show ?thesis
  proof cases
    case 1
    then show ?thesis using uint_of_int64 [of n] by (auto simp: signed32_def ucast_of_int64 u31_max_def)
  next
    case 2
    then show ?thesis using sint_of_int64 [of n] by (auto simp: signed32_def ucast_of_int64 u31_max_def)
  next
    case 3
    then show ?thesis by (auto simp: signed32_def u31_max_def u64_max_def)
  qed
qed

lemma those_map:
  "(\<And>x. x \<in> set xs \<Longrightarrow> f x = (if P x then Some (g x) else None)) \<Longrightarrow>
     those (map f xs) = (if list_all P xs then Some (map g xs) else None)"
  by (induction xs) auto

definition token_range :: "int \<Rightarrow> bool" where
  "token_range n \<longleftrightarrow> - (2 ^ 31) \<le> n \<and> n \<le> u31_max"

lemma tokenIds_list:
  "tokenIds (to_cjson (JList (map JInt ids))) = (if list_all token_range ids then Some (map of_int ids) else None)"
proof -
  have "those (map (\<lambda>n. signed32 (to_cjson (JInt n))) ids) = (if list_all token_range ids then Some (map of_int ids) else None)"
    by (rule those_map) (simp only: signed32_JInt token_range_def)
  then show ?thesis by (simp add: tokenIds_def comp_def)
qed

lemma reads_int:
  assumes "map_of d k = Some (to_cjson (JInt n))"
  shows "readUnsigned64 d k = (if 0 \<le> n \<and> n \<le> u64_max then Some (of_int n) else None)"
    and "readUnsigned32 d k = (if 0 \<le> n \<and> n \<le> u32_max then Some (of_int n) else None)"
    and "readSigned32 d k = (if token_range n then Some (of_int n) else None)"
proof -
  show "readUnsigned64 d k = (if 0 \<le> n \<and> n \<le> u64_max then Some (of_int n) else None)"
    using assms by (auto simp: readUnsigned64_def)
  show "readUnsigned32 d k = (if 0 \<le> n \<and> n \<le> u32_max then Some (of_int n) else None)"
    using assms uint_of_int64 [of n] by (auto simp: readUnsigned32_def ucast_of_int64 u32_max_def u64_max_def)
  show "readSigned32 d k = (if token_range n then Some (of_int n) else None)"
    using assms by (simp only: readSigned32_def option.case signed32_JInt token_range_def)
qed

lemma reads_option:
  assumes "map_of d k = Some (to_cjson (json_option_int v))"
  shows "readOptionalUnsigned64 d k = (if pred_option (\<lambda>n. 0 \<le> n \<and> n \<le> u64_max) v then Some (map_option of_int v) else None)"
    and "readOptionalSigned32 d k = (if pred_option token_range v then Some (map_option of_int v) else None)"
proof -
  show "readOptionalUnsigned64 d k = (if pred_option (\<lambda>n. 0 \<le> n \<and> n \<le> u64_max) v then Some (map_option of_int v) else None)"
    using assms by (cases v) (auto simp: readOptionalUnsigned64_def json_option_int_def)
  show "readOptionalSigned32 d k = (if pred_option token_range v then Some (map_option of_int v) else None)"
  proof (cases v)
    case (Some n)
    have "to_cjson (JInt n) \<noteq> CNull" by simp
    then have "readOptionalSigned32 d k = map_option Some (signed32 (to_cjson (JInt n)))"
      using assms Some by (simp add: readOptionalSigned32_def json_option_int_def del: to_cjson.simps split: cjson.split)
    with Some show ?thesis by (simp add: signed32_JInt token_range_def del: to_cjson.simps)
  qed (use assms in \<open>simp add: readOptionalSigned32_def json_option_int_def\<close>)
qed

lemma reads_stops:
  assumes "map_of d k = Some (to_cjson (JList (map (\<lambda>s. JList (map JInt s)) stops)))"
  shows "readStopSequences d k = (if list_all (list_all token_range) stops then Some (map (map of_int) stops) else None)"
proof -
  have "those (map (\<lambda>s. tokenIds (to_cjson (JList (map JInt s)))) stops) =
      (if list_all (list_all token_range) stops then Some (map (map of_int) stops) else None)"
    by (rule those_map) (rule tokenIds_list)
  then show ?thesis using assms by (simp add: readStopSequences_def comp_def)
qed

definition submit_ranges :: "GenerationRequest \<Rightarrow> int \<Rightarrow> bool" where
  "submit_ranges r e \<longleftrightarrow>
     0 \<le> e \<and> e \<le> u64_max \<and> 0 \<le> gr_request_id r \<and> gr_request_id r \<le> u64_max \<and> token_range (gr_priority r) \<and>
     pred_option (\<lambda>n. 0 \<le> n \<and> n \<le> u64_max) (gr_timeout_ms r) \<and> list_all token_range (gr_input_token_ids r) \<and>
     0 \<le> gr_max_new_tokens r \<and> gr_max_new_tokens r \<le> u32_max \<and>
     isfinite (sp_temperature (gr_sampling r)) \<and> token_range (sp_top_k (gr_sampling r)) \<and>
     isfinite (sp_top_p (gr_sampling r)) \<and>
     0 \<le> sp_random_seed (gr_sampling r) \<and> sp_random_seed (gr_sampling r) \<le> u64_max \<and>
     pred_option token_range (gr_end_id r) \<and> pred_option token_range (gr_pad_id r) \<and>
     list_all (list_all token_range) (gr_stop_sequences r)"

definition submit_words :: "GenerationRequest \<Rightarrow> int \<Rightarrow> Submit" where
  "submit_words r e =
     \<lparr>sb_protocol_version = 1, sb_worker_epoch = of_int e, sb_request_id = of_int (gr_request_id r),
      sb_priority = of_int (gr_priority r), sb_timeout_ms = map_option of_int (gr_timeout_ms r),
      sb_trace_id = gr_trace_id r, sb_input_token_ids = map of_int (gr_input_token_ids r),
      sb_max_new_tokens = of_int (gr_max_new_tokens r), sb_streaming = gr_streaming r,
      sb_sampling =
        \<lparr>cs_temperature = sp_temperature (gr_sampling r), cs_top_k = of_int (sp_top_k (gr_sampling r)),
         cs_top_p = sp_top_p (gr_sampling r), cs_random_seed = of_int (sp_random_seed (gr_sampling r))\<rparr>,
      sb_end_id = map_option of_int (gr_end_id r), sb_pad_id = map_option of_int (gr_pad_id r),
      sb_stop_sequences = map (map of_int) (gr_stop_sequences r)\<rparr>"

lemma readSampling_document:
  assumes "map_of d k = Some (to_cjson (JDict
     [(''temperature'', JFloat temperature), (''top_k'', JInt top_k), (''top_p'', JFloat top_p), (''random_seed'', JInt seed)]))"
  shows "readSampling d k =
     (if isfinite temperature \<and> token_range top_k \<and> isfinite top_p \<and> 0 \<le> seed \<and> seed \<le> u64_max
      then Some \<lparr>cs_temperature = temperature, cs_top_k = of_int top_k, cs_top_p = top_p, cs_random_seed = of_int seed\<rparr>
      else None)"
proof -
  let ?d = "[(''temperature'', CFloat temperature), (''top_k'', to_cjson (JInt top_k)), (''top_p'', CFloat top_p),
    (''random_seed'', to_cjson (JInt seed))]"
  have "map_of d k = Some (CObject ?d)" using assms by simp
  moreover have "readFiniteDouble ?d ''temperature'' = (if isfinite temperature then Some temperature else None)"
    "readFiniteDouble ?d ''top_p'' = (if isfinite top_p then Some top_p else None)"
    by (simp_all add: readFiniteDouble_def Let_def)
  moreover have "readSigned32 ?d ''top_k'' = (if token_range top_k then Some (of_int top_k) else None)"
    by (rule reads_int(3)) (simp del: to_cjson.simps)
  moreover have "readUnsigned64 ?d ''random_seed'' = (if 0 \<le> seed \<and> seed \<le> u64_max then Some (of_int seed) else None)"
    by (rule reads_int(1)) (simp del: to_cjson.simps)
  moreover have "exactFields (CObject ?d) [''temperature'', ''top_k'', ''top_p'', ''random_seed''] = Some ?d"
    by (simp add: exactFields_def)
  ultimately show ?thesis by (simp add: readSampling_def del: to_cjson.simps)
qed

definition submit_object :: "GenerationRequest \<Rightarrow> int \<Rightarrow> cobject" where
  "submit_object r e = (case submit_document r e of JDict d \<Rightarrow> map (\<lambda>(k, v). (k, to_cjson v)) d | _ \<Rightarrow> [])"

lemma submit_document_object: "to_cjson (submit_document r e) = CObject (submit_object r e)"
  by (simp add: submit_document_def submit_object_def)

lemma submit_lookups:
  "map_of (submit_object r e) ''type'' = Some (CString ''submit'')"
  "map_of (submit_object r e) ''protocol_version'' = Some (to_cjson (JInt 1))"
  "map_of (submit_object r e) ''worker_epoch'' = Some (to_cjson (JInt e))"
  "map_of (submit_object r e) ''request_id'' = Some (to_cjson (JInt (gr_request_id r)))"
  "map_of (submit_object r e) ''priority'' = Some (to_cjson (JInt (gr_priority r)))"
  "map_of (submit_object r e) ''timeout_ms'' = Some (to_cjson (json_option_int (gr_timeout_ms r)))"
  "map_of (submit_object r e) ''trace_id'' = Some (CString (gr_trace_id r))"
  "map_of (submit_object r e) ''input_token_ids'' = Some (to_cjson (JList (map JInt (gr_input_token_ids r))))"
  "map_of (submit_object r e) ''max_new_tokens'' = Some (to_cjson (JInt (gr_max_new_tokens r)))"
  "map_of (submit_object r e) ''streaming'' = Some (CBool (gr_streaming r))"
  "map_of (submit_object r e) ''sampling'' = Some (to_cjson (JDict
     [(''temperature'', JFloat (sp_temperature (gr_sampling r))), (''top_k'', JInt (sp_top_k (gr_sampling r))),
      (''top_p'', JFloat (sp_top_p (gr_sampling r))), (''random_seed'', JInt (sp_random_seed (gr_sampling r)))]))"
  "map_of (submit_object r e) ''end_id'' = Some (to_cjson (json_option_int (gr_end_id r)))"
  "map_of (submit_object r e) ''pad_id'' = Some (to_cjson (json_option_int (gr_pad_id r)))"
  "map_of (submit_object r e) ''stop_sequences'' =
     Some (to_cjson (JList (map (\<lambda>s. JList (map JInt s)) (gr_stop_sequences r))))"
  by (simp_all add: submit_object_def submit_document_def PROTOCOL_VERSION_def del: to_cjson.simps) simp_all

lemma submit_exact: "exactFields (CObject (submit_object r e)) submit_fields = Some (submit_object r e)"
  unfolding exactFields_def submit_fields_def by (simp add: submit_lookups del: to_cjson.simps) (simp add: submit_object_def submit_document_def)

lemma readSubmit_object: "readSubmit (submit_object r e) = (if submit_ranges r e then Some (submit_words r e) else None)"
proof -
  let ?d = "submit_object r e"
  have "readTokenIds ?d ''input_token_ids'' =
      (if list_all token_range (gr_input_token_ids r) then Some (map of_int (gr_input_token_ids r)) else None)"
    unfolding readTokenIds_def submit_lookups(8) by (simp only: Option.bind.simps tokenIds_list)
  moreover have "readString ?d ''trace_id'' = Some (gr_trace_id r)" "readBoolean ?d ''streaming'' = Some (gr_streaming r)"
    by (simp_all add: readString_def readBoolean_def submit_lookups(7,10))
  moreover have "readUnsigned32 ?d ''protocol_version'' = Some 1"
    unfolding reads_int(2) [OF submit_lookups(2)] by (simp add: u32_max_def)
  ultimately show ?thesis
    unfolding readSubmit_def submit_ranges_def submit_words_def
    by (simp add: reads_int [OF submit_lookups(3)] reads_int [OF submit_lookups(4)] reads_int [OF submit_lookups(5)]
        reads_option [OF submit_lookups(6)] reads_int [OF submit_lookups(9)] readSampling_document [OF submit_lookups(11)]
        reads_option [OF submit_lookups(12)] reads_option [OF submit_lookups(13)] reads_stops [OF submit_lookups(14)])
qed

lemma check_Inr [result_simps]: "check b m = Inr u \<longleftrightarrow> b"
  by (simp add: check_def)

lemma rmap_check: "(\<exists>us. rmap f xs = Inr us) \<longleftrightarrow> list_all (\<lambda>x. f x = Inr ()) xs" for f :: "'a \<Rightarrow> 'e + unit"
proof (induction xs)
  case (Cons x xs)
  then show ?case by (cases "f x"; cases "rmap f xs") auto
qed simp

definition token_ok :: "int \<Rightarrow> bool" where
  "token_ok n \<longleftrightarrow> 0 \<le> n \<and> n \<le> u31_max"

lemma validateTokenId_of_int: "token_range n \<Longrightarrow> validateTokenId f (of_int n) = Inr () \<longleftrightarrow> token_ok n"
  using sint_of_int32 [of n] by (simp add: validateTokenId_def check_Inr token_range_def token_ok_def not_less)

lemma validateTokenIds_of_int:
  "list_all token_range ids \<Longrightarrow> validateTokenIds f (map of_int ids) = Inr () \<longleftrightarrow> ids \<noteq> [] \<and> list_all token_ok ids"
  by (auto simp: validateTokenIds_def rbind_Inr check_Inr rmap_check list_all_iff validateTokenId_of_int)

lemma validateOptional_of_int:
  "pred_option token_range v \<Longrightarrow> validateOptionalTokenId f (map_option of_int v) = Inr () \<longleftrightarrow> pred_option token_ok v"
  by (cases v) (simp_all add: validateOptionalTokenId_def validateTokenId_of_int)

text \<open>The conditions both sides check.\<close>

definition submit_ok :: "GenerationRequest \<Rightarrow> int \<Rightarrow> bool" where
  "submit_ok r e \<longleftrightarrow>
     1 \<le> e \<and> e \<le> u64_max \<and> 1 \<le> gr_request_id r \<and> gr_request_id r \<le> u64_max \<and> token_range (gr_priority r) \<and>
     pred_option (\<lambda>n. 1 \<le> n \<and> n \<le> u64_max) (gr_timeout_ms r) \<and>
     gr_input_token_ids r \<noteq> [] \<and> list_all token_ok (gr_input_token_ids r) \<and>
     1 \<le> gr_max_new_tokens r \<and> gr_max_new_tokens r \<le> u32_max \<and>
     isfinite (sp_temperature (gr_sampling r)) \<and> \<not> float_le (sp_temperature (gr_sampling r)) (Fin 0) \<and>
     token_ok (sp_top_k (gr_sampling r)) \<and> isfinite (sp_top_p (gr_sampling r)) \<and>
     \<not> float_le (sp_top_p (gr_sampling r)) (Fin 0) \<and> \<not> float_lt (Fin 1) (sp_top_p (gr_sampling r)) \<and>
     0 \<le> sp_random_seed (gr_sampling r) \<and> sp_random_seed (gr_sampling r) \<le> u64_max \<and>
     pred_option token_ok (gr_end_id r) \<and> pred_option token_ok (gr_pad_id r) \<and>
     list_all (\<lambda>s. s \<noteq> [] \<and> list_all token_ok s) (gr_stop_sequences r)"

lemma token_ok_range: "token_ok n \<Longrightarrow> token_range n"
  by (simp add: token_ok_def token_range_def)

lemma tokens_ok_range: "list_all token_ok ns \<Longrightarrow> list_all token_range ns" "pred_option token_ok v \<Longrightarrow> pred_option token_range v"
  by (auto simp: list_all_iff token_ok_range) (cases v; simp add: token_ok_range)

lemma submit_ok_ranges: "submit_ok r e \<Longrightarrow> submit_ranges r e"
  by (auto simp: submit_ok_def submit_ranges_def tokens_ok_range token_ok_range list_all_iff
      intro: tokens_ok_range [unfolded list_all_iff] option.pred_mono_strong)

lemma validateSubmit_words:
  assumes "submit_ranges r e"
  shows "validateSubmit (submit_words r e) = Inr () \<longleftrightarrow> submit_ok r e"
proof -
  note R = assms [unfolded submit_ranges_def]
  have timeout: "map_option of_int (gr_timeout_ms r) \<noteq> Some (0 :: uint64) \<longleftrightarrow> pred_option (\<lambda>n. 1 \<le> n \<and> n \<le> u64_max) (gr_timeout_ms r)"
    using R by (cases "gr_timeout_ms r") (auto simp: of_int_eq_0 int_one_le_iff_zero_less)
  have stops: "(\<exists>us. rmap (validateTokenIds ''stop_sequences'') (map (map of_int) (gr_stop_sequences r)) = Inr us) \<longleftrightarrow>
      list_all (\<lambda>s. s \<noteq> [] \<and> list_all token_ok s) (gr_stop_sequences r)"
    using R by (auto simp: rmap_check list_all_iff validateTokenIds_of_int [unfolded list_all_iff])
  have top_k: "\<not> sint (of_int (sp_top_k (gr_sampling r)) :: int32) < 0 \<longleftrightarrow> token_ok (sp_top_k (gr_sampling r))"
    using R sint_of_int32 [of "sp_top_k (gr_sampling r)"] by (auto simp: token_range_def token_ok_def)
  have ids: "validateTokenIds ''input_token_ids'' (map of_int (gr_input_token_ids r)) = Inr () \<longleftrightarrow>
      gr_input_token_ids r \<noteq> [] \<and> list_all token_ok (gr_input_token_ids r)"
    "validateOptionalTokenId ''end_id'' (map_option of_int (gr_end_id r)) = Inr () \<longleftrightarrow> pred_option token_ok (gr_end_id r)"
    "validateOptionalTokenId ''pad_id'' (map_option of_int (gr_pad_id r)) = Inr () \<longleftrightarrow> pred_option token_ok (gr_pad_id r)"
    using R by (simp_all add: validateTokenIds_of_int validateOptional_of_int)
  have nz: "(of_int e :: uint64) \<noteq> 0 \<longleftrightarrow> 1 \<le> e" "(of_int (gr_request_id r) :: uint64) \<noteq> 0 \<longleftrightarrow> 1 \<le> gr_request_id r"
    "(of_int (gr_max_new_tokens r) :: uint32) \<noteq> 0 \<longleftrightarrow> 1 \<le> gr_max_new_tokens r"
    using R by (auto simp: of_int_eq_0)
  have "validateSubmit (submit_words r e) = Inr () \<longleftrightarrow>
      1 \<le> e \<and> 1 \<le> gr_request_id r \<and> pred_option (\<lambda>n. 1 \<le> n \<and> n \<le> u64_max) (gr_timeout_ms r) \<and>
      gr_input_token_ids r \<noteq> [] \<and> list_all token_ok (gr_input_token_ids r) \<and> 1 \<le> gr_max_new_tokens r \<and>
      validateSampling (sb_sampling (submit_words r e)) = Inr () \<and>
      pred_option token_ok (gr_end_id r) \<and> pred_option token_ok (gr_pad_id r) \<and>
      list_all (\<lambda>s. s \<noteq> [] \<and> list_all token_ok s) (gr_stop_sequences r)"
    unfolding validateSubmit_def rbind_Inr
    by (simp add: submit_words_def validateProtocol_def validateEpoch_def validateRequestId_def check_Inr
        ids timeout [simplified] nz stops [simplified])
  also have "\<dots> \<longleftrightarrow> submit_ok r e"
    using R top_k by (auto simp: submit_ok_def validateSampling_def submit_words_def rbind_Inr check_Inr)
  finally show ?thesis .
qed

lemma rmap_require: "(\<exists>us. rmap (\<lambda>t. require_int (JInt t) d lo hi) xs = Inr us) \<longleftrightarrow> list_all (\<lambda>n. lo \<le> n \<and> n \<le> hi) xs"
proof (induction xs)
  case (Cons x xs)
  then show ?case by (auto simp: rbind_Inr require_int_Inr)
qed simp

lemma optional_Inr: "validate_optional_int v d lo hi = Inr () \<longleftrightarrow> pred_option (\<lambda>n. lo \<le> n \<and> n \<le> hi) v"
  by (cases v) (auto simp: validate_optional_int_def rbind_Inr require_int_Inr)

lemma stop_Inr: "validate_stop_sequence s = Inr () \<longleftrightarrow> s \<noteq> [] \<and> list_all token_ok s"
  by (auto simp: validate_stop_sequence_def rbind_Inr guard_Inr rmap_require token_ok_def [abs_def])

lemma validate_request_iff: "validate_request r = Inr () \<and> 1 \<le> e \<and> e \<le> u64_max \<longleftrightarrow> submit_ok r e"
proof -
  have ids: "(\<exists>us. rmap (\<lambda>t. require_int (JInt t) ''input_token_id'' 0 u31_max) (gr_input_token_ids r) = Inr us) \<longleftrightarrow>
      list_all token_ok (gr_input_token_ids r)"
    by (simp add: rmap_require token_ok_def [abs_def])
  have opts: "(\<exists>us. rmap (\<lambda>t. validate_optional_int t ''optional token id'' 0 u31_max) [gr_end_id r, gr_pad_id r] = Inr us) \<longleftrightarrow>
      pred_option token_ok (gr_end_id r) \<and> pred_option token_ok (gr_pad_id r)"
    by (simp only: rmap_check optional_Inr token_ok_def [abs_def]) simp
  have stops: "(\<exists>us. rmap validate_stop_sequence (gr_stop_sequences r) = Inr us) \<longleftrightarrow>
      list_all (\<lambda>s. s \<noteq> [] \<and> list_all token_ok s) (gr_stop_sequences r)"
    by (simp only: rmap_check stop_Inr)
  have float: "require_float (JFloat x) d = Inr y \<longleftrightarrow> isfinite x \<and> y = x" for x y d
    by (auto simp: require_float_Inr is_number_def py_float_def)
  show ?thesis
    unfolding validate_request_def rbind_Inr guard_Inr
    by (simp add: ids opts [simplified] stops require_int_Inr optional_Inr float require_string_def require_bool_def)
      (auto simp: submit_ok_def token_range_def token_ok_def)
qed

section \<open>Properties\<close>

text \<open>
  C9. Both ends check a request in the same way: the Worker's decoder accepts the document that
  describes a request under an epoch if and only if the client's own validation accepts the
  request and the epoch is a positive 64-bit number. This holds for every request, valid or
  not, over all integer ranges, optional fields, token lists and floats: neither side ever
  refuses what the other one takes.
\<close>

theorem submit_validators_agree:
  "(\<exists>m. decodeSubmit (to_cjson (submit_document r e)) = Inr m) \<longleftrightarrow>
     validate_request r = Inr () \<and> 1 \<le> e \<and> e \<le> u64_max"
proof -
  have "decodeSubmit (to_cjson (submit_document r e)) =
      decoded validateSubmit ''Submit contains invalid fields'' (if submit_ranges r e then Some (submit_words r e) else None)"
    by (simp add: decodeSubmit_def submit_document_object submit_exact readSubmit_object)
  then have "(\<exists>m. decodeSubmit (to_cjson (submit_document r e)) = Inr m) \<longleftrightarrow>
      submit_ranges r e \<and> validateSubmit (submit_words r e) = Inr ()"
    by (auto simp: decoded_def decodeError_def rbind_Inr split: if_splits)
  also have "\<dots> \<longleftrightarrow> submit_ok r e" using validateSubmit_words submit_ok_ranges by blast
  finally show ?thesis using validate_request_iff by simp
qed

text \<open>What a client may send, and when a message of the Worker says the same.\<close>

datatype client_call =
    HelloCall ModelManifest
  | SubmitCall GenerationRequest int
  | CancelCall int int
  | HealthCall int int

fun encode_call :: "(rat \<Rightarrow> string) \<Rightarrow> client_call \<Rightarrow> bytes result" where
  "encode_call frepr (HelloCall m) = encode_hello frepr m"
| "encode_call frepr (SubmitCall r e) = encode_submit frepr r e"
| "encode_call frepr (CancelCall i e) = encode_cancel frepr i e"
| "encode_call frepr (HealthCall i e) = encode_health frepr i e"

fun call_document :: "client_call \<Rightarrow> json" where
  "call_document (HelloCall m) = hello_document m"
| "call_document (SubmitCall r e) = submit_document r e"
| "call_document (CancelCall i e) = envelope_document ''cancel'' ''request_id'' i e"
| "call_document (HealthCall i e) = envelope_document ''health'' ''probe_id'' i e"

definition submit_reads :: "Submit \<Rightarrow> GenerationRequest \<Rightarrow> int \<Rightarrow> bool" where
  "submit_reads m r e \<longleftrightarrow>
     uint (sb_worker_epoch m) = e \<and> uint (sb_request_id m) = gr_request_id r \<and> sint (sb_priority m) = gr_priority r \<and>
     map_option uint (sb_timeout_ms m) = gr_timeout_ms r \<and> sb_trace_id m = gr_trace_id r \<and>
     map sint (sb_input_token_ids m) = gr_input_token_ids r \<and> uint (sb_max_new_tokens m) = gr_max_new_tokens r \<and>
     sb_streaming m = gr_streaming r \<and> cs_temperature (sb_sampling m) = sp_temperature (gr_sampling r) \<and>
     sint (cs_top_k (sb_sampling m)) = sp_top_k (gr_sampling r) \<and> cs_top_p (sb_sampling m) = sp_top_p (gr_sampling r) \<and>
     uint (cs_random_seed (sb_sampling m)) = sp_random_seed (gr_sampling r) \<and>
     map_option sint (sb_end_id m) = gr_end_id r \<and> map_option sint (sb_pad_id m) = gr_pad_id r \<and>
     map (map sint) (sb_stop_sequences m) = gr_stop_sequences r"

fun message_reads :: "ClientMessage \<Rightarrow> client_call \<Rightarrow> bool" where
  "message_reads (HelloMessage m) (HelloCall manifest) \<longleftrightarrow>
     hl_model_id m = mm_model_id manifest \<and> hl_revision m = mm_revision manifest"
| "message_reads (SubmitMessage m) (SubmitCall r e) \<longleftrightarrow> submit_reads m r e"
| "message_reads (CancelMessage m) (CancelCall i e) \<longleftrightarrow> uint (ev_worker_epoch m) = e \<and> uint (ev_id m) = i"
| "message_reads (HealthMessage m) (HealthCall i e) \<longleftrightarrow> uint (ev_worker_epoch m) = e \<and> uint (ev_id m) = i"
| "message_reads _ _ \<longleftrightarrow> False"

lemma map_sint: "list_all token_range ns \<Longrightarrow> map (\<lambda>n. sint (of_int n :: int32)) ns = ns"
  by (induction ns) (simp_all add: sint_of_int32 token_range_def)

lemma submit_words_read: "submit_ranges r e \<Longrightarrow> submit_reads (submit_words r e) r e"
proof -
  assume R: "submit_ranges r e"
  have "map (map (\<lambda>n. sint (of_int n :: int32))) (gr_stop_sequences r) = gr_stop_sequences r"
    using R by (auto simp: submit_ranges_def list_all_iff map_sint [unfolded list_all_iff] intro: map_idI)
  moreover have "map_option (\<lambda>n. sint (of_int n :: int32)) v = v" if "pred_option token_range v" for v
    using that by (cases v) (simp_all add: sint_of_int32 token_range_def)
  moreover have "map_option (\<lambda>n. uint (of_int n :: uint64)) v = v" if "pred_option (\<lambda>n. 0 \<le> n \<and> n \<le> u64_max) v" for v
    using that by (cases v) (simp_all add: uint_of_int64)
  ultimately show ?thesis using R
    by (simp add: submit_ranges_def submit_reads_def submit_words_def uint_of_int64 uint_of_int32 map_sint
        sint_of_int32 token_range_def option.map_comp comp_def)
qed

lemma envelope_read:
  assumes "1 \<le> i" "i \<le> u64_max" "1 \<le> e" "e \<le> u64_max"
    and "map_of d ''protocol_version'' = Some (to_cjson (JInt 1))" "map_of d ''worker_epoch'' = Some (to_cjson (JInt e))"
      "map_of d key = Some (to_cjson (JInt i))"
  shows "readEnvelope d key = Some \<lparr>ev_protocol_version = 1, ev_worker_epoch = of_int e, ev_id = of_int i\<rparr>"
  using assms by (simp add: readEnvelope_def reads_int [OF assms(5)] reads_int [OF assms(6)] reads_int [OF assms(7)] u32_max_def)



end
