(* ===== verification/Worker_Frames.thy ===== *)
theory Worker_Frames
  imports Framing Wire
begin

text \<open>
  The Worker's frame codec, \<open>encodeFrame\<close> and \<open>FrameDecoder\<close> of \<open>src/ipc/ipc_protocol.cpp\<close>, with
  the 32-bit length as a word built by shifts. The decoder is incremental: \<open>feed\<close> takes whatever
  bytes have arrived and returns the payloads completed by them.
\<close>

unbundle bit_operations_syntax

section \<open>Definitions\<close>

definition resource_exhausted :: "string \<Rightarrow> Status" where
  "resource_exhausted message = Status_make ''resource_exhausted'' message"

definition invalid_frame :: "string \<Rightarrow> Status" where
  "invalid_frame message = Status_make ''invalid_input'' message"

definition encodeFrame :: "bytes \<Rightarrow> 32 word \<Rightarrow> Status + bytes" where
  "encodeFrame payload max_payload_bytes =
     (if max_payload_bytes = 0 then Inl (invalid_frame ''max_payload_bytes must be positive'')
      else if payload = [] then Inl (invalid_frame ''frame payload must not be empty'')
      else if uint max_payload_bytes < int (length payload) \<or> 2 ^ 32 - 1 < int (length payload)
      then Inl (resource_exhausted ''frame payload exceeds max_payload_bytes'')
      else
        let payload_size = (of_nat (length payload) :: 32 word)
        in Inr ([ucast (drop_bit 24 payload_size AND 0xFF), ucast (drop_bit 16 payload_size AND 0xFF),
                 ucast (drop_bit 8 payload_size AND 0xFF), ucast (payload_size AND 0xFF)] @ payload))"

record FrameDecoder =
  fd_max_payload_bytes :: "32 word"
  fd_prefix :: bytes \<comment> \<open>the first \<open>prefix_size_\<close> bytes of \<open>prefix_\<close>\<close>
  fd_expected_payload_size :: "32 word"
  fd_payload :: bytes
  fd_failure :: "Status option" \<comment> \<open>\<open>failure_\<close> when \<open>failed_\<close>\<close>

definition fresh_decoder :: "32 word \<Rightarrow> FrameDecoder" where
  "fresh_decoder max_payload_bytes =
     \<lparr>fd_max_payload_bytes = max_payload_bytes, fd_prefix = [], fd_expected_payload_size = 0, fd_payload = [],
      fd_failure = None\<rparr>"

text \<open>The constructor; a limit of zero is a \<open>std::invalid_argument\<close>.\<close>

definition FrameDecoder_init :: "32 word \<Rightarrow> string + FrameDecoder" where
  "FrameDecoder_init max_payload_bytes =
     (if max_payload_bytes = 0 then Inl ''max_payload_bytes must be positive'' else Inr (fresh_decoder max_payload_bytes))"

definition big_endian :: "bytes \<Rightarrow> 32 word" where
  "big_endian p =
     push_bit 24 (ucast (p ! 0)) OR push_bit 16 (ucast (p ! 1)) OR push_bit 8 (ucast (p ! 2)) OR ucast (p ! 3)"

definition decoder_fail :: "Status \<Rightarrow> FrameDecoder \<Rightarrow> FrameDecoder" where
  "decoder_fail status d =
     d\<lparr>fd_failure := Some status, fd_prefix := [], fd_expected_payload_size := 0, fd_payload := []\<rparr>"

text \<open>Once the prefix is complete: the expected size, checked when it is first read.\<close>

definition read_size :: "FrameDecoder \<Rightarrow> Status + FrameDecoder" where
  "read_size d =
     (if fd_expected_payload_size d \<noteq> 0 then Inr d
      else
        let n = big_endian (fd_prefix d) in
        if n = 0 then Inl (invalid_frame ''frame payload length must be positive'')
        else if fd_max_payload_bytes d < n
        then Inl (resource_exhausted ''frame payload length exceeds max_payload_bytes'')
        else Inr (d\<lparr>fd_expected_payload_size := n, fd_payload := []\<rparr>))"

text \<open>The loop of \<open>feed\<close>: \<open>bs\<close> are the bytes from \<open>position\<close> on.\<close>

function feed_loop :: "FrameDecoder \<Rightarrow> bytes \<Rightarrow> bytes list \<Rightarrow> (Status + bytes list) \<times> FrameDecoder" where
  "feed_loop d bs completed =
     (if bs = [] then (Inr completed, d)
      else
        let k = 4 - length (fd_prefix d);
            d1 = d\<lparr>fd_prefix := fd_prefix d @ take k bs\<rparr>; bs1 = drop k bs
        in if length (fd_prefix d1) < 4 then (Inr completed, d1)
           else case read_size d1 of
             Inl status \<Rightarrow> (Inl status, decoder_fail status d1)
           | Inr d2 \<Rightarrow>
               let remaining = unat (fd_expected_payload_size d2) - length (fd_payload d2);
                   payload = fd_payload d2 @ take remaining bs1
               in if length payload \<noteq> unat (fd_expected_payload_size d2)
                  then (Inr completed, d2\<lparr>fd_payload := payload\<rparr>)
                  else feed_loop (d2\<lparr>fd_payload := [], fd_prefix := [], fd_expected_payload_size := 0\<rparr>)
                         (drop remaining bs1) (completed @ [payload]))"
  by pat_completeness auto
termination
  by (relation "measures [\<lambda>(d, bs, _). length bs, \<lambda>(d, bs, _). length (fd_prefix d)]")
    (auto simp: Let_def diff_less_mono2)

definition feed :: "bytes \<Rightarrow> FrameDecoder \<Rightarrow> (Status + bytes list) \<times> FrameDecoder" where
  "feed bs d =
     (case fd_failure d of
        Some status \<Rightarrow> (Inl status, d)
      | None \<Rightarrow> feed_loop d bs [])"

definition hasPartialFrame :: "FrameDecoder \<Rightarrow> bool" where
  "hasPartialFrame d \<longleftrightarrow> fd_prefix d \<noteq> [] \<or> fd_expected_payload_size d \<noteq> 0"

definition decoder_reset :: "FrameDecoder \<Rightarrow> FrameDecoder" where
  "decoder_reset d = fresh_decoder (fd_max_payload_bytes d)"

text \<open>The decoder between two reads: a length is known exactly when the prefix is complete.\<close>

definition wf_decoder :: "FrameDecoder \<Rightarrow> bool" where
  "wf_decoder d \<longleftrightarrow> length (fd_prefix d) \<le> 4 \<and>
     (fd_expected_payload_size d \<noteq> 0 \<longrightarrow> length (fd_prefix d) = 4 \<and>
        length (fd_payload d) < unat (fd_expected_payload_size d))"

text \<open>The decoder once \<open>bs\<close> has completed its prefix, and the bytes of \<open>bs\<close> behind the prefix.\<close>

definition with_prefix :: "FrameDecoder \<Rightarrow> bytes \<Rightarrow> FrameDecoder" where
  "with_prefix d bs = d\<lparr>fd_prefix := fd_prefix d @ take (4 - length (fd_prefix d)) bs\<rparr>"

definition cleared :: "FrameDecoder \<Rightarrow> FrameDecoder" where
  "cleared d = d\<lparr>fd_payload := [], fd_prefix := [], fd_expected_payload_size := 0\<rparr>"

text \<open>Feeding the reads of a connection one after the other, up to the first failure.\<close>

fun feed_all :: "bytes list \<Rightarrow> FrameDecoder \<Rightarrow> (Status + bytes list) \<times> FrameDecoder" where
  "feed_all [] d = (Inr [], d)"
| "feed_all (c # cs) d =
     (case feed c d of
        (Inl e, d') \<Rightarrow> (Inl e, d')
      | (Inr ps, d') \<Rightarrow> (case feed_all cs d' of (Inl e, d'') \<Rightarrow> (Inl e, d'') | (Inr qs, d'') \<Rightarrow> (Inr (ps @ qs), d'')))"

section \<open>Lemmas\<close>

lemma byte_of_shift:
  fixes w :: "32 word"
  shows "(ucast (drop_bit k w) :: byte) = of_nat (unat w div 2 ^ k)"
proof -
  have "unat w div 2 ^ k = unat (drop_bit k w)" 
    by (rule unat_drop_bit_eq [of k w, unfolded drop_bit_eq_div [of k "unat w"], symmetric])
  then show ?thesis by (simp only: of_nat_unat)
qed

lemma low_byte: "(ucast (w AND 0xFF :: 32 word) :: byte) = ucast w"
proof -
  have "(0xFF :: 32 word) = mask 8" by (simp add: mask_eq_exp_minus_1)
  then have "w AND 0xFF = take_bit 8 w" by (simp only: take_bit_eq_mask)
  then show ?thesis by (simp only:) (rule bit_word_eqI, auto simp: bit_simps)
qed

lemma of_nat_byte_mod: "(of_nat (n mod 256) :: byte) = of_nat n"
  by (simp add: word_unat_eq_iff unat_byte_of_nat)

lemma pack_u32_shifts:
  assumes "n < 2 ^ 32"
  shows "pack_u32 n = (let w = (of_nat n :: 32 word) in
    [ucast (drop_bit 24 w), ucast (drop_bit 16 w), ucast (drop_bit 8 w), ucast w])"
proof -
  have "unat (of_nat n :: 32 word) = n" using assms by (simp add: unat_of_nat)
  with byte_of_shift [of _ "of_nat n"] byte_of_shift [of 0 "of_nat n"] show ?thesis
    by (simp add: pack_u32_def of_nat_byte_mod)
qed

lemma big_endian_shifts:
  "big_endian [ucast (drop_bit 24 w), ucast (drop_bit 16 w), ucast (drop_bit 8 w), ucast w] = w"
proof (rule bit_word_eqI)
  fix i :: nat assume "i < LENGTH(32)"
  then have i: "i < 32" by simp
  consider "i < 8" | "8 \<le> i" "i < 16" | "16 \<le> i" "i < 24" | "24 \<le> i" using i by linarith
  then show "bit (big_endian [ucast (drop_bit 24 w), ucast (drop_bit 16 w), ucast (drop_bit 8 w), ucast w]) i = bit w i"
    using i by cases (auto simp: big_endian_def bit_simps dest: bit_imp_le_length)
qed
lemma encodeFrame_Inr:
  "encodeFrame p mx = Inr f \<longleftrightarrow>
     p \<noteq> [] \<and> int (length p) \<le> uint mx \<and> f = pack_u32 (length p) @ p"
proof -
  have "int (length p) < 2 ^ 32" if "int (length p) \<le> uint mx"
    using uint_lt2p [of mx] that by simp
  then show ?thesis
    by (auto simp: encodeFrame_def pack_u32_shifts low_byte Let_def)
qed

declare feed_loop.simps [simp del]

lemma feed_loop_Nil [simp]: "feed_loop d [] c = (Inr c, d)"
  by (simp add: feed_loop.simps)

lemma cleared_payload [simp]: "cleared (d\<lparr>fd_payload := p\<rparr>) = cleared d"
  by (simp add: cleared_def)

lemma with_prefix_wf:
  "wf_decoder d \<Longrightarrow> 4 \<le> length (fd_prefix d) + length bs \<Longrightarrow>
     wf_decoder (with_prefix d bs) \<and> length (fd_prefix (with_prefix d bs)) = 4 \<and> fd_failure (with_prefix d bs) = fd_failure d"
  by (auto simp: with_prefix_def wf_decoder_def)

lemma read_size_wf:
  assumes "wf_decoder d \<and> length (fd_prefix d) = 4 \<and> fd_failure d = f" "read_size d = Inr d2"
  shows "wf_decoder d2 \<and> fd_expected_payload_size d2 \<noteq> 0 \<and> fd_prefix d2 = fd_prefix d \<and> fd_failure d2 = f"
  using assms by (auto simp: read_size_def wf_decoder_def Let_def unat_gt_0 split: if_splits)

lemma feed_loop_short:
  "length (fd_prefix d) + length bs < 4 \<Longrightarrow> feed_loop d bs c = (Inr c, d\<lparr>fd_prefix := fd_prefix d @ bs\<rparr>)"
  by (cases "bs = []") (simp_all add: feed_loop.simps [of d bs c])

lemma feed_loop_payload:
  assumes "bs \<noteq> []" "4 \<le> length (fd_prefix d) + length bs" "read_size (with_prefix d bs) = Inr d2"
    and "bs1 = drop (4 - length (fd_prefix d)) bs"
    and "remaining = unat (fd_expected_payload_size d2) - length (fd_payload d2)"
  shows "feed_loop d bs c =
    (if length (fd_payload d2) + length bs1 < unat (fd_expected_payload_size d2)
     then (Inr c, d2\<lparr>fd_payload := fd_payload d2 @ bs1\<rparr>)
     else if unat (fd_expected_payload_size d2) < length (fd_payload d2)
     then (Inr c, d2)
     else feed_loop (cleared d2) (drop remaining bs1) (c @ [fd_payload d2 @ take remaining bs1]))"
  using assms by (auto simp: feed_loop.simps [of d bs c] with_prefix_def Let_def cleared_def)

lemma feed_loop_cong:
  assumes "bs \<noteq> []" "bs' \<noteq> []" "with_prefix d bs = with_prefix d' bs'"
    and "drop (4 - length (fd_prefix d)) bs = drop (4 - length (fd_prefix d')) bs'"
  shows "feed_loop d bs c = feed_loop d' bs' c"
  using assms unfolding with_prefix_def by (simp only: feed_loop.simps [of d bs c] feed_loop.simps [of d' bs' c] Let_def if_False)

lemma read_size_Inl:
  "read_size (with_prefix d bs) = Inl e \<Longrightarrow> bs \<noteq> [] \<Longrightarrow> 4 \<le> length (fd_prefix d) + length bs \<Longrightarrow>
     feed_loop d bs c = (Inl e, decoder_fail e (with_prefix d bs))"
  by (simp add: feed_loop.simps [of d bs c] with_prefix_def Let_def)

text \<open>
  What a wait inside a payload leaves: the bytes of the payload so far, and the loop that resumes
  on the next bytes.
\<close>

lemma feed_loop_resume:
  assumes "xs \<noteq> []" "4 \<le> length (fd_prefix d) + length xs" "read_size (with_prefix d xs) = Inr d2"
    and "bs = drop (4 - length (fd_prefix d)) xs"
    and "length (fd_prefix d2) = 4" "fd_expected_payload_size d2 \<noteq> 0"
    and "length (fd_payload d2) + length bs < unat (fd_expected_payload_size d2)"
  shows "feed_loop d (xs @ ys) c = feed_loop (d2\<lparr>fd_payload := fd_payload d2 @ bs\<rparr>) ys c"
proof (cases "ys = []")
  case True
  with assms feed_loop_payload [OF assms(1-4) refl, of c] show ?thesis by simp
next
  case False
  let ?d1 = "d2\<lparr>fd_payload := fd_payload d2 @ bs\<rparr>"
  have "with_prefix d (xs @ ys) = with_prefix d xs" using assms(2) by (simp add: with_prefix_def)
  moreover have "read_size (with_prefix ?d1 ys) = Inr ?d1"
    using assms by (simp add: with_prefix_def read_size_def)
  ultimately show ?thesis
    using False assms feed_loop_payload [of "xs @ ys" d d2 "bs @ ys" _ c] feed_loop_payload [of ys ?d1 ?d1 ys _ c]
    by auto
qed

lemma feed_loop_append:
  assumes "wf_decoder d"
  shows "feed_loop d (xs @ ys) c =
      (case feed_loop d xs c of (Inl e, d1) \<Rightarrow> (Inl e, d1) | (Inr c1, d1) \<Rightarrow> feed_loop d1 ys c1) \<and>
    (\<forall>c1 d1. feed_loop d xs c = (Inr c1, d1) \<longrightarrow> wf_decoder d1 \<and> fd_failure d1 = fd_failure d)"
  using assms
proof (induction "length xs" arbitrary: d xs c rule: less_induct)
  case less
  let ?bs = "drop (4 - length (fd_prefix d)) xs"
  consider "xs = []" | "xs \<noteq> []" "length (fd_prefix d) + length xs < 4"
    | (Inl) e where "xs \<noteq> []" "4 \<le> length (fd_prefix d) + length xs" "read_size (with_prefix d xs) = Inl e"
    | (Inr) d2 where "xs \<noteq> []" "4 \<le> length (fd_prefix d) + length xs" "read_size (with_prefix d xs) = Inr d2"
    by (metis not_le sum.exhaust)
  then show ?case
  proof cases
    case 1
    with less.prems show ?thesis by simp
  next
    case 2
    let ?d1 = "d\<lparr>fd_prefix := fd_prefix d @ xs\<rparr>"
    have "feed_loop d (xs @ ys) c = feed_loop ?d1 ys c" if "ys \<noteq> []"
      using 2 that by (intro feed_loop_cong) (simp_all add: with_prefix_def)
    with 2 less.prems show ?thesis by (cases "ys = []") (auto simp: wf_decoder_def feed_loop_short)
  next
    case Inl
    then have "with_prefix d (xs @ ys) = with_prefix d xs" by (simp add: with_prefix_def)
    with Inl show ?thesis by (simp add: read_size_Inl)
  next
    case Inr
    then have wf2: "length (fd_payload d2) < unat (fd_expected_payload_size d2)" "length (fd_prefix d2) = 4"
      "fd_expected_payload_size d2 \<noteq> 0" "fd_failure d2 = fd_failure d"
      using read_size_wf [OF with_prefix_wf [OF less.prems Inr(2)] Inr(3)]
      by (auto simp: wf_decoder_def)
    note unfold = feed_loop_payload [OF Inr refl refl, of c]
    show ?thesis
    proof (cases "length (fd_payload d2) + length ?bs < unat (fd_expected_payload_size d2)")
      case True
      with unfold feed_loop_resume [OF Inr refl wf2(2,3) True] wf2 show ?thesis
        by (auto simp: wf_decoder_def)
    next
      case False
      let ?r = "unat (fd_expected_payload_size d2) - length (fd_payload d2)"
      have "with_prefix d (xs @ ys) = with_prefix d xs" using Inr(2) by (simp add: with_prefix_def)
      then have "feed_loop d (xs @ ys) c = feed_loop (cleared d2) (drop ?r ?bs @ ys) (c @ [fd_payload d2 @ take ?r ?bs])"
        using feed_loop_payload [of "xs @ ys" d d2 "?bs @ ys" ?r c] Inr False wf2 by auto
      moreover have "feed_loop d xs c = feed_loop (cleared d2) (drop ?r ?bs) (c @ [fd_payload d2 @ take ?r ?bs])"
        using unfold False wf2 by auto
      moreover have "length (drop ?r ?bs) < length xs" using Inr(1) wf2 by (cases xs) auto
      moreover have "wf_decoder (cleared d2)" "fd_failure (cleared d2) = fd_failure d"
        using wf2 by (simp_all add: wf_decoder_def cleared_def)
      ultimately show ?thesis using less.hyps [of "drop ?r ?bs" "cleared d2" "c @ [fd_payload d2 @ take ?r ?bs]"] by simp
    qed
  qed
qed

lemma feed_loop_frame:
  assumes "encode_frame p mx = Inr f" and "int (length p) \<le> uint m"
  shows "feed_loop (fresh_decoder m) (f @ rest) c = feed_loop (fresh_decoder m) rest (c @ [p])"
proof -
  let ?d = "fresh_decoder m"
  from assms(1) have p: "p \<noteq> []" "length p < 2 ^ 32" and f: "f = pack_u32 (length p) @ p"
    by (auto simp: encode_frame_Inr u32_max_def)
  let ?n = "of_nat (length p) :: 32 word"
  have n: "unat ?n = length p" using p(2) by (simp add: unat_of_nat)
  have "big_endian (pack_u32 (length p)) = ?n" by (simp only: pack_u32_shifts [OF p(2)] Let_def big_endian_shifts)
  moreover have "\<not> m < ?n" using assms(2) n unfolding word_less_nat_alt by (simp only: uint_nat)
  moreover have "?n \<noteq> 0" using n p(1) by (metis length_0_conv unat_0)
  ultimately have size: "read_size (with_prefix ?d (f @ rest)) =
      Inr (?d\<lparr>fd_prefix := pack_u32 (length p), fd_expected_payload_size := ?n\<rparr>)"
    using f by (simp add: read_size_def with_prefix_def Let_def fresh_decoder_def)
  show ?thesis
    using feed_loop_payload [OF _ _ size refl refl, of c] f n p(1)
    by (simp add: cleared_def fresh_decoder_def)
qed

lemma feed_loop_frames:
  assumes "list_all2 (\<lambda>p f. encode_frame p mx = Inr f \<and> int (length p) \<le> uint m) ps fs"
  shows "feed_loop (fresh_decoder m) (concat fs) c = (Inr (c @ ps), fresh_decoder m)"
  using assms by (induction ps fs arbitrary: c rule: list_all2_induct) (auto simp: feed_loop_frame)

lemma feed_loop_acc:
  "feed_loop d bs (c @ c') = (case feed_loop d bs c' of (Inl e, d') \<Rightarrow> (Inl e, d') | (Inr ps, d') \<Rightarrow> (Inr (c @ ps), d'))"
proof (induction d bs c' rule: feed_loop.induct)
  case (1 d bs c')
  then show ?case
    by (auto simp: feed_loop.simps [of d bs] Let_def split: sum.splits)
qed

lemma feed_all_concat:
  assumes "feed_loop d (concat cs) [] = (Inr ps, d')" and "wf_decoder d" and "fd_failure d = None"
  shows "feed_all cs d = (Inr ps, d')"
  using assms
proof (induction cs arbitrary: d ps)
  case Nil
  then show ?case by simp
next
  case (Cons x cs)
  from feed_loop_append [OF Cons.prems(2), of x "concat cs" "[]"] Cons.prems(1)
  obtain c1 d1 where 1: "feed_loop d x [] = (Inr c1, d1)" "feed_loop d1 (concat cs) c1 = (Inr ps, d')"
    "wf_decoder d1" "fd_failure d1 = None"
    using Cons.prems(3) by (auto split: prod.splits sum.splits)
  from 1(2) feed_loop_acc [of d1 "concat cs" c1 "[]"] obtain qs where
    "feed_loop d1 (concat cs) [] = (Inr qs, d')" "ps = c1 @ qs"
    by (auto split: prod.splits sum.splits)
  with Cons.IH [OF _ 1(3,4)] 1(1) Cons.prems(3) show ?case by (simp add: feed_def)
qed

section \<open>Properties\<close>

text \<open>
  Worker and client build the same frames: with the same positive limit, \<open>encodeFrame\<close> and \<open>encode_frame\<close>
  accept the same payloads and produce the same bytes.
\<close>

theorem frame_encoders_agree:
  assumes "0 < mx"
  shows "encodeFrame p mx = Inr f \<longleftrightarrow> encode_frame p (uint mx) = Inr f"
proof -
  have "int (length p) \<le> u32_max" if "int (length p) \<le> uint mx"
    using uint_lt2p [of mx] that by (simp add: u32_max_def)
  then show ?thesis by (auto simp: encodeFrame_Inr encode_frame_Inr)
qed

text \<open>
  C16. The Worker reads what the client writes, however the bytes arrive: a new decoder that is fed
  any splitting of the concatenated frames of the client returns exactly their payloads, in order,
  without a failure, and is afterwards in its fresh state with no partial frame.
\<close>

theorem worker_decodes_client_frames:
  assumes "FrameDecoder_init max_recv = Inr d"
    and "list_all2 (\<lambda>p f. encode_frame p max_send = Inr f) payloads frames"
    and "list_all (\<lambda>p. int (length p) \<le> uint max_recv) payloads"
    and "concat reads = concat frames"
  shows "feed_all reads d = (Inr payloads, d) \<and> \<not> hasPartialFrame d"
proof -
  have d: "d = fresh_decoder max_recv" using assms(1) by (simp add: FrameDecoder_init_def split: if_splits)
  have "list_all2 (\<lambda>p f. encode_frame p max_send = Inr f \<and> int (length p) \<le> uint max_recv) payloads frames"
    using assms(2,3) by (auto simp: list_all2_conv_all_nth list_all_length)
  from feed_loop_frames [OF this, of "[]"] assms(4)
  show ?thesis
    by (simp add: d feed_all_concat wf_decoder_def fresh_decoder_def hasPartialFrame_def)
qed

theorem worker_decodes_client_frames_witness:
  "feed_all [[0, 0], [0, 2, 65], [66, 0, 0, 0, 1, 67]] (fresh_decoder 10) = (Inr [[65, 66], [67]], fresh_decoder 10) \<and>
    \<not> hasPartialFrame (fresh_decoder 10)"
  by (rule worker_decodes_client_frames [where max_send = 10 and max_recv = 10
        and frames = "[[0, 0, 0, 2, 65, 66], [0, 0, 0, 1, 67]]"])
    (simp_all add: FrameDecoder_init_def encode_frame_def pack_u32_def u32_max_def)

end
