(* ===== verification/Delivery.thy ===== *)
theory Delivery
  imports Session_Text Tokenizer
begin

text \<open>
  What a session has delivered as a function of the events its pump has processed: the
  tokens of the deltas decode to the text received and queued, and the Worker's terminal is
  the session's terminal. The invariant speaks about a session in which nothing was dropped.
\<close>

definition intact :: "Session \<Rightarrow> bool" where
  "intact s \<longleftrightarrow> \<not> gs_dropping_deltas s \<and> \<not> ab_abandoned (gs_buffer s)"

definition delta_input :: "TokenDelta \<Rightarrow> pump_input" where
  "delta_input d = PumpEvent (EvDelta d)"

definition terminal_input :: "Terminal \<Rightarrow> pump_input" where
  "terminal_input t = PumpEvent (EvTerminal t)"

text \<open>The terminal of the Worker as the session passes it on.\<close>

definition passed_on :: "Terminal \<Rightarrow> GatewayTerminal" where
  "passed_on t = \<lparr>gt_status = tm_status t, gt_finish_reason = tm_finish_reason t, gt_usage = tm_usage t\<rparr>"

definition tokens_of :: "TokenDelta list \<Rightarrow> int list" where
  "tokens_of ds = concat (map td_token_ids ds)"

text \<open>The decoder has seen the tokens of \<open>ds\<close>, and \<open>received\<close> plus the queue is their text.\<close>

definition text_of :: "decode_fun \<Rightarrow> TokenDelta list \<Rightarrow> string \<Rightarrow> Session \<Rightarrow> bool" where
  "text_of decode ds received s \<longleftrightarrow>
     id_tokens (gs_decoder s) = tokens_of ds \<and>
     received @ concat (ab_deltas (gs_buffer s)) = id_decoded (gs_decoder s) \<and>
     (if ds = [] then id_decoded (gs_decoder s) = [] else decode (tokens_of ds) = Inr (id_decoded (gs_decoder s)))"

definition delivered :: "decode_fun \<Rightarrow> TokenDelta list \<Rightarrow> Terminal option \<Rightarrow> string \<Rightarrow> Session \<Rightarrow> bool" where
  "delivered decode ds term received s \<longleftrightarrow>
     gs_local_failure s = None \<and> text_of decode ds received s \<and>
     gs_terminal s = map_option passed_on term \<and> ab_terminal (gs_buffer s) = map_option passed_on term \<and>
     (gs_done s \<longleftrightarrow> term \<noteq> None)"

fun op_input :: "session_op \<Rightarrow> pump_input list" where
  "op_input (Pump outcome i) = [i]"
| "op_input _ = []"

definition inputs :: "session_op list \<Rightarrow> pump_input list" where
  "inputs ops = concat (map op_input ops)"

text \<open>The events of a handle: deltas, then at most one terminal.\<close>

definition handle_inputs :: "TokenDelta list \<Rightarrow> Terminal option \<Rightarrow> pump_input list" where
  "handle_inputs ds term = map delta_input ds @ map terminal_input (option_list term)"

section \<open>Nothing that was dropped comes back\<close>

lemma intact_back:
  assumes "session_step decode x (s, m) = (r, (s', m'))" and "intact s'"
  shows "intact s"
proof (cases x)
  case (Pump outcome i)
  show ?thesis
  proof (cases "gs_done s")
    case False
    with assms Pump show ?thesis
      by (cases "(decode, outcome, i, (s, m))" rule: pump_step.cases)
        (auto simp: intact_def pump_delta_def pump_terminal_def pump_cancel_def pump_except_def session_cancel_def
          session_finish_def set_done_def ab_put_terminal_def ab_put_delta_def Let_def
          split: sum.splits prod.splits if_splits bool.splits exn.splits)
  qed (use assms Pump in auto)
next
  case (Consume e)
  with assms show ?thesis
    by (auto simp: intact_def next_event_def ab_get_def split: prod.splits list.splits option.splits if_splits)
next
  case (Cancel reason outcome)
  with assms show ?thesis
    by (auto simp: intact_def session_cancel_def Let_def split: if_splits sum.splits prod.splits)
next
  case DrainTimeout
  with assms show ?thesis by auto
next
  case Abandon
  with assms show ?thesis by (auto simp: intact_def session_abandon_def ab_abandon_def Let_def split: if_splits)
qed

section \<open>One step\<close>

lemma pump_terminal_delivered:
  assumes "delivered decode ds None received s"
  shows "delivered decode ds (Some t) received (fst (pump_terminal t (s, m)))"
proof -
  have "ab_terminal (gs_buffer s) = None" "gs_local_failure s = None" using assms by (simp_all add: delivered_def)
  then have "fst (pump_terminal t (s, m)) =
      s\<lparr>gs_terminal := Some (passed_on t), gs_buffer := (gs_buffer s)\<lparr>ab_terminal := Some (passed_on t)\<rparr>, gs_done := True\<rparr>"
    by (simp add: pump_terminal_def session_finish_def ab_put_terminal_def set_done_def passed_on_def Let_def)
  with assms show ?thesis by (simp add: delivered_def text_of_def)
qed

lemma pump_delta_delivered:
  assumes tok: "\<And>ids. only_TokenizerError (decode ids)" and del: "delivered decode ds None received s"
    and st: "pump_delta decode outcome (td_token_ids d) (s, m) = (s', m')" and int: "intact s'"
  shows "delivered decode (ds @ [d]) None received s'"
proof -
  have nodrop: "\<not> gs_dropping_deltas s" using st int by (auto simp: pump_delta_def intact_def)
  obtain r dc where ap: "decoder_append decode (td_token_ids d) (gs_decoder s) = (r, dc)" by force
  have ids: "id_tokens (gs_decoder s) @ td_token_ids d = tokens_of (ds @ [d])"
    using del by (simp add: delivered_def text_of_def tokens_of_def)
  show ?thesis
  proof (cases r)
    case (Inl e)
    obtain x where e: "e = TokenizerError x"
      using ap Inl tok [of "tokens_of (ds @ [d])"] ids
      by (auto simp: decoder_append_def Let_def only_TokenizerError_def split: sum.splits if_splits exn.splits)
    let ?s = "s\<lparr>gs_decoder := dc, gs_local_failure := Some (Status_make ''internal_error'' x), gs_dropping_deltas := True\<rparr>"
    have "(s', m') = pump_cancel ''decode_failure'' outcome (?s, m)"
      using st ap Inl nodrop e by (simp add: pump_delta_def)
    then have "s' = fst (pump_cancel ''decode_failure'' outcome (?s, m))" by (metis fst_conv)
    then have "gs_dropping_deltas s'" by (simp add: pump_cancel_dropping)
    with int show ?thesis by (simp add: intact_def)
  next
    case (Inr piece)
    then have dec: "decode (tokens_of (ds @ [d])) = Inr (id_decoded (gs_decoder s) @ piece)"
      "dc = \<lparr>id_tokens = tokens_of (ds @ [d]), id_decoded = id_decoded (gs_decoder s) @ piece\<rparr>"
      using ap ids by (auto simp: decoder_append_def Let_def prefix_def split: sum.splits if_splits)
    show ?thesis
    proof (cases "piece = []")
      case True
      with ap Inr nodrop st have "s' = s\<lparr>gs_decoder := dc\<rparr>" by (simp add: pump_delta_def Let_def)
      with del dec True show ?thesis by (simp add: delivered_def text_of_def)
    next
      case False
      obtain ok b m1 where put: "ab_put_delta piece (gs_buffer s, m) = (ok, (b, m1))" by (metis prod_cases3)
      show ?thesis
      proof (cases ok)
        case True
        with put have b: "b = (gs_buffer s)\<lparr>ab_deltas := ab_deltas (gs_buffer s) @ [piece]\<rparr>"
          by (auto simp: ab_put_delta_def split: if_splits)
        from True put ap Inr nodrop False st have "s' = s\<lparr>gs_decoder := dc, gs_buffer := b\<rparr>"
          by (simp add: pump_delta_def Let_def)
        with del dec b show ?thesis by (simp add: delivered_def text_of_def flip: append_assoc)
      next
        case notok: False
        let ?s = "s\<lparr>gs_decoder := dc, gs_buffer := b, gs_dropping_deltas := True\<rparr>"
        have "(s', m') = pump_cancel ''sse_backpressure'' outcome (?s, m1)"
          using notok put ap Inr nodrop False st by (simp add: pump_delta_def Let_def)
        then have "s' = fst (pump_cancel ''sse_backpressure'' outcome (?s, m1))" by (metis fst_conv)
        then have "gs_dropping_deltas s'" by (simp add: pump_cancel_dropping)
        with int show ?thesis by (simp add: intact_def)
      qed
    qed
  qed
qed

lemma silent_step_delivered:
  assumes del: "delivered decode ds term received s" and st: "session_step decode x (s, m) = (r, (s', m'))"
    and int: "intact s'" and quiet: "op_input x = []"
  shows "delivered decode ds term (received @ event_text r) s'"
proof (cases x)
  case (Consume e)
  obtain g b m1 where g: "ab_get e (gs_buffer s, m) = (g, (b, m1))" by (metis prod_cases3)
  with Consume st have "r = got_event g" "s' = s\<lparr>gs_buffer := b\<rparr>" by (auto simp: next_event_def)
  moreover have "event_text (got_event g) @ concat (ab_deltas b) = concat (ab_deltas (gs_buffer s))"
    "ab_terminal b = ab_terminal (gs_buffer s)"
    using g by (auto simp: ab_get_def split: list.splits option.splits if_splits)
  ultimately show ?thesis using del by (auto simp: delivered_def text_of_def split: option.splits)
next
  case (Cancel reason outcome)
  have "s' = s\<lparr>gs_cancel_sent := gs_cancel_sent s'\<rparr> \<and> r = []"
    using Cancel st by (auto simp: session_cancel_def Let_def split: if_splits sum.splits)
  then have "gs_decoder s' = gs_decoder s" "gs_buffer s' = gs_buffer s" "gs_local_failure s' = gs_local_failure s"
    "gs_terminal s' = gs_terminal s" "gs_done s' = gs_done s" "r = []"
    by (metis Session.select_convs Session.surjective Session.update_convs(4))+
  with del show ?thesis by (simp add: delivered_def text_of_def)
next
  case DrainTimeout
  with st del show ?thesis by auto
next
  case Abandon
  with st int show ?thesis by (auto simp: intact_def session_abandon_def ab_abandon_def Let_def split: if_splits)
qed (use quiet in simp)

section \<open>Runs\<close>

text \<open>Reading the events of a handle one by one.\<close>

fun feed :: "TokenDelta list \<times> Terminal option \<Rightarrow> pump_input \<Rightarrow> (TokenDelta list \<times> Terminal option) option" where
  "feed (ds, None) (PumpEvent (EvDelta d)) = Some (ds @ [d], None)"
| "feed (ds, None) (PumpEvent (EvTerminal t)) = Some (ds, Some t)"
| "feed _ _ = None"

fun feeds ::
  "TokenDelta list \<times> Terminal option \<Rightarrow> pump_input list \<Rightarrow> (TokenDelta list \<times> Terminal option) option" where
  "feeds x [] = Some x"
| "feeds x (i # is) = (case feed x i of None \<Rightarrow> None | Some y \<Rightarrow> feeds y is)"

lemma feeds_append: "feeds x (is @ js) = (case feeds x is of None \<Rightarrow> None | Some y \<Rightarrow> feeds y js)"
  by (induction x "is" rule: feeds.induct) (auto split: option.splits)

lemma feeds_handle: "feeds (ds, None) (handle_inputs es term) = Some (ds @ es, term)"
  by (induction es arbitrary: ds)
    (cases "term"; simp add: handle_inputs_def delta_input_def terminal_input_def)+

lemma step_delivered:
  assumes tok: "\<And>ids. only_TokenizerError (decode ids)" and del: "delivered decode ds term received s"
    and st: "session_step decode x (s, m) = (r, (s', m'))" and int: "intact s'"
    and shape: "feeds (ds, term) (op_input x) = Some (ds', term')"
  shows "delivered decode ds' term' (received @ event_text r) s'"
proof (cases "op_input x")
  case Nil
  with shape silent_step_delivered [OF del st int] show ?thesis by simp
next
  case (Cons i js)
  then obtain outcome where x: "x = Pump outcome i" and "js = []" by (cases x) auto
  with Cons shape have fd: "feed (ds, term) i = Some (ds', term')" by (auto split: option.splits)
  then have nt: "term = None" by (cases "((ds, term), i)" rule: feed.cases) auto
  then have nd: "\<not> gs_done s" using del by (simp add: delivered_def)
  show ?thesis using fd nt
  proof (cases "((ds, term), i)" rule: feed.cases)
    case (1 ds0 d)
    with fd x st nd have "pump_delta decode outcome (td_token_ids d) (s, m) = (s', m')" "ds' = ds @ [d]" "term' = None" "r = []"
      by auto
    with pump_delta_delivered [OF tok _ _ int] del nt show ?thesis by auto
  next
    case (2 ds0 t)
    with fd x st nd have "pump_terminal t (s, m) = (s', m')" "ds' = ds" "term' = Some t" "r = []" by auto
    with pump_terminal_delivered [of decode ds received s t m] del nt show ?thesis by simp
  qed auto
qed

lemma run_intact_back: "session_run decode ops (s, m) = (rs, (s', m')) \<Longrightarrow> intact s' \<Longrightarrow> intact s"
proof (induction ops arbitrary: s m rs)
  case (Cons x xs)
  obtain r s1 m1 where st: "session_step decode x (s, m) = (r, (s1, m1))" by (metis prod_cases3)
  with Cons.prems obtain rs' where "session_run decode xs (s1, m1) = (rs', (s', m'))" by (auto split: prod.splits)
  with Cons.IH Cons.prems(2) intact_back [OF st] show ?case by blast
qed simp

lemma run_delivered:
  assumes tok: "\<And>ids. only_TokenizerError (decode ids)" and "delivered decode ds term received s"
    and "session_run decode ops (s, m) = (rs, (s', m'))" and "intact s'"
    and "feeds (ds, term) (inputs ops) = Some (ds', term')"
  shows "delivered decode ds' term' (received @ event_text rs) s'"
  using assms(2-)
proof (induction ops arbitrary: ds "term" received s m rs)
  case Nil
  then show ?case by (simp add: inputs_def)
next
  case (Cons x xs)
  obtain r s1 m1 where st: "session_step decode x (s, m) = (r, (s1, m1))" by (metis prod_cases3)
  obtain rs' where run: "session_run decode xs (s1, m1) = (rs', (s', m'))" and rs: "rs = r @ rs'"
    using Cons.prems(2) st by (auto split: prod.splits)
  obtain ds1 term1 where fd: "feeds (ds, term) (op_input x) = Some (ds1, term1)"
    and fd': "feeds (ds1, term1) (inputs xs) = Some (ds', term')"
    using Cons.prems(4) by (auto simp: inputs_def feeds_append split: option.splits)
  have int1: "intact s1" by (rule run_intact_back [OF run Cons.prems(3)])
  from Cons.IH [OF step_delivered [OF tok Cons.prems(1) st int1 fd] run Cons.prems(3) fd']
  show ?case by (simp add: rs)
qed

lemma fresh_delivered: "delivered decode [] None [] (GatewaySession_init i n\<lparr>gs_started := b\<rparr>)"
  by (simp add: delivered_def text_of_def tokens_of_def GatewaySession_init_def IncrementalDecoder_init_def
      AsyncEventBuffer_init_def)

end
