(* ===== verification/Api_Props.thy ===== *)
theory Api_Props
  imports Api Delivery Gateway_Props
begin

text \<open>
  The two ways of answering a chat completion, \<open>_collect_non_streaming\<close> and
  \<open>_stream_chat_completion\<close>, refine one abstract consumer of a session; what they deliver is
  the decoded text of the Worker's tokens. Also here: the bounded request body, and that an
  accepted request is one the client encodes and the Worker admits.
\<close>

section \<open>The abstract consumer\<close>

datatype consumer_end = Completed GatewayTerminal | LeftDisconnected | LeftCancelled | LeftStopped | StillRunning

fun consume :: "nat \<Rightarrow> 'c http_round list \<Rightarrow> 'c Service \<Rightarrow> string list \<times> consumer_end \<times> 'c Service" where
  "consume r [] s = ([], StillRunning, s)"
| "consume r (Disconnected # rounds) s = ([], LeftDisconnected, drop_client r s)"
| "consume r (Cancelled # rounds) s = ([], LeftCancelled, drop_client r s)"
| "consume r (Poll others # rounds) s =
     (case service_next_event r (others s) of
        (GotDelta d, s') \<Rightarrow> (case consume r rounds s' of (ds, e, s'') \<Rightarrow> (d # ds, e, s''))
      | (GotTerminal t, s') \<Rightarrow> ([], Completed t, s')
      | (GotStop, s') \<Rightarrow> ([], LeftStopped, drop_client r s')
      | (_, s') \<Rightarrow> consume r rounds s')"

fun collect_result :: "string list \<Rightarrow> consumer_end \<Rightarrow> collect_outcome" where
  "collect_result chunks (Completed t) = CollectDone (concat chunks) t"
| "collect_result chunks LeftDisconnected = CollectRaise disconnected_error"
| "collect_result chunks LeftCancelled = CollectCancelled"
| "collect_result chunks LeftStopped = CollectRaise StopIteration"
| "collect_result chunks StillRunning = CollectPending"

fun stream_result :: "consumer_end \<Rightarrow> stream_end" where
  "stream_result (Completed t) = StreamCompleted"
| "stream_result StillRunning = StreamRunning"
| "stream_result _ = StreamDropped"

fun final_events :: "(GatewayTerminal \<Rightarrow> bytes list) \<Rightarrow> consumer_end \<Rightarrow> bytes list" where
  "final_events final (Completed t) = final t"
| "final_events final _ = []"

lemma collect_consume:
  "collect_non_streaming r rounds chunks s =
     (case consume r rounds s of (ds, e, s') \<Rightarrow> (collect_result (chunks @ ds) e, s'))"
  by (induction r rounds chunks s rule: collect_non_streaming.induct)
    (auto split: prod.splits got.splits)

lemma stream_consume:
  "stream_loop content final r rounds s =
     (case consume r rounds s of (ds, e, s') \<Rightarrow> (map content ds @ final_events final e, stream_result e, s'))"
  by (induction content final r rounds s rule: stream_loop.induct)
    (auto split: prod.splits got.splits)

section \<open>Drain tasks\<close>

definition keeps_tasks :: "'c http_round \<Rightarrow> bool" where
  "keeps_tasks rnd \<longleftrightarrow> (case rnd of Poll others \<Rightarrow> (\<forall>s. sv_detached (others s) = sv_detached s) | _ \<Rightarrow> True)"

lemma next_event_tasks [simp]: "service_next_event r s = (g, s') \<Longrightarrow> sv_detached s' = sv_detached s"
  by (auto simp: service_next_event_def update_session_def split: prod.splits)

lemma consume_tasks:
  assumes "list_all keeps_tasks rounds" and "consume r rounds s = (ds, e, s')"
  shows "sv_detached s' =
    (case e of Completed _ \<Rightarrow> [] | StillRunning \<Rightarrow> [] | _ \<Rightarrow> [(r, ''http_disconnect'')]) @ sv_detached s"
  using assms
proof (induction r rounds s arbitrary: ds rule: consume.induct)
  case (4 r others rounds s)
  obtain g s1 where g: "service_next_event r (others s) = (g, s1)" by force
  have d: "sv_detached s1 = sv_detached s" using next_event_tasks [OF g] "4.prems"(1) by (simp add: keeps_tasks_def)
  have rest: "list_all keeps_tasks rounds" using "4.prems"(1) by simp
  show ?case
  proof (cases g)
    case (GotDelta x)
    with g "4.prems"(2) obtain ds' where "consume r rounds s1 = (ds', e, s')" by (auto split: prod.splits)
    with "4.IH"(1) [OF g [symmetric] GotDelta rest] d show ?thesis by simp
  next
    case WouldWait
    with g 4 d rest show ?thesis by auto
  next
    case TimedOut
    with g 4 d rest show ?thesis by auto
  qed (use g "4.prems"(2) d in \<open>auto simp: drop_client_def detach_cancel_and_drain_def\<close>)
qed (auto simp: drop_client_def detach_cancel_and_drain_def)

section \<open>Delivered text\<close>

fun consuming :: "session_op \<Rightarrow> bool" where
  "consuming (Consume e) = True"
| "consuming _ = False"

text \<open>While a round waits, session \<open>r\<close> is moved by the operations \<open>ops\<close> (not by another consumer);
  the rest of the service may change in any way.\<close>

definition moves :: "decode_fun \<Rightarrow> nat \<Rightarrow> session_op list \<Rightarrow> 'c http_round \<Rightarrow> bool" where
  "moves decode r ops rnd \<longleftrightarrow>
     list_all (\<lambda>x. \<not> consuming x) ops \<and>
     (\<exists>others. rnd = Poll others \<and>
        (\<forall>s. r < length (sv_sessions s) \<longrightarrow> r < length (sv_sessions (others s)) \<and>
           (\<exists>m. sv_sessions (others s) ! r = fst (snd (session_run decode ops (sv_sessions s ! r, m))))))"

lemma quiet_run: "list_all (\<lambda>x. \<not> consuming x) ops \<Longrightarrow> fst (session_run decode ops sm) = []"
proof (induction ops arbitrary: sm)
  case (Cons x xs)
  obtain r sm1 where st: "session_step decode x sm = (r, sm1)" using prod.exhaust by blast
  have "r = []" using Cons.prems st by (cases x) auto
  with Cons.IH [of sm1] Cons.prems st show ?case by (simp split: prod.splits)
qed simp

lemma moves_run:
  assumes "moves decode r ops (Poll others)" and "r < length (sv_sessions s)"
  obtains m m' where "session_run decode ops (sv_sessions s ! r, m) = ([], (sv_sessions (others s) ! r, m'))"
    and "r < length (sv_sessions (others s))"
proof -
  from assms obtain m where m: "sv_sessions (others s) ! r = fst (snd (session_run decode ops (sv_sessions s ! r, m)))"
    and r: "r < length (sv_sessions (others s))" by (auto simp: moves_def)
  have "fst (session_run decode ops (sv_sessions s ! r, m)) = []"
    using assms(1) quiet_run by (auto simp: moves_def)
  with m have "session_run decode ops (sv_sessions s ! r, m) =
      ([], (sv_sessions (others s) ! r, snd (snd (session_run decode ops (sv_sessions s ! r, m)))))"
    by (simp add: prod_eq_iff)
  then show ?thesis using r by (rule that)
qed

lemma service_next_event_step:
  assumes "service_next_event r s = (g, s')" and "r < length (sv_sessions s)"
  shows "r < length (sv_sessions s')"
    and "session_step decode (Consume True) (sv_sessions s ! r, sv_metrics s) = (got_event g, (sv_sessions s' ! r, sv_metrics s'))"
  using assms by (auto simp: service_next_event_def update_session_def split: prod.splits)

lemma poll_delivered:
  assumes tok: "\<And>ids. only_TokenizerError (decode ids)" and mv: "moves decode r ops (Poll others)"
    and r: "r < length (sv_sessions s)" and ev: "service_next_event r (others s) = (g, s1)"
    and del: "delivered decode ds term received (sv_sessions s ! r)" and int: "intact (sv_sessions s1 ! r)"
    and fd: "feeds (ds, term) (inputs ops) = Some (ds', term')"
  shows "delivered decode ds' term' (received @ event_text (got_event g)) (sv_sessions s1 ! r) \<and> r < length (sv_sessions s1)"
proof -
  obtain m m' where run: "session_run decode ops (sv_sessions s ! r, m) = ([], (sv_sessions (others s) ! r, m'))"
    and r1: "r < length (sv_sessions (others s))" using moves_run [OF mv r] .
  note st = service_next_event_step(1) [OF ev r1] service_next_event_step(2) [OF ev r1, of decode]
  have "delivered decode ds' term' (received @ event_text []) (sv_sessions (others s) ! r)"
    by (rule run_delivered [OF tok del run intact_back [OF st(2) int] fd])
  from step_delivered [OF tok this st(2) int, of ds' term'] st(1) show ?thesis by simp
qed

lemma poll_intact_back:
  assumes "moves decode r ops (Poll others)" and "r < length (sv_sessions s)"
    and "service_next_event r (others s) = (g, s1)" and "intact (sv_sessions s1 ! r)"
  shows "intact (sv_sessions s ! r)"
proof -
  obtain m m' where run: "session_run decode ops (sv_sessions s ! r, m) = ([], (sv_sessions (others s) ! r, m'))"
    and r1: "r < length (sv_sessions (others s))" using moves_run [OF assms(1,2)] .
  from run_intact_back [OF run intact_back [OF service_next_event_step(2) [OF assms(3) r1] assms(4)]] show ?thesis .
qed

text \<open>The session is as intact as the consumer leaves it.\<close>

lemma consume_intact_back:
  assumes "list_all2 (moves decode r) opss rounds" and "r < length (sv_sessions s)"
    and "consume r rounds s = (ts, e, s')" and "intact (sv_sessions s' ! r)"
  shows "intact (sv_sessions s ! r)"
  using assms
proof (induction opss rounds arbitrary: s ts rule: list_all2_induct)
  case (Cons ops opss rnd rounds)
  then obtain others where rnd: "rnd = Poll others" by (auto simp: moves_def)
  obtain g s1 where g: "service_next_event r (others s) = (g, s1)" by force
  have r1: "r < length (sv_sessions s1)"
    using Cons.hyps(1) Cons.prems(1) rnd service_next_event_step(1) [OF g] by (auto simp: moves_def)
  have "intact (sv_sessions s1 ! r)"
    using Cons.IH [OF r1] Cons.prems g rnd
    by (cases g) (auto simp: drop_client_def detach_cancel_and_drain_def split: prod.splits)
  with poll_intact_back [OF Cons.hyps(1) [unfolded rnd] Cons.prems(1) g] show ?case by blast
qed simp

lemma feeds_after_terminal: "feeds (ds, Some t) is = Some (ds', term') \<Longrightarrow> ds' = ds \<and> term' = Some t"
  by (cases "is") auto

lemma consume_delivered:
  assumes tok: "\<And>ids. only_TokenizerError (decode ids)"
    and "list_all2 (moves decode r) opss rounds" and "r < length (sv_sessions s)"
    and "delivered decode ds term received (sv_sessions s ! r)"
    and "consume r rounds s = (ts, Completed gt, s')" and "intact (sv_sessions s' ! r)"
    and "feeds (ds, term) (inputs (concat opss)) = Some (ds', term')"
  shows "\<exists>t. term' = Some t \<and> gt = passed_on t \<and> text_of decode ds' (received @ concat ts) (sv_sessions s' ! r) \<and>
    ab_deltas (gs_buffer (sv_sessions s' ! r)) = []"
  using assms(2-)
proof (induction opss rounds arbitrary: s ds "term" received ts rule: list_all2_induct)
  case (Cons ops opss rnd rounds)
  then obtain others where rnd: "rnd = Poll others" by (auto simp: moves_def)
  obtain g s1 where g: "service_next_event r (others s) = (g, s1)" by force
  have r1: "r < length (sv_sessions s1)"
    using Cons.hyps(1) Cons.prems(1) rnd service_next_event_step(1) [OF g] by (auto simp: moves_def)
  obtain ds1 term1 where fd: "feeds (ds, term) (inputs ops) = Some (ds1, term1)"
    and fd': "feeds (ds1, term1) (inputs (concat opss)) = Some (ds', term')"
    using Cons.prems(5) by (auto simp: inputs_def feeds_append split: option.splits)
  have mv: "moves decode r ops (Poll others)" using Cons.hyps(1) rnd by simp
  show ?case
  proof (cases "\<exists>t. g = GotTerminal t")
    case True
    with g rnd Cons.prems(3) have t: "g = GotTerminal gt" "ts = []" "s' = s1" by auto
    have del: "delivered decode ds1 term1 (received @ []) (sv_sessions s1 ! r)"
      using poll_delivered [OF tok mv Cons.prems(1) g Cons.prems(2) _ fd] Cons.prems(4) t by simp
    have b: "ab_terminal (gs_buffer (sv_sessions s1 ! r)) = Some gt" "ab_deltas (gs_buffer (sv_sessions s1 ! r)) = []"
      using g t(1) Cons.hyps(1) Cons.prems(1) rnd
      by (auto simp: service_next_event_def next_event_def ab_get_def update_session_def moves_def
          split: prod.splits list.splits option.splits if_splits)
    with del obtain t' where t': "term1 = Some t'" "gt = passed_on t'" by (auto simp: delivered_def)
    with feeds_after_terminal fd' have "ds' = ds1" "term' = Some t'" by blast+
    with t' b t del show ?thesis by (simp add: delivered_def)
  next
    case False
    then obtain ts' where rest: "consume r rounds s1 = (ts', Completed gt, s')"
      and ts: "concat ts = event_text (got_event g) @ concat ts'"
      using g rnd Cons.prems(3) by (cases g) (auto split: prod.splits)
    have int1: "intact (sv_sessions s1 ! r)" by (rule consume_intact_back [OF Cons.hyps(2) r1 rest Cons.prems(4)])
    have "delivered decode ds1 term1 (received @ event_text (got_event g)) (sv_sessions s1 ! r)"
      using poll_delivered [OF tok mv Cons.prems(1) g Cons.prems(2) int1 fd] by blast
    from Cons.IH [OF r1 this rest Cons.prems(4) fd'] ts show ?thesis by simp
  qed
qed simp

section \<open>Request bodies\<close>

definition body_error :: "int \<Rightarrow> string \<Rightarrow> exn \<Rightarrow> bool" where
  "body_error status code e \<longleftrightarrow> (\<exists>g. e = RaisedGatewayError g \<and> ge_http_status g = status \<and> ge_code g = code)"

lemma read_body_append:
  "int (length body) \<le> max_bytes \<Longrightarrow>
     (if max_bytes < int (length body + length (concat chunks))
      then \<exists>e. read_bounded_body max_bytes chunks body = Inl e \<and> body_error 413 ''request_too_large'' e
      else read_bounded_body max_bytes chunks body = read_bounded_body max_bytes [] (body @ concat chunks))"
proof (induction chunks arbitrary: body)
  case Nil
  then show ?case by simp
next
  case (Cons chunk chunks)
  show ?case
  proof (cases "max_bytes < int (length body) + int (length chunk)")
    case True
    then show ?thesis by (auto simp: body_error_def GatewayError_make_def)
  next
    case False
    with Cons.IH [of "body @ chunk"] show ?thesis by (simp add: add.assoc)
  qed
qed

section \<open>Samples\<close>

definition session_poll :: "decode_fun \<Rightarrow> nat \<Rightarrow> session_op list \<Rightarrow> 'c http_round" where
  "session_poll decode r ops =
     Poll (\<lambda>s. update_session r (snd (session_run decode ops (sv_sessions s ! r, sv_metrics s))) s)"

lemma session_poll_moves: "list_all (\<lambda>x. \<not> consuming x) ops \<Longrightarrow> moves decode r ops (session_poll decode r ops)"
  by (auto simp: moves_def session_poll_def update_session_def)

lemma session_poll_keeps: "keeps_tasks (session_poll decode r ops)"
  by (simp add: keeps_tasks_def session_poll_def update_session_def)

definition sample_feed :: "session_op list list" where
  "sample_feed =
     [[Pump (Inr True) (delta_input (sample_delta [1]))], [],
      [Pump (Inr True) (delta_input (sample_delta [2])), Pump (Inr True) (terminal_input sample_terminal)], []]"

definition sample_rounds :: "Client http_round list" where
  "sample_rounds = map (session_poll (tokenizer_decode sample_tokenizer) 0) sample_feed"

definition sample_open_service :: "Client Service" where
  "sample_open_service = snd (open_session 1 0 sample_service)"

lemma sample_open_session:
  "sv_sessions sample_open_service = [GatewaySession_init 1 2\<lparr>gs_started := True\<rparr>]"
  "sv_detached sample_open_service = []"
  by (simp_all add: sample_open_service_def open_session_def sample_service_def GatewayService_init_def upd_metrics_def
      sample_options_def Let_def)

lemma sample_decode_tokens: "tokenizer_decode sample_tokenizer ids = Inr (concat (map show_int ids))"
  by (simp add: tokenizer_decode_def sample_tokenizer_def sample_hf_def)

lemma sample_consume_from:
  assumes "sv_sessions s = [GatewaySession_init 1 2\<lparr>gs_started := True\<rparr>]"
  shows "\<exists>s'. consume 0 sample_rounds s = ([''1'', ''2''], Completed (passed_on sample_terminal), s') \<and>
     intact (sv_sessions s' ! 0)"
  by (simp add: sample_rounds_def sample_feed_def session_poll_def service_next_event_def update_session_def
      assms next_event_def ab_get_def delta_input_def terminal_input_def sample_delta_def pump_delta_def
      decoder_append_def sample_decode_tokens Let_def GatewaySession_init_def IncrementalDecoder_init_def
      AsyncEventBuffer_init_def ab_put_delta_def show_int_def show_nat.simps pump_terminal_def session_finish_def
      ab_put_terminal_def set_done_def passed_on_def intact_def)
    (simp add: char_of_def bit_0)

lemmas sample_consume = sample_consume_from [OF sample_open_session(1)]

lemma sample_rounds_ok:
  "list_all2 (moves (tokenizer_decode sample_tokenizer) 0) sample_feed sample_rounds"
  "list_all keeps_tasks sample_rounds"
  by (simp_all add: sample_rounds_def sample_feed_def session_poll_moves session_poll_keeps)

section \<open>Properties\<close>

text \<open>
  C22. The two responses refine one consumer of the session: run on the same rounds, the
  non-streaming collector returns the concatenation of exactly the texts for which the
  stream yields content events, both end with the same terminal or for the same reason, and
  both leave the service in the same state; the stream starts with the role event and ends
  with the events of the terminal, or with none when it ends early.
\<close>

theorem responses_refine_consumer:
  "collect_non_streaming r rounds [] s =
     (case consume r rounds s of (ds, e, s') \<Rightarrow> (collect_result ds e, s')) \<and>
   stream_chat_completion frepr completion_id created model include_usage r rounds s =
     (case consume r rounds s of (ds, e, s') \<Rightarrow>
        (role_event frepr completion_id created model # map (content_event frepr completion_id created model) ds @
           final_events (terminal_events frepr completion_id created model include_usage) e,
         stream_result e, s'))"
  by (simp add: collect_consume stream_chat_completion_def stream_consume split: prod.split)

text \<open>
  C4. End to end, the stream carries exactly the decoded text: let the pump of a fresh session
  be fed the events of a handle, the deltas \<open>ds\<close> and then the Worker's terminal \<open>t\<close>, while the
  response polls it, in any interleaving with anything else. If the response completes and
  nothing was dropped, it consists of the role event, content events whose texts concatenate
  to what the tokenizer decodes from all tokens of \<open>ds\<close>, and the closing events of \<open>t\<close>.
\<close>

theorem stream_delivers_text:
  assumes "r < length (sv_sessions s)" and "sv_sessions s ! r = GatewaySession_init i n\<lparr>gs_started := True\<rparr>"
    and "list_all2 (moves (tokenizer_decode t) r) opss rounds"
    and "inputs (concat opss) = handle_inputs ds (Some term)"
    and "stream_chat_completion frepr completion_id created model include_usage r rounds s = (events, StreamCompleted, s')"
    and "intact (sv_sessions s' ! r)"
  shows "\<exists>texts. events = role_event frepr completion_id created model #
        map (content_event frepr completion_id created model) texts @
        terminal_events frepr completion_id created model include_usage (passed_on term) \<and>
      (if ds = [] then concat texts = [] else tokenizer_decode t (tokens_of ds) = Inr (concat texts))"
proof -
  obtain ts e where c: "consume r rounds s = (ts, e, s')" and e: "stream_result e = StreamCompleted"
    and ev: "events = role_event frepr completion_id created model #
      map (content_event frepr completion_id created model) ts @
      final_events (terminal_events frepr completion_id created model include_usage) e"
    using assms(5) by (auto simp: stream_chat_completion_def stream_consume split: prod.splits)
  from e obtain gt where gt: "e = Completed gt" by (cases e) auto
  have "delivered (tokenizer_decode t) [] None [] (sv_sessions s ! r)"
    unfolding assms(2) by (rule fresh_delivered)
  from consume_delivered [OF hft.decode_raises assms(3,1) this c [unfolded gt] assms(6)] feeds_handle [of "[]"]
  obtain term' where "term' = term" "gt = passed_on term'" "text_of (tokenizer_decode t) ds (concat ts) (sv_sessions s' ! r)"
    "ab_deltas (gs_buffer (sv_sessions s' ! r)) = []"
    unfolding assms(4) by auto
  with ev gt show ?thesis by (auto simp: text_of_def split: if_splits)
qed

theorem stream_delivers_text_witness:
  "\<exists>texts. fst (stream_chat_completion (\<lambda>_. ''0.0'') ''c'' 0 ''m'' True 0 sample_rounds sample_open_service) =
      role_event (\<lambda>_. ''0.0'') ''c'' 0 ''m'' # map (content_event (\<lambda>_. ''0.0'') ''c'' 0 ''m'') texts @
      terminal_events (\<lambda>_. ''0.0'') ''c'' 0 ''m'' True (passed_on sample_terminal) \<and>
    tokenizer_decode sample_tokenizer [1, 2] = Inr (concat texts)"
proof -
  obtain s' where s': "consume 0 sample_rounds sample_open_service = ([''1'', ''2''], Completed (passed_on sample_terminal), s')"
    "intact (sv_sessions s' ! 0)" using sample_consume by blast
  then obtain events where ev: "stream_chat_completion (\<lambda>_. ''0.0'') ''c'' 0 ''m'' True 0 sample_rounds sample_open_service =
      (events, StreamCompleted, s')"
    by (simp add: stream_chat_completion_def stream_consume)
  have "inputs (concat sample_feed) = handle_inputs [sample_delta [1], sample_delta [2]] (Some sample_terminal)"
    by (simp add: inputs_def sample_feed_def handle_inputs_def)
  from stream_delivers_text [OF _ _ sample_rounds_ok(1) this ev s'(2), of 1 2] ev show ?thesis
    by (simp add: sample_open_session tokens_of_def sample_delta_def)
qed

text \<open>
  C35. No session is left running unattended: a response that ends without having received the
  terminal (the client disconnected, the task was cancelled, the session had already ended)
  hands the session to exactly one drain task, which cancels it; a response that received the
  terminal, or is still waiting, starts none.
\<close>

theorem response_detaches_once:
  assumes "list_all keeps_tasks rounds"
  shows "(case stream_chat_completion frepr completion_id created model include_usage r rounds s of (_, e, s') \<Rightarrow>
       sv_detached s' = (if e = StreamDropped then [(r, ''http_disconnect'')] else []) @ sv_detached s) \<and>
     (case collect_non_streaming r rounds [] s of (outcome, s') \<Rightarrow>
       sv_detached s' = (case outcome of CollectDone _ _ \<Rightarrow> [] | CollectPending \<Rightarrow> [] | _ \<Rightarrow> [(r, ''http_disconnect'')]) @
         sv_detached s)"
proof -
  obtain ts e s' where c: "consume r rounds s = (ts, e, s')" by (metis prod_cases3)
  from consume_tasks [OF assms c] show ?thesis
    by (cases e) (simp_all add: stream_chat_completion_def stream_consume collect_consume c)
qed

theorem response_detaches_once_witness:
  "case stream_chat_completion (\<lambda>_. ''0.0'') ''c'' 0 ''m'' True 0 [session_poll (tokenizer_decode sample_tokenizer) 0 [], Disconnected]
     sample_open_service of (_, e, s') \<Rightarrow> sv_detached s' = (if e = StreamDropped then [(0, ''http_disconnect'')] else [])"
proof -
  have "list_all keeps_tasks [session_poll (tokenizer_decode sample_tokenizer) 0 [], Disconnected]"
    using session_poll_keeps by (simp add: keeps_tasks_def [of Disconnected])
  from response_detaches_once [OF this, where frepr = "\<lambda>_. ''0.0''" and completion_id = "''c''" and created = 0
      and model = "''m''" and include_usage = True and r = 0 and s = sample_open_service]
  show ?thesis by (simp add: sample_open_session)
qed

text \<open>
  Reading the body accepts exactly the non-empty bodies within the limit, however they are
  chunked, and returns them unchanged; a larger body is refused with 413 and an empty one
  with 400.
\<close>

theorem bounded_body_exact:
  assumes "0 \<le> max_bytes"
  shows "case read_bounded_body max_bytes chunks [] of
      Inr body \<Rightarrow> body = concat chunks \<and> body \<noteq> [] \<and> int (length body) \<le> max_bytes
    | Inl e \<Rightarrow>
        if max_bytes < int (length (concat chunks)) then body_error 413 ''request_too_large'' e
        else concat chunks = [] \<and> body_error 400 ''invalid_json'' e"
  using read_body_append [of "[]" max_bytes chunks] assms
  by (auto simp: body_error_def GatewayError_make_def split: if_splits)

theorem bounded_body_exact_witness:
  "case read_bounded_body 3 [[1, 2], [3, 4]] [] of Inr _ \<Rightarrow> False | Inl e \<Rightarrow> body_error 413 ''request_too_large'' e"
  using bounded_body_exact [of 3 "[[1, 2], [3, 4]]"] by (simp split: if_splits)

end
