(* ===== verification/Json_Parse.thy ===== *)
theory Json_Parse
  imports Protocol "HOL-Library.AList"
begin

text \<open>
  \<open>payload.decode("utf-8")\<close> followed by \<open>json.loads\<close> of Python's standard library, an instance of the
  parameter \<open>loads\<close> of the decoders: the scanner of \<open>json.decoder\<close> on the bytes of the text, with the
  depth up to which the interpreter lets it recurse as its argument and the caller's
  \<open>parse_constant\<close>. A message carries the text of the error without the position that follows it.
  An escape \<open>\uXXXX\<close> is replaced by the UTF-8 bytes of its code point, a lone surrogate by its three
  bytes.
\<close>

section \<open>Definitions\<close>

subsection \<open>UTF-8\<close>

definition continuation :: "nat \<Rightarrow> bool" where
  "continuation b \<longleftrightarrow> 128 \<le> b \<and> b < 192"

fun utf8_valid :: "nat list \<Rightarrow> bool" where
  "utf8_valid [] = True"
| "utf8_valid (a # bs) =
     (if a < 128 then utf8_valid bs
      else case bs of
          b # r \<Rightarrow>
            if 194 \<le> a \<and> a < 224 then continuation b \<and> utf8_valid r
            else (case r of
                c # r' \<Rightarrow>
                  if 224 \<le> a \<and> a < 240
                  then continuation b \<and> (a = 224 \<longrightarrow> 160 \<le> b) \<and> (a = 237 \<longrightarrow> b < 160) \<and> continuation c \<and> utf8_valid r'
                  else (case r' of
                      d # r'' \<Rightarrow>
                        240 \<le> a \<and> a < 245 \<and> continuation b \<and> (a = 240 \<longrightarrow> 144 \<le> b) \<and> (a = 244 \<longrightarrow> b < 144) \<and>
                        continuation c \<and> continuation d \<and> utf8_valid r''
                    | [] \<Rightarrow> False)
              | [] \<Rightarrow> False)
        | [] \<Rightarrow> False)"

definition utf8_text :: "string \<Rightarrow> bool" where
  "utf8_text s \<longleftrightarrow> utf8_valid (map of_char s)"

definition code_point :: "nat \<Rightarrow> string" where
  "code_point n =
     map char_of
       (if n < 128 then [n]
        else if n < 2048 then [192 + n div 64, 128 + n mod 64]
        else if n < 65536 then [224 + n div 4096, 128 + n div 64 mod 64, 128 + n mod 64]
        else [240 + n div 262144, 128 + n div 4096 mod 64, 128 + n div 64 mod 64, 128 + n mod 64])"

subsection \<open>Strings\<close>

definition starts :: "string \<Rightarrow> string \<Rightarrow> bool" where
  "starts w s \<longleftrightarrow> take (length w) s = w"

type_synonym 'a scanned = "json_failure + 'a \<times> string"

definition hex_digit_value :: "char \<Rightarrow> nat option" where
  "hex_digit_value c =
     (let n = of_char c
      in if 48 \<le> n \<and> n < 58 then Some (n - 48)
         else if 65 \<le> n \<and> n < 71 then Some (n - 55)
         else if 97 \<le> n \<and> n < 103 then Some (n - 87)
         else None)"

definition bad_unicode_escape :: json_failure where
  "bad_unicode_escape = JSONDecodeError (''Invalid '' @ [CHR 0x5C] @ ''uXXXX escape'')"

fun scan_hex4 :: "string \<Rightarrow> nat scanned" where
  "scan_hex4 (a # b # c # d # r) =
     (case (hex_digit_value a, hex_digit_value b, hex_digit_value c, hex_digit_value d) of
        (Some w, Some x, Some y, Some z) \<Rightarrow> Inr (4096 * w + 256 * x + 16 * y + z, r)
      | _ \<Rightarrow> Inl bad_unicode_escape)"
| "scan_hex4 _ = Inl bad_unicode_escape"

text \<open>After \<open>\u\<close>: a high surrogate takes a following escaped low surrogate with it.\<close>

definition scan_unicode :: "string \<Rightarrow> string scanned" where
  "scan_unicode s =
     rbind (scan_hex4 s) (\<lambda>(n, r).
     if 0xD800 \<le> n \<and> n \<le> 0xDBFF \<and> starts [CHR 0x5C, CHR ''u''] r
     then rbind (scan_hex4 (drop 2 r)) (\<lambda>(m, r').
       if 0xDC00 \<le> m \<and> m \<le> 0xDFFF
       then Inr (code_point (0x10000 + 1024 * (n - 0xD800) + (m - 0xDC00)), r')
       else Inr (code_point n, r))
     else Inr (code_point n, r))"

definition backslash :: "char \<Rightarrow> char option" where
  "backslash c = map_of
     [(CHR 0x22, CHR 0x22), (CHR 0x5C, CHR 0x5C), (CHR ''/'', CHR ''/''), (CHR ''b'', CHR 0x08), (CHR ''f'', CHR 0x0C),
      (CHR ''n'', CHR 0x0A), (CHR ''r'', CHR 0x0D), (CHR ''t'', CHR 0x09)] c"

text \<open>One character or escape of a string body.\<close>

definition scan_char :: "string \<Rightarrow> string scanned" where
  "scan_char s =
     (case s of
        c # r \<Rightarrow>
          if c = CHR 0x5C
          then (case r of
                  [] \<Rightarrow> Inl (JSONDecodeError ''Unterminated string starting at'')
                | e # r' \<Rightarrow>
                    if e = CHR ''u'' then scan_unicode r'
                    else (case backslash e of
                            Some x \<Rightarrow> Inr ([x], r')
                          | None \<Rightarrow> Inl (JSONDecodeError (''Invalid '' @ [CHR 0x5C] @ ''escape''))))
          else if (of_char c :: nat) < 32 then Inl (JSONDecodeError ''Invalid control character at'')
          else Inr ([c], r)
      | [] \<Rightarrow> Inl (JSONDecodeError ''Unterminated string starting at''))"

lemma scan_hex4_length: "scan_hex4 s = Inr (n, r) \<Longrightarrow> length r < length s"
  by (cases s rule: scan_hex4.cases) (auto split: option.splits)

lemma scan_unicode_length: "scan_unicode s = Inr (x, r) \<Longrightarrow> length r < length s"
  unfolding scan_unicode_def
  by (auto simp: result_simps split: if_splits dest!: scan_hex4_length)

lemma scan_char_length: "scan_char s = Inr (x, r) \<Longrightarrow> length r < length s"
  by (auto simp: scan_char_def split: list.splits if_splits option.splits dest: scan_unicode_length)

text \<open>The body of a string, from behind its opening quote.\<close>

function scanstring :: "string \<Rightarrow> string scanned" where
  "scanstring s =
     (if starts [CHR 0x22] s then Inr ([], tl s)
      else case scan_char s of
          Inl f \<Rightarrow> Inl f
        | Inr (x, r) \<Rightarrow> (case scanstring r of Inl f \<Rightarrow> Inl f | Inr (y, r') \<Rightarrow> Inr (x @ y, r')))"
  by pat_completeness auto
termination
  by (relation "measure length") (auto dest: scan_char_length)

declare scanstring.simps [simp del]

subsection \<open>Numbers\<close>

definition digits :: "string \<Rightarrow> string \<times> string" where
  "digits s = (takeWhile is_digit s, dropWhile is_digit s)"

text \<open>\<open>-?(0|[1-9][0-9]*)\<close>, the sign and the digits.\<close>

definition scan_integer_part :: "string \<Rightarrow> (bool \<times> string \<times> string) option" where
  "scan_integer_part s =
     (let neg = starts ''-'' s; r = (if neg then tl s else s)
      in if starts ''0'' r then Some (neg, ''0'', tl r)
         else case digits r of (ds, r') \<Rightarrow> if ds = [] then None else Some (neg, ds, r'))"

text \<open>\<open>(\.[0-9]+)?\<close> and \<open>([eE][-+]?[0-9]+)?\<close>\<close>

definition scan_fraction :: "string \<Rightarrow> string option \<times> string" where
  "scan_fraction s =
     (case s of
        c # r \<Rightarrow>
          if c = CHR ''.'' \<and> fst (digits r) \<noteq> [] then (Some (fst (digits r)), snd (digits r)) else (None, s)
      | [] \<Rightarrow> (None, s))"

definition scan_exponent :: "string \<Rightarrow> int option \<times> string" where
  "scan_exponent s =
     (case s of
        c # r \<Rightarrow>
          if c = CHR ''e'' \<or> c = CHR ''E''
          then let neg = starts ''-'' r; r1 = (if neg \<or> starts ''+'' r then tl r else r)
               in case digits r1 of (ds, r2) \<Rightarrow>
                  if ds = [] then (None, s)
                  else (Some (if neg then - int (nat_value ds) else int (nat_value ds)), r2)
          else (None, s)
      | [] \<Rightarrow> (None, s))"

text \<open>The limit of \<open>int\<close> on the number of digits it converts, and the number a literal stands for.\<close>

definition int_max_str_digits :: nat where
  "int_max_str_digits = 4300"

definition number_value :: "bool \<Rightarrow> string \<Rightarrow> string option \<Rightarrow> int option \<Rightarrow> json_failure + json" where
  "number_value neg ds fr ex =
     (if fr = None \<and> ex = None
      then if int_max_str_digits < length ds
           then Inl (IntegerDigits ''Exceeds the limit (4300 digits) for integer string conversion'')
           else Inr (JInt (if neg then - int (nat_value ds) else int (nat_value ds)))
      else
        let fs = (case fr of None \<Rightarrow> [] | Some fs \<Rightarrow> fs); e = (case ex of None \<Rightarrow> 0 | Some e \<Rightarrow> e);
            x = of_nat (nat_value (ds @ fs)) * 10 powi (e - int (length fs))
        in Inr (JFloat (float_of_rat (if neg then - x else x))))"

definition scan_number :: "string \<Rightarrow> json scanned" where
  "scan_number s =
     (case scan_integer_part s of
        None \<Rightarrow> Inl (JSONDecodeError ''Expecting value'')
      | Some (neg, ds, r) \<Rightarrow>
          (case scan_fraction r of (fr, r1) \<Rightarrow>
           case scan_exponent r1 of (ex, r2) \<Rightarrow>
             rbind (number_value neg ds fr ex) (\<lambda>v. Inr (v, r2))))"

subsection \<open>Values\<close>

definition skip_ws :: "string \<Rightarrow> string" where
  "skip_ws s = dropWhile (\<lambda>c. c \<in> set [CHR 0x20, CHR 0x09, CHR 0x0A, CHR 0x0D]) s"

text \<open>
  The elements of an array behind \<open>[\<close> and the members of an object behind \<open>{\<close>, for a scanner \<open>p\<close> of values;
  the test on the length holds for every scanner that consumes input.
\<close>

definition expecting :: "char \<Rightarrow> json_failure" where
  "expecting c = JSONDecodeError (''Expecting '' @ [CHR 0x27, c, CHR 0x27] @ '' delimiter'')"

lemma skip_ws_length: "length (skip_ws s) \<le> length s"
  by (simp add: skip_ws_def length_dropWhile_le)

function array_items :: "(string \<Rightarrow> json scanned) \<Rightarrow> string \<Rightarrow> json list scanned" where
  "array_items p s =
     rbind (p s) (\<lambda>(v, r).
     case skip_ws r of
       [] \<Rightarrow> Inl (expecting CHR '','')
     | c # r' \<Rightarrow>
         if c = CHR '']'' then Inr ([v], r')
         else if c = CHR '','' \<and> length r' < length s
         then rbind (array_items p (skip_ws r')) (\<lambda>(vs, r''). Inr (v # vs, r''))
         else Inl (expecting CHR '',''))"
  by pat_completeness auto
termination
  by (relation "measure (\<lambda>(p, s). length s)") (auto intro: le_less_trans [OF skip_ws_length])

function object_items :: "(string \<Rightarrow> json scanned) \<Rightarrow> string \<Rightarrow> (string \<times> json) list scanned" where
  "object_items p s =
     (if \<not> starts [CHR 0x22] s then Inl (JSONDecodeError ''Expecting property name enclosed in double quotes'')
      else
        rbind (scanstring (tl s)) (\<lambda>(k, r).
        if \<not> starts '':'' (skip_ws r) then Inl (expecting CHR '':'')
        else
          rbind (p (skip_ws (tl (skip_ws r)))) (\<lambda>(v, r1).
          case skip_ws r1 of
            [] \<Rightarrow> Inl (expecting CHR '','')
          | c # r' \<Rightarrow>
              if c = CHR ''}'' then Inr ([(k, v)], r')
              else if c = CHR '','' \<and> length r' < length s
              then rbind (object_items p (skip_ws r')) (\<lambda>(kvs, r''). Inr ((k, v) # kvs, r''))
              else Inl (expecting CHR '',''))))"
  by pat_completeness auto
termination
  by (relation "measure (\<lambda>(p, s). length s)") (auto intro: le_less_trans [OF skip_ws_length])

declare array_items.simps [simp del] object_items.simps [simp del]

text \<open>The entries of the dictionary that is filled with the members one after the other.\<close>

definition dict_of_pairs :: "(string \<times> json) list \<Rightarrow> (string \<times> json) list" where
  "dict_of_pairs kvs = fold (\<lambda>(k, v) d. AList.update k v d) kvs []"

text \<open>\<open>scan_once\<close> at a given remaining depth; \<open>inner\<close> scans the values inside.\<close>

definition scan_value ::
  "(string \<Rightarrow> json_failure + json) \<Rightarrow> (string \<Rightarrow> json scanned) option \<Rightarrow> string \<Rightarrow> json scanned" where
  "scan_value parse_constant inner s =
     (let too_deep = Inl (RecursionError ''maximum recursion depth exceeded'');
          constant = (\<lambda>w. rbind (parse_constant w) (\<lambda>v. Inr (v, drop (length w) s)))
      in case s of
           [] \<Rightarrow> Inl (JSONDecodeError ''Expecting value'')
         | c # r \<Rightarrow>
             if c = CHR 0x22 then rbind (scanstring r) (\<lambda>(x, r'). Inr (JStr x, r'))
             else if c = CHR ''{''
             then (case inner of
                     None \<Rightarrow> too_deep
                   | Some p \<Rightarrow>
                       if starts ''}'' (skip_ws r) then Inr (JDict [], tl (skip_ws r))
                       else rbind (object_items p (skip_ws r)) (\<lambda>(kvs, r'). Inr (JDict (dict_of_pairs kvs), r')))
             else if c = CHR ''[''
             then (case inner of
                     None \<Rightarrow> too_deep
                   | Some p \<Rightarrow>
                       if starts '']'' (skip_ws r) then Inr (JList [], tl (skip_ws r))
                       else rbind (array_items p (skip_ws r)) (\<lambda>(vs, r'). Inr (JList vs, r')))
             else if starts ''null'' s then Inr (JNull, drop 4 s)
             else if starts ''true'' s then Inr (JBool True, drop 4 s)
             else if starts ''false'' s then Inr (JBool False, drop 5 s)
             else if starts ''NaN'' s then constant ''NaN''
             else if starts ''Infinity'' s then constant ''Infinity''
             else if starts ''-Infinity'' s then constant ''-Infinity''
             else scan_number s)"

primrec scan_once :: "(string \<Rightarrow> json_failure + json) \<Rightarrow> nat \<Rightarrow> string \<Rightarrow> json scanned" where
  "scan_once parse_constant 0 = scan_value parse_constant None"
| "scan_once parse_constant (Suc depth) = scan_value parse_constant (Some (scan_once parse_constant depth))"

definition json_loads_text :: "(string \<Rightarrow> json_failure + json) \<Rightarrow> nat \<Rightarrow> string \<Rightarrow> json_failure + json" where
  "json_loads_text parse_constant depth s =
     (if starts [CHR 0xEF, CHR 0xBB, CHR 0xBF] s
      then Inl (JSONDecodeError ''Unexpected UTF-8 BOM (decode using utf-8-sig)'')
      else
        rbind (scan_once parse_constant depth (skip_ws s)) (\<lambda>(v, r).
        if skip_ws r = [] then Inr v else Inl (JSONDecodeError ''Extra data'')))"

definition utf8_decode :: "bytes \<Rightarrow> json_failure + string" where
  "utf8_decode b =
     (if utf8_valid (map unat b) then Inr (map (\<lambda>x. char_of (unat x)) b)
      else Inl (UnicodeDecodeError ''invalid utf-8''))"

definition json_loads :: "(string \<Rightarrow> json_failure + json) \<Rightarrow> nat \<Rightarrow> bytes \<Rightarrow> json_failure + json" where
  "json_loads parse_constant depth payload = rbind (utf8_decode payload) (json_loads_text parse_constant depth)"

text \<open>The two uses of the program: \<open>_reject_json_constant\<close>, and the default of \<open>json.loads\<close>.\<close>

definition reject_constant :: "string \<Rightarrow> json_failure + json" where
  "reject_constant w = Inl (JSONConstant w)"

definition default_constant :: "string \<Rightarrow> json_failure + json" where
  "default_constant w =
     Inr (JFloat (if w = ''NaN'' then NaN else Infinite (w = ''-Infinity'')))"

end
