(* ===== verification/Json_Parse_Props.thy ===== *)
theory Json_Parse_Props
  imports Json_Parse
begin

text \<open>
  The scanner of \<open>json.loads\<close> inverts the printer of \<open>json.dumps\<close>: a value whose strings are UTF-8, whose
  dictionaries have no repeated keys and whose numbers are within the limits of the interpreter is
  read back from its text as it was written. Also: every scan consumes input.
\<close>

section \<open>Definitions\<close>

definition delimited :: "string \<Rightarrow> bool" where
  "delimited s \<longleftrightarrow> s = [] \<or> hd s \<in> set [CHR '','', CHR '']'', CHR ''}'']"

definition solid :: "string \<Rightarrow> bool" where
  "solid t \<longleftrightarrow> t \<noteq> [] \<and> hd t \<notin> set [CHR 0x20, CHR 0x09, CHR 0x0A, CHR 0x0D, CHR '']'', CHR ''}'']"

text \<open>\<open>p\<close> reads the text \<open>t\<close> as \<open>v\<close> and stops behind it.\<close>

definition reads :: "(string \<Rightarrow> json scanned) \<Rightarrow> string \<Rightarrow> json \<Rightarrow> bool" where
  "reads p t v \<longleftrightarrow> solid t \<and> (\<forall>u. delimited u \<longrightarrow> p (t @ u) = Inr (v, u))"

definition member_text :: "string \<times> string \<Rightarrow> string" where
  "member_text kt = quote_string (fst kt) @ '':'' @ snd kt"

fun json_depth :: "json \<Rightarrow> nat" where
  "json_depth (JList xs) = Suc (foldr max (map json_depth xs) 0)"
| "json_depth (JDict d) = Suc (foldr max (map (\<lambda>(k, v). json_depth v) d) 0)"
| "json_depth _ = 0"

text \<open>
  Values whose text is read back: integers within the digit limit, floats whose text is read as
  that float, UTF-8 strings and dictionaries without repeated keys.
\<close>

fun json_plain :: "(rat \<Rightarrow> string) \<Rightarrow> json \<Rightarrow> bool" where
  "json_plain frepr (JInt n) = (length (show_nat (nat \<bar>n\<bar>)) \<le> int_max_str_digits)"
| "json_plain frepr (JFloat (Fin x)) = (scan_number (frepr x) = Inr (JFloat (Fin x), []) \<and> list_all (\<lambda>c. (of_char c :: nat) < 128) (frepr x))"
| "json_plain frepr (JFloat _) = False"
| "json_plain frepr (JStr s) = utf8_text s"
| "json_plain frepr (JList xs) = list_all (json_plain frepr) xs"
| "json_plain frepr (JDict d) =
     (distinct (map fst d) \<and> list_all (\<lambda>(k, v). utf8_text k \<and> json_plain frepr v) d)"
| "json_plain frepr _ = True"

definition consumes :: "(string \<Rightarrow> 'a scanned) \<Rightarrow> bool" where
  "consumes p \<longleftrightarrow> (\<forall>s x r. p s = Inr (x, r) \<longrightarrow> length r < length s)"

section \<open>Lemmas\<close>

lemma starts_char [simp]: "starts [c] [] = False" "starts [c] (x # s) \<longleftrightarrow> x = c"
  by (auto simp: starts_def)

lemma hex_digit_value_digit: "n < 16 \<Longrightarrow> hex_digit_value (hex_digit n) = Some n"
  by (simp add: hex_digit_value_def hex_digit_def Let_def)

lemma scan_char_escape: "scan_char (escape_char c @ u) = Inr ([c], u)"
proof (cases "c \<in> set [CHR 0x22, CHR 0x5C, CHR 0x0A, CHR 0x0D, CHR 0x09, CHR 0x0C, CHR 0x08]")
  case True
  then show ?thesis by (auto simp: scan_char_def backslash_def escape_char_def)
next
  case special: False
  show ?thesis
  proof (cases "of_char c < (32 :: nat)")
    case True
    have z: "hex_digit_value CHR ''0'' = Some 0" by (simp add: hex_digit_value_def)
    have "scan_hex4 (CHR ''0'' # CHR ''0'' # hex_digit (of_char c div 16) # hex_digit (of_char c mod 16) # u) =
        Inr (of_char c, u)"
      using True hex_digit_value_digit [of "of_char c div 16"] hex_digit_value_digit [of "of_char c mod 16"]
      by (simp add: z)
    with True special show ?thesis by (simp add: scan_char_def escape_char_def scan_unicode_def code_point_def)
  next
    case False
    with special show ?thesis by (simp add: scan_char_def escape_char_def)
  qed
qed

lemma scanstring_quoted: "scanstring (concat (map escape_char s) @ CHR 0x22 # u) = Inr (s, u)"
proof (induction s)
  case Nil
  then show ?case by (simp add: scanstring.simps)
next
  case (Cons c s)
  obtain x xs where "escape_char c = x # xs" "x \<noteq> CHR 0x22" using escape_char_head by blast
  then show ?case using Cons scan_char_escape [of c "concat (map escape_char s) @ CHR 0x22 # u"]
    by (subst scanstring.simps) simp
qed

lemma delimited_Cons: "delimited (c # u) \<longleftrightarrow> c = CHR '','' \<or> c = CHR '']'' \<or> c = CHR ''}''"
  by (auto simp: delimited_def)

lemma delimited_not_digit: "delimited (c # u) \<Longrightarrow> \<not> is_digit c"
  by (auto simp: delimited_def is_digit_def)

lemma digits_append: "delimited u \<Longrightarrow> digits (s @ u) = (fst (digits s), snd (digits s) @ u)"
proof (induction s)
  case Nil
  then show ?case by (cases u) (auto simp: digits_def dest: delimited_not_digit)
qed (auto simp: digits_def)

lemma scan_fraction_append:
  assumes "delimited u" "scan_fraction s = (x, r)"
  shows "scan_fraction (s @ u) = (x, r @ u)"
proof (cases s)
  case Nil
  with assms show ?thesis by (cases u) (auto simp: scan_fraction_def delimited_Cons)
next
  case (Cons c t)
  with assms show ?thesis by (auto simp: scan_fraction_def digits_append split: if_splits)
qed

lemma starts_append: "delimited u \<Longrightarrow> c \<in> set ''+-0'' \<Longrightarrow> starts [c] (s @ u) \<longleftrightarrow> starts [c] s"
  by (cases s; cases u) (auto simp: delimited_Cons)

lemma tl_starts: "starts [c] s \<Longrightarrow> tl (s @ u) = tl s @ u"
  by (cases s) auto

lemma scan_exponent_append:
  assumes "delimited u" "scan_exponent s = (x, r)"
  shows "scan_exponent (s @ u) = (x, r @ u)"
proof (cases s)
  case Nil
  with assms show ?thesis by (cases u) (auto simp: scan_exponent_def delimited_Cons)
next
  case (Cons c t)
  with assms show ?thesis
    by (auto simp: scan_exponent_def digits_append starts_append tl_starts Let_def split: if_splits prod.splits)
qed

lemma scan_integer_part_append:
  assumes "delimited u" "scan_integer_part s = Some (neg, ds, r)"
  shows "scan_integer_part (s @ u) = Some (neg, ds, r @ u)"
  using assms
  by (auto simp: scan_integer_part_def digits_append starts_append tl_starts Let_def split: if_splits prod.splits)

lemma scan_number_append:
  assumes "delimited u" "scan_number s = Inr (v, r)"
  shows "scan_number (s @ u) = Inr (v, r @ u)"
proof -
  from assms(2) obtain neg ds r0 where i: "scan_integer_part s = Some (neg, ds, r0)"
    by (auto simp: scan_number_def split: option.splits)
  obtain x r1 y r2 where f: "scan_fraction r0 = (x, r1)" "scan_exponent r1 = (y, r2)" by force
  show ?thesis
    using assms i f scan_integer_part_append [OF assms(1) i] scan_fraction_append [OF assms(1) f(1)]
      scan_exponent_append [OF assms(1) f(2)]
    by (auto simp: scan_number_def rbind_Inr)
qed

lemma skip_ws_solid: "solid t \<Longrightarrow> skip_ws (t @ u) = t @ u"
  by (cases t) (auto simp: solid_def skip_ws_def)

lemma skip_ws_delimited: "delimited u \<Longrightarrow> skip_ws u = u"
  by (cases u) (auto simp: delimited_Cons skip_ws_def)

lemma skip_ws_Cons [simp]:
  "skip_ws (CHR 0x22 # u) = CHR 0x22 # u" "skip_ws (CHR '':'' # u) = CHR '':'' # u" "skip_ws [] = []"
  by (simp_all add: skip_ws_def)

lemma array_items_join:
  assumes "list_all2 (reads p) ts vs" and "ts \<noteq> []"
  shows "array_items p (join '','' ts @ CHR '']'' # u) = Inr (vs, u)"
  using assms
proof (induction ts vs rule: list_all2_induct)
  case (Cons t ts v vs)
  have t: "solid t" and p: "delimited w \<Longrightarrow> p (t @ w) = Inr (v, w)" for w
    using Cons.hyps(1) by (auto simp: reads_def)
  show ?case
  proof (cases ts)
    case Nil
    with Cons.hyps(2) p [of "CHR '']'' # u"] show ?thesis
      by (subst array_items.simps) (simp add: delimited_Cons skip_ws_delimited)
  next
    case Nil': (Cons t' ts')
    have "solid (join '','' ts)" using Cons.hyps(2) Nil' by (cases ts') (auto simp: reads_def solid_def list_all2_Cons1)
    with Cons.IH p [of "CHR '','' # join '','' ts @ CHR '']'' # u"] Nil' t show ?thesis
      by (subst array_items.simps) (simp add: delimited_Cons skip_ws_delimited skip_ws_solid [of "join '','' (t' # ts')"] solid_def)
  qed
qed simp

lemma object_items_join:
  assumes "list_all2 (\<lambda>(k, t) (k', v). k' = k \<and> reads p t v) kts kvs" and "kts \<noteq> []"
  shows "object_items p (join '','' (map member_text kts) @ CHR ''}'' # u) = Inr (kvs, u)"
  using assms
proof (induction kts kvs rule: list_all2_induct)
  case (Cons kt kts kv kvs)
  obtain k t v where kt: "kt = (k, t)" "kv = (k, v)" and r: "reads p t v" using Cons.hyps(1) by (cases kt; cases kv) auto
  then have t: "solid t" and p: "delimited w \<Longrightarrow> p (t @ w) = Inr (v, w)" for w
    by (auto simp: reads_def)
  let ?q = "concat (map escape_char k)"
  show ?case
  proof (cases kts)
    case Nil
    with Cons.hyps(2) p [of "CHR ''}'' # u"] show ?thesis
      by (subst object_items.simps)
        (simp add: kt member_text_def quote_string_def scanstring_quoted delimited_Cons skip_ws_delimited skip_ws_solid [OF t])
  next
    case Nil': (Cons kt' kts')
    let ?rest = "join '','' (map member_text kts) @ CHR ''}'' # u"
    have q: "skip_ws ?rest = ?rest"
      using Nil' by (cases kts') (simp_all add: member_text_def quote_string_def)
    have "join '','' (map member_text (kt # kts)) @ CHR ''}'' # u = CHR 0x22 # ?q @ CHR 0x22 # CHR '':'' # t @ CHR '','' # ?rest"
      using Nil' by (simp add: kt member_text_def quote_string_def)
    moreover have IH: "object_items p ?rest = Inr (kvs, u)" using Cons.IH Nil' by simp
    moreover have "object_items p (CHR 0x22 # ?q @ CHR 0x22 # CHR '':'' # t @ CHR '','' # ?rest) = Inr (kv # kvs, u)"
      using IH p [of "CHR '','' # ?rest"] t
      by (subst object_items.simps)
        (simp add: kt scanstring_quoted delimited_Cons skip_ws_delimited skip_ws_solid [OF t] q)
    ultimately show ?thesis by simp
  qed
qed simp

lemma scan_value_number:
  assumes "scan_number s = Inr (v, r)"
  shows "solid s \<and> scan_value parse_constant inner s = Inr (v, r)"
proof -
  from assms obtain neg ds r0 where i: "scan_integer_part s = Some (neg, ds, r0)"
    by (auto simp: scan_number_def split: option.splits)
  then obtain c t where s: "s = c # t" and c: "is_digit c \<or> c = CHR ''-'' \<and> t \<noteq> [] \<and> is_digit (hd t)"
    by (cases s; cases "tl s")
      (auto simp: scan_integer_part_def digits_def Let_def is_digit_def [of "CHR ''0''"] split: if_splits)
  have ne: "c \<notin> set [CHR 0x22, CHR ''{'', CHR ''['', CHR ''n'', CHR ''t'', CHR ''f'', CHR ''N'', CHR ''I'',
      CHR 0x20, CHR 0x09, CHR 0x0A, CHR 0x0D, CHR '']'', CHR ''}'']"
    using c by (auto simp: is_digit_def)
  moreover have "\<not> starts ''-Infinity'' s"
    using c s by (cases t) (auto simp: starts_def is_digit_def)
  ultimately show ?thesis using assms s by (auto simp: scan_value_def solid_def starts_def Let_def)
qed

lemma char_of_zero_digit: "n < 10 \<Longrightarrow> char_of (48 + n :: nat) = CHR ''0'' \<longleftrightarrow> n = 0"
proof -
  assume n: "n < 10"
  have "char_of (48 + n) = CHR ''0'' \<longleftrightarrow> of_char (char_of (48 + n) :: char) = (of_char CHR ''0'' :: nat)"
    by (simp only: of_char_eq_iff)
  also have "\<dots> \<longleftrightarrow> n = 0" using n by simp
  finally show ?thesis .
qed

lemma show_nat_zero: "starts ''0'' (show_nat n @ u) \<longleftrightarrow> n = 0"
proof (induction n arbitrary: u rule: show_nat.induct)
  case (1 n)
  show ?case
  proof (cases "n < 10")
    case True
    then show ?thesis
      using char_of_zero_digit [of n] by (subst show_nat.simps) (simp add: Let_def)
  next
    case False
    with 1 show ?thesis by (subst show_nat.simps) (simp add: Let_def)
  qed
qed

lemma digits_show_nat: "digits (show_nat n) = (show_nat n, [])"
  using show_nat_digits [of n] by (simp add: digits_def list_all_iff)

lemma scan_number_int:
  assumes "length (show_nat (nat \<bar>n\<bar>)) \<le> int_max_str_digits"
  shows "scan_number (show_int n) = Inr (JInt n, [])"
proof -
  have z: "show_nat 0 = ''0''" using char_of_zero_digit [of 0] by (simp add: show_nat.simps)
  have "scan_integer_part (show_int n) = Some (n < 0, show_nat (nat \<bar>n\<bar>), [])"
    using show_nat_zero [of "nat \<bar>n\<bar>" "[]"] show_nat_head [of "nat \<bar>n\<bar>"] digits_show_nat
    by (cases "show_nat (nat \<bar>n\<bar>)") (auto simp: scan_integer_part_def show_int_def Let_def z show_nat_head)
  with assms show ?thesis
    by (simp add: scan_number_def scan_fraction_def scan_exponent_def number_value_def show_nat_value)
qed

lemma foldr_max_le: "foldr max xs 0 \<le> (n :: nat) \<longleftrightarrow> list_all (\<lambda>x. x \<le> n) xs"
  by (induction xs) auto

lemma update_fresh: "k \<notin> fst ` set d \<Longrightarrow> AList.update k v d = d @ [(k, v)]"
  by (induction d) auto

lemma fold_update_distinct:
  "distinct (map fst (d @ d')) \<Longrightarrow> fold (\<lambda>(k, v) d. AList.update k v d) d' d = d @ d'"
proof (induction d' arbitrary: d)
  case (Cons kv d')
  with Cons.IH [of "d @ [kv]"] show ?case by (cases kv) (simp add: update_fresh)
qed simp

lemma dict_of_distinct: "distinct (map fst d) \<Longrightarrow> dict_of_pairs d = d"
  using fold_update_distinct [of "[]" d] by (simp add: dict_of_pairs_def)

lemma scan_once_value: obtains inner where "scan_once pc depth = scan_value pc inner"
  by (cases depth) auto

lemma reads_number:
  assumes "scan_number t = Inr (v, [])"
  shows "reads (scan_once pc depth) t v"
proof -
  obtain inner where "scan_once pc depth = scan_value pc inner" by (rule scan_once_value)
  then show ?thesis
    using scan_value_number [of "t @ _" v] scan_value_number [OF assms] scan_number_append [OF _ assms]
    by (auto simp: reads_def)
qed

lemma reads_words:
  "reads (scan_once pc depth) ''null'' JNull" "reads (scan_once pc depth) ''true'' (JBool True)"
  "reads (scan_once pc depth) ''false'' (JBool False)"
proof -
  obtain inner where i: "scan_once pc depth = scan_value pc inner" by (rule scan_once_value)
  show "reads (scan_once pc depth) ''null'' JNull" "reads (scan_once pc depth) ''true'' (JBool True)"
    "reads (scan_once pc depth) ''false'' (JBool False)"
    by (simp_all add: i reads_def solid_def scan_value_def starts_def Let_def)
qed

lemma reads_string: "reads (scan_once pc depth) (quote_string s) (JStr s)"
proof -
  obtain inner where "scan_once pc depth = scan_value pc inner" by (rule scan_once_value)
  then show ?thesis by (simp add: reads_def solid_def scan_value_def quote_string_def scanstring_quoted Let_def)
qed

lemma solid_join: "list_all solid ts \<Longrightarrow> ts \<noteq> [] \<Longrightarrow> solid (join '','' ts)"
  by (cases ts; cases "tl ts") (auto simp: solid_def)

lemma reads_list:
  assumes "list_all2 (reads (scan_once pc depth)) ts vs"
  shows "reads (scan_once pc (Suc depth)) (''['' @ join '','' ts @ '']'') (JList vs)"
proof (cases "ts = []")
  case True
  with assms show ?thesis by (simp add: reads_def solid_def scan_value_def Let_def skip_ws_def)
next
  case False
  have "list_all solid ts" using assms by (auto simp: list_all2_conv_all_nth list_all_length reads_def)
  with False have sol: "solid (join '','' ts)" by (simp add: solid_join)
  then have "\<not> starts '']'' (join '','' ts @ w)" for w by (cases "join '','' ts") (auto simp: solid_def)
  with array_items_join [OF assms False] skip_ws_solid [OF sol] show ?thesis
    by (simp add: reads_def solid_def scan_value_def Let_def)
qed

lemma reads_dict:
  assumes "list_all2 (\<lambda>(k, t) (k', v). k' = k \<and> reads (scan_once pc depth) t v) kts d" and "distinct (map fst d)"
  shows "reads (scan_once pc (Suc depth)) (''{'' @ join '','' (map member_text kts) @ ''}'') (JDict d)"
proof (cases "kts = []")
  case True
  with assms show ?thesis by (simp add: reads_def solid_def scan_value_def Let_def skip_ws_def)
next
  case False
  have sol: "solid (join '','' (map member_text kts))"
    using False by (intro solid_join) (auto simp: solid_def member_text_def quote_string_def list_all_iff)
  then have "\<not> starts ''}'' (join '','' (map member_text kts) @ w)" for w
    by (cases "join '','' (map member_text kts)") (auto simp: solid_def)
  with object_items_join [OF assms(1) False] skip_ws_solid [OF sol] show ?thesis
    by (simp add: reads_def solid_def scan_value_def Let_def dict_of_distinct [OF assms(2)])
qed

lemma scan_json_text:
  assumes "json_plain frepr v" "json_depth v \<le> depth"
  shows "reads (scan_once pc depth) (json_text frepr v) v"
  using assms
proof (induction frepr v arbitrary: depth rule: json_text.induct)
  case (1 frepr)
  then show ?case by (simp add: reads_words)
next
  case (2 frepr b)
  then show ?case by (simp add: reads_words)
next
  case (3 frepr n)
  then show ?case by (simp add: reads_number scan_number_int)
next
  case (4 frepr x)
  then show ?case by (simp add: reads_number)
next
  case (7 frepr s)
  then show ?case by (simp add: reads_string)
next
  case (8 frepr xs)
  then obtain n where n: "depth = Suc n" by (cases depth) auto
  with 8 have "list_all2 (reads (scan_once pc n)) (map (json_text frepr) xs) xs"
    by (auto simp: list_all2_map1 list_all_iff foldr_max_le intro!: list.rel_refl_strong)
  with reads_list n show ?case by simp
next
  case (9 frepr d)
  then obtain n where n: "depth = Suc n" by (cases depth) auto
  let ?kts = "map (\<lambda>(k, v). (k, json_text frepr v)) d"
  have "list_all2 (\<lambda>(k, t) (k', v). k' = k \<and> reads (scan_once pc n) t v) ?kts d"
    using 9 n by (fastforce simp: list_all2_map1 list_all_iff foldr_max_le intro!: list.rel_refl_strong)
  moreover have "distinct (map fst d)" using "9.prems"(1) by simp
  ultimately have "reads (scan_once pc depth) (''{'' @ join '','' (map member_text ?kts) @ ''}'') (JDict d)"
    unfolding n by (rule reads_dict)
  moreover have "map (\<lambda>(k, v). quote_string k @ '':'' @ json_text frepr v) d = map member_text ?kts"
    by (auto simp: member_text_def)
  ultimately show ?case by (simp only: json_text.simps)
qed simp_all

lemma utf8_valid_append: "utf8_valid xs \<Longrightarrow> utf8_valid ys \<Longrightarrow> utf8_valid (xs @ ys)"
proof (induction xs rule: utf8_valid.induct)
  case (2 a bs)
  show ?case
  proof (cases "a < 128")
    case True
    with 2 show ?thesis by simp
  next
    case False
    then obtain b r where b: "bs = b # r" using 2 by (cases bs) auto
    show ?thesis
    proof (cases "194 \<le> a \<and> a < 224")
      case True
      with 2 b False show ?thesis by simp
    next
      case f2: False
      then obtain c r' where c: "r = c # r'" using 2 b False by (cases r) auto
      show ?thesis
      proof (cases "224 \<le> a \<and> a < 240")
        case True
        with 2 b c False f2 show ?thesis by simp
      next
        case f3: False
        then obtain d r'' where "r' = d # r''" using 2 b c False f2 by (cases r') auto
        with 2 b c False f2 f3 show ?thesis by auto
      qed
    qed
  qed
qed simp

lemma utf8_text_append: "utf8_text s \<Longrightarrow> utf8_text t \<Longrightarrow> utf8_text (s @ t)"
  by (simp add: utf8_text_def utf8_valid_append)

lemma utf8_text_ascii: "list_all (\<lambda>c. (of_char c :: nat) < 128) s \<Longrightarrow> utf8_text s"
  by (induction s) (auto simp: utf8_text_def)

lemma utf8_text_join: "list_all utf8_text ts \<Longrightarrow> utf8_text (join '','' ts)"
proof (induction "'',''" ts rule: join.induct)
  case (3 x y ys)
  have "utf8_text '',''" by (simp add: utf8_text_ascii)
  with 3 show ?case by (simp add: utf8_text_append del: append_Cons)
qed (simp_all add: utf8_text_def)

text \<open>A text is a sequence of ASCII characters and of groups of bytes above them.\<close>

lemma utf8_text_split:
  assumes "utf8_text (c # s)"
  obtains "(of_char c :: nat) < 128" "utf8_text s"
  | u r where "s = u @ r" "utf8_text (c # u)" "utf8_text r" "\<And>x. x \<in> set (c # u) \<Longrightarrow> 128 \<le> (of_char x :: nat)"
proof (cases "(of_char c :: nat) < 128")
  case True
  with assms that(1) show ?thesis by (simp add: utf8_text_def)
next
  case a: False
  let ?a = "of_char c :: nat"
  from a assms obtain b r where b: "s = b # r" by (cases s) (auto simp: utf8_text_def)
  show ?thesis
  proof (cases "194 \<le> ?a \<and> ?a < 224")
    case True
    with assms a b show ?thesis by (intro that(2) [of "[b]" r]) (auto simp: utf8_text_def continuation_def)
  next
    case f2: False
    then obtain d r' where d: "r = d # r'" using assms a b by (cases r) (auto simp: utf8_text_def)
    show ?thesis
    proof (cases "224 \<le> ?a \<and> ?a < 240")
      case True
      with assms a b d f2 show ?thesis by (intro that(2) [of "[b, d]" r']) (auto simp: utf8_text_def continuation_def)
    next
      case f3: False
      then obtain e r'' where "r' = e # r''" using assms a b d f2 by (cases r') (auto simp: utf8_text_def)
      with assms a b d f2 f3 show ?thesis
        by (intro that(2) [of "[b, d, e]" r'']) (auto simp: utf8_text_def continuation_def)
    qed
  qed
qed

lemma escape_high: "128 \<le> (of_char c :: nat) \<Longrightarrow> escape_char c = [c]"
proof -
  assume c: "128 \<le> (of_char c :: nat)"
  then have "c \<notin> set [CHR 0x22, CHR 0x5C, CHR 0x0A, CHR 0x0D, CHR 0x09, CHR 0x0C, CHR 0x08]" by auto
  with c show ?thesis by (simp add: escape_char_def)
qed

lemma hex_digit_low: "n < 16 \<Longrightarrow> (of_char (hex_digit n) :: nat) < 128"
  by (cases "n < 10") (simp_all add: hex_digit_def)

lemma escape_low:
  assumes "(of_char c :: nat) < 128"
  shows "list_all (\<lambda>c. (of_char c :: nat) < 128) (escape_char c)"
proof (cases "c \<in> set [CHR 0x22, CHR 0x5C, CHR 0x0A, CHR 0x0D, CHR 0x09, CHR 0x0C, CHR 0x08]")
  case True
  then show ?thesis by (auto simp: escape_char_def)
next
  case False
  have "of_char c div 16 < (16 :: nat)" "of_char c mod 16 < (16 :: nat)" using assms by linarith+
  from this [THEN hex_digit_low] False assms show ?thesis by (simp add: escape_char_def)
qed

lemma utf8_text_escape: "utf8_text s \<Longrightarrow> utf8_text (concat (map escape_char s))"
proof (induction "length s" arbitrary: s rule: less_induct)
  case less
  show ?case
  proof (cases s)
    case (Cons c t)
    from less.prems [unfolded Cons] show ?thesis
    proof (cases rule: utf8_text_split)
      case 1
      with less.hyps Cons show ?thesis by (simp add: utf8_text_append utf8_text_ascii escape_low)
    next
      case (2 u r)
      have "concat (map escape_char (c # u)) = c # u"
        using 2(4) by (induction u arbitrary: c) (auto simp: escape_high)
      moreover have "utf8_text (concat (map escape_char r))" using less.hyps [of r] 2 Cons by simp
      ultimately show ?thesis using 2(2) utf8_text_append [of "c # u"] Cons 2(1) by (metis append_Cons concat_append map_append)
    qed
  qed (simp add: utf8_text_def)
qed


lemma utf8_text_quote: "utf8_text s \<Longrightarrow> utf8_text (quote_string s)"
  unfolding quote_string_def by (intro utf8_text_append utf8_text_escape) (simp_all add: utf8_text_ascii)

lemma show_int_ascii: "utf8_text (show_int n)"
proof -
  have "utf8_text (show_nat m)" for m
    using show_nat_digits [of m] by (intro utf8_text_ascii) (auto simp: list_all_iff is_digit_def)
  then show ?thesis by (simp add: show_int_def utf8_text_ascii utf8_text_append del: append_Cons)
qed

lemma utf8_json_text: "json_plain frepr v \<Longrightarrow> utf8_text (json_text frepr v)"
proof (induction frepr v rule: json_text.induct)
  case (4 frepr x)
  then show ?case by (simp add: utf8_text_ascii)
next
  case (8 frepr xs)
  then have "list_all utf8_text (map (json_text frepr) xs)" by (auto simp: list_all_iff)
  then show ?case unfolding json_text.simps
    by (intro utf8_text_append utf8_text_join) (simp_all add: utf8_text_ascii)
next
  case (9 frepr d)
  have "list_all utf8_text (map (\<lambda>(k, v). quote_string k @ '':'' @ json_text frepr v) d)"
    unfolding list_all_iff
  proof
    fix t assume "t \<in> set (map (\<lambda>(k, v). quote_string k @ '':'' @ json_text frepr v) d)"
    then obtain k v where kv: "(k, v) \<in> set d" and t: "t = quote_string k @ '':'' @ json_text frepr v" by auto
    with "9.prems" have "utf8_text k" "json_plain frepr v" by (auto simp: list_all_iff)
    with "9.IH" [OF kv refl] show "utf8_text t"
      unfolding t by (intro utf8_text_append utf8_text_quote) (simp_all add: utf8_text_ascii)
  qed
  then show ?case unfolding json_text.simps
    by (intro utf8_text_append utf8_text_join) (simp_all add: utf8_text_ascii)
qed (simp_all add: utf8_text_ascii utf8_text_quote show_int_ascii)

lemma utf8_decode_utf8: "utf8_text s \<Longrightarrow> utf8_decode (utf8 s) = Inr s"
proof -
  have "unat (of_nat (of_char c) :: byte) = of_char c" for c by (simp add: unat_of_nat)
  then show "utf8_text s \<Longrightarrow> utf8_decode (utf8 s) = Inr s"
    by (simp add: utf8_decode_def utf8_def utf8_text_def comp_def)
qed

lemma no_value_bom: "starts [CHR 0xEF, CHR 0xBB, CHR 0xBF] s \<Longrightarrow> scan_once pc depth s \<noteq> Inr x"
proof -
  assume "starts [CHR 0xEF, CHR 0xBB, CHR 0xBF] s"
  then obtain r where s: "s = CHR 0xEF # r" by (cases s) (auto simp: starts_def)
  obtain inner where i: "scan_once pc depth = scan_value pc inner" by (rule scan_once_value)
  have "scan_integer_part (CHR 0xEF # r) = None" by (simp add: scan_integer_part_def digits_def is_digit_def)
  then show ?thesis by (simp add: s i scan_value_def starts_def scan_number_def Let_def)
qed

lemma json_loads_dumps:
  assumes "json_plain frepr v" and "json_depth v \<le> depth"
  shows "json_loads parse_constant depth (utf8 (json_text frepr v)) = Inr v"
proof -
  have r: "solid (json_text frepr v)" "scan_once parse_constant depth (json_text frepr v) = Inr (v, [])"
    using scan_json_text [OF assms, of parse_constant]
    by (auto simp: reads_def delimited_def dest: spec [of _ "[]"])
  then have "\<not> starts [CHR 0xEF, CHR 0xBB, CHR 0xBF] (json_text frepr v)"
    using no_value_bom by force
  with r utf8_decode_utf8 [OF utf8_json_text [OF assms(1)]] skip_ws_solid [OF r(1), of "[]"] show ?thesis
    by (simp add: json_loads_def json_loads_text_def)
qed


text \<open>
  What the readers of JSON rely on: \<open>loads\<close> reads a value of the kind \<open>legible\<close> back from its text.
\<close>

locale json_reader =
  fixes frepr :: "rat \<Rightarrow> string"
    and loads :: loads_fun
    and legible :: "json \<Rightarrow> bool"
  assumes reads_back: "legible v \<Longrightarrow> loads (utf8 (json_text frepr v)) = Inr v"
begin

lemma payload_reads_back: "encode_json frepr v = Inr payload \<Longrightarrow> legible v \<Longrightarrow> loads payload = Inr v"
  by (auto simp: encode_json_def json_dumps_def result_simps reads_back split: if_splits)

end

definition json_legible :: "(rat \<Rightarrow> string) \<Rightarrow> nat \<Rightarrow> json \<Rightarrow> bool" where
  "json_legible frepr depth v \<longleftrightarrow> json_plain frepr v \<and> json_depth v \<le> depth"

interpretation pyjson: json_reader frepr "json_loads parse_constant depth" "json_legible frepr depth"
  for frepr parse_constant depth
  by unfold_locales (simp add: json_legible_def json_loads_dumps)

lemma scanstring_length: "scanstring s = Inr (x, r) \<Longrightarrow> length r < length s"
proof (induction s arbitrary: x rule: scanstring.induct)
  case (1 s)
  show ?case
  proof (cases "starts [CHR 0x22] s")
    case True
    with "1.prems" show ?thesis by (cases s) (auto simp: scanstring.simps [of "_ # _"])
  next
    case False
    with "1.prems" obtain y r1 z where "scan_char s = Inr (y, r1)" "scanstring r1 = Inr (z, r)"
      by (subst (asm) scanstring.simps) (auto split: sum.splits prod.splits)
    with "1.IH" [OF False _ refl] scan_char_length show ?thesis by (metis less_trans)
  qed
qed

lemma skip_ws_tail: "skip_ws r = c # r' \<Longrightarrow> length r' < length r"
  using skip_ws_length [of r] by simp

lemma array_items_cases:
  assumes "array_items p s = Inr (vs, r)"
  obtains v r1 where "p s = Inr (v, r1)" "skip_ws r1 = CHR '']'' # r"
  | v r1 r' vs' where "p s = Inr (v, r1)" "skip_ws r1 = CHR '','' # r'" "length r' < length s"
      "array_items p (skip_ws r') = Inr (vs', r)"
proof -
  from assms obtain v r1 where p: "p s = Inr (v, r1)"
    by (simp only: array_items.simps [of p s] rbind_Inr) auto
  with assms obtain c r' where c: "skip_ws r1 = c # r'"
    by (cases "skip_ws r1") (simp_all add: array_items.simps [of p s])
  show ?thesis
  proof (cases "c = CHR '']''")
    case True
    with assms p c show ?thesis by (intro that(1)) (simp_all add: array_items.simps [of p s])
  next
    case False
    with assms p c have "c = CHR '','' \<and> length r' < length s"
      by (simp add: array_items.simps [of p s] split: if_splits)
    moreover from this assms p c obtain vs' where "array_items p (skip_ws r') = Inr (vs', r)"
      by (auto simp: array_items.simps [of p s] rbind_Inr)
    ultimately show ?thesis using that(2) p c by blast
  qed
qed

lemma object_items_cases:
  assumes "object_items p s = Inr (kvs, r)"
  obtains k r0 v r1 where "scanstring (tl s) = Inr (k, r0)" "p (skip_ws (tl (skip_ws r0))) = Inr (v, r1)"
      "skip_ws r1 = CHR ''}'' # r"
  | k r0 v r1 r' kvs' where "scanstring (tl s) = Inr (k, r0)" "p (skip_ws (tl (skip_ws r0))) = Inr (v, r1)"
      "skip_ws r1 = CHR '','' # r'" "length r' < length s" "object_items p (skip_ws r') = Inr (kvs', r)"
proof -
  note simps = object_items.simps [of p s]
  from assms have q: "starts [CHR 0x22] s" by (simp add: simps split: if_splits)
  with assms obtain k r0 where k: "scanstring (tl s) = Inr (k, r0)"
    by (cases "scanstring (tl s)") (auto simp: simps)
  with q assms have colon: "starts '':'' (skip_ws r0)" by (simp add: simps split: if_splits)
  with q k assms obtain v r1 where p: "p (skip_ws (tl (skip_ws r0))) = Inr (v, r1)"
    by (cases "p (skip_ws (tl (skip_ws r0)))") (auto simp: simps)
  with q k colon assms obtain c r' where c: "skip_ws r1 = c # r'"
    by (cases "skip_ws r1") (simp_all add: simps)
  show ?thesis
  proof (cases "c = CHR ''}''")
    case True
    with assms q k colon p c show ?thesis by (intro that(1)) (simp_all add: simps)
  next
    case False
    with assms q k colon p c have "c = CHR '','' \<and> length r' < length s" by (simp add: simps split: if_splits)
    moreover from this assms q k colon p c obtain kvs' where "object_items p (skip_ws r') = Inr (kvs', r)"
      by (auto simp: simps rbind_Inr)
    ultimately show ?thesis using that(2) k p c by blast
  qed
qed

lemma array_items_length:
  assumes "consumes p" "array_items p s = Inr (vs, r)"
  shows "length r < length s"
  using assms(2)
proof (induction "length s" arbitrary: s vs rule: less_induct)
  case less
  from less.prems show ?case
  proof (cases rule: array_items_cases)
    case (1 v r1)
    with assms(1) skip_ws_tail show ?thesis by (force simp: consumes_def)
  next
    case (2 v r1 r' vs')
    with less.hyps [of "skip_ws r'" vs'] skip_ws_length [of r'] show ?thesis by linarith
  qed
qed

lemma object_items_length:
  assumes "consumes p" "object_items p s = Inr (kvs, r)"
  shows "length r < length s"
  using assms(2)
proof (induction "length s" arbitrary: s kvs rule: less_induct)
  case less
  from less.prems show ?case
  proof (cases rule: object_items_cases)
    case (1 k r0 v r1)
    then have "length r < length (skip_ws (tl (skip_ws r0)))" "length r0 < length (tl s)"
      using assms(1) skip_ws_tail scanstring_length by (force simp: consumes_def)+
    with skip_ws_length [of "tl (skip_ws r0)"] skip_ws_length [of r0] show ?thesis by simp
  next
    case (2 k r0 v r1 r' kvs')
    with less.hyps [of "skip_ws r'" kvs'] skip_ws_length [of r'] show ?thesis by linarith
  qed
qed

lemma dropWhile_digits_length: "length (snd (digits s)) + length (fst (digits s)) = length s"
  by (induction s) (auto simp: digits_def)

lemma scan_fraction_length: "scan_fraction s = (x, r) \<Longrightarrow> length r \<le> length s"
  using dropWhile_digits_length [of "tl s"] by (auto simp: scan_fraction_def split: list.splits if_splits)

lemma scan_exponent_length: "scan_exponent s = (x, r) \<Longrightarrow> length r \<le> length s"
  using dropWhile_digits_length [of "tl s"] dropWhile_digits_length [of "tl (tl s)"]
  by (auto simp: scan_exponent_def Let_def split: list.splits if_splits prod.splits)

lemma digits_length: "digits s = (ds, r) \<Longrightarrow> ds \<noteq> [] \<Longrightarrow> length r < length s"
  using dropWhile_digits_length [of s] by (cases ds) auto

lemma scan_integer_part_length: "scan_integer_part s = Some (neg, ds, r) \<Longrightarrow> length r < length s"
  by (cases s; cases "tl s")
    (auto simp: scan_integer_part_def Let_def split: if_splits prod.splits dest!: digits_length)

lemma scan_number_length: "scan_number s = Inr (v, r) \<Longrightarrow> length r < length s"
  by (force simp: scan_number_def rbind_Inr split: option.splits prod.splits
      dest!: scan_integer_part_length scan_fraction_length scan_exponent_length)

lemma tl_skip_ws: "length (tl (skip_ws r)) < Suc (length r)"
  using skip_ws_length [of r] by simp

lemma scan_value_consumes:
  assumes "pred_option consumes inner"
  shows "consumes (scan_value pc inner)"
  unfolding consumes_def
proof (intro allI impI)
  fix s v r assume v: "scan_value pc inner s = Inr (v, r)"
  then obtain c t where s: "s = c # t" by (cases s) (auto simp: scan_value_def)
  consider "c = CHR 0x22" | "c = CHR ''{''" | "c = CHR ''[''" | "c \<noteq> CHR 0x22" "c \<noteq> CHR ''{''" "c \<noteq> CHR ''[''" by blast
  then show "length r < length s"
  proof cases
    case 1
    with v s show ?thesis by (auto simp: scan_value_def Let_def rbind_Inr dest!: scanstring_length)
  next
    case 2
    with v s assms tl_skip_ws [of t] skip_ws_length [of t] show ?thesis
      by (fastforce simp: scan_value_def Let_def rbind_Inr split: option.splits if_splits dest!: object_items_length)
  next
    case 3
    with v s assms tl_skip_ws [of t] skip_ws_length [of t] show ?thesis
      by (fastforce simp: scan_value_def Let_def rbind_Inr split: option.splits if_splits dest!: array_items_length)
  next
    case 4
    with v scan_number_length [of s v r] show ?thesis
      by (auto simp: scan_value_def s Let_def rbind_Inr split: if_splits)
  qed
qed

lemma scan_once_consumes: "consumes (scan_once pc depth)"
  by (induction depth) (simp_all add: scan_value_consumes)

text \<open>The tests on the length in the loops of the scanner never fail.\<close>

lemma array_items_guard:
  "scan_once pc depth s = Inr (v, r) \<Longrightarrow> skip_ws r = c # r' \<Longrightarrow> length r' < length s"
  using scan_once_consumes [of pc depth] skip_ws_tail [of r] by (force simp: consumes_def)

lemma object_items_guard:
  assumes "scanstring (tl s) = Inr (k, r0)" "scan_once pc depth (skip_ws (tl (skip_ws r0))) = Inr (v, r)" "skip_ws r = c # r'"
  shows "length r' < length s"
  using array_items_guard [OF assms(2,3)] scanstring_length [OF assms(1)] skip_ws_length [of "tl (skip_ws r0)"]
    skip_ws_length [of r0] by simp

end
