(* ===== verification/Sse_Client.thy ===== *)
theory Sse_Client
  imports Api_Props OpenAI_Props Json_Parse_Props
begin

text \<open>
  The streaming client of the repository's HTTP benchmark, \<open>OpenAiSseClient\<close> of
  \<open>benchmark/http_benchmark_core.py\<close>: the request body it sends, and how it reads the event stream of
  the Gateway back into a result. What the connection answers (an exception, or a status and the
  bytes of the body) is an argument of \<open>run\<close>; the time stamps of the result are left out.
  \<open>frepr\<close> and \<open>srepr\<close> print a float and a string literal as \<open>repr\<close> does.
\<close>

section \<open>Requests\<close>

type_synonym workload = "(string \<times> string) list list"

definition request_document :: "string \<Rightarrow> workload \<Rightarrow> int \<Rightarrow> json" where
  "request_document model messages max_new_tokens = JDict
     [(''model'', JStr model),
      (''messages'', JList (map (\<lambda>m. JDict (map (\<lambda>(k, v). (k, JStr v)) m)) messages)),
      (''stream'', JBool True),
      (''stream_options'', JDict [(''include_usage'', JBool True)]),
      (''max_tokens'', JInt max_new_tokens),
      (''temperature'', JFloat (Fin 1)), (''top_p'', JFloat (Fin 1)), (''seed'', JInt 0)]"

definition OpenAiSseClient_init ::
  "(rat \<Rightarrow> string) \<Rightarrow> string \<Rightarrow> workload \<Rightarrow> int \<Rightarrow> int \<Rightarrow> (workload \<times> int) list option \<Rightarrow> (bytes \<times> int) list result" where
  "OpenAiSseClient_init frepr model messages max_new_tokens expected_prompt_tokens workload_variants =
     (let variants = (case workload_variants of
            Some (v # vs) \<Rightarrow> v # vs
          | _ \<Rightarrow> [(messages, expected_prompt_tokens)])
      in rmap (\<lambda>(variant_messages, variant_tokens).
           rbind (json_dumps frepr False (request_document model variant_messages max_new_tokens)) (\<lambda>t.
           Inr (utf8 t, variant_tokens))) variants)"

section \<open>Results\<close>

record RequestResult =
  rr_request_id :: int
  rr_outcome :: string
  rr_protocol_valid :: bool
  rr_accepted :: bool
  rr_slow_client :: bool
  rr_http_status :: int
  rr_status_code :: string
  rr_workload_index :: nat
  rr_input_tokens :: int
  rr_prompt_tokens :: int
  rr_completion_tokens :: int
  rr_output_text :: string
  rr_finish_reason :: string
  rr_error :: string

definition RequestResult_make :: "int \<Rightarrow> bool \<Rightarrow> nat \<Rightarrow> int \<Rightarrow> RequestResult" where
  "RequestResult_make request_id slow_client workload_index input_tokens =
     \<lparr>rr_request_id = request_id, rr_outcome = ''client_error'', rr_protocol_valid = False, rr_accepted = False,
      rr_slow_client = slow_client, rr_http_status = 0, rr_status_code = [], rr_workload_index = workload_index,
      rr_input_tokens = input_tokens, rr_prompt_tokens = 0, rr_completion_tokens = 0, rr_output_text = [],
      rr_finish_reason = [], rr_error = []\<rparr>"

text \<open>The result being filled, and the local variables of \<open>run\<close>.\<close>

record sse_state =
  ss_result :: RequestResult
  ss_terminal_observed :: bool
  ss_done_observed :: bool
  ss_usage_observed :: bool
  ss_terminal_error :: string

text \<open>An exception as its type's name and its text.\<close>

type_synonym raised = "string \<times> string"

definition runtime_error :: "string \<Rightarrow> raised" where
  "runtime_error m = (''RuntimeError'', m)"

fun loads_raised :: "json_failure \<Rightarrow> raised" where
  "loads_raised (UnicodeDecodeError m) = (''UnicodeDecodeError'', m)"
| "loads_raised (JSONDecodeError m) = (''JSONDecodeError'', m)"
| "loads_raised (JSONConstant c) = (''ValueError'', c)"
| "loads_raised (IntegerDigits m) = (''ValueError'', m)"
| "loads_raised (RecursionError m) = (''RecursionError'', m)"

section \<open>Python values\<close>

fun truthy :: "json \<Rightarrow> bool" where
  "truthy JNull = False"
| "truthy (JBool b) = b"
| "truthy (JInt n) = (n \<noteq> 0)"
| "truthy (JFloat x) = (x \<noteq> Fin 0)"
| "truthy (JStr s) = (s \<noteq> [])"
| "truthy (JList xs) = (xs \<noteq> [])"
| "truthy (JDict d) = (d \<noteq> [])"

fun py_repr :: "(rat \<Rightarrow> string) \<Rightarrow> (string \<Rightarrow> string) \<Rightarrow> json \<Rightarrow> string" where
  "py_repr frepr srepr JNull = ''None''"
| "py_repr frepr srepr (JBool b) = (if b then ''True'' else ''False'')"
| "py_repr frepr srepr (JInt n) = show_int n"
| "py_repr frepr srepr (JFloat (Fin x)) = frepr x"
| "py_repr frepr srepr (JFloat (Infinite neg)) = (if neg then ''-inf'' else ''inf'')"
| "py_repr frepr srepr (JFloat NaN) = ''nan''"
| "py_repr frepr srepr (JStr s) = srepr s"
| "py_repr frepr srepr (JList xs) = ''['' @ join '', '' (map (py_repr frepr srepr) xs) @ '']''"
| "py_repr frepr srepr (JDict d) =
     ''{'' @ join '', '' (map (\<lambda>(k, v). srepr k @ '': '' @ py_repr frepr srepr v) d) @ ''}''"

definition py_str :: "(rat \<Rightarrow> string) \<Rightarrow> (string \<Rightarrow> string) \<Rightarrow> json \<Rightarrow> string" where
  "py_str frepr srepr v = (case v of JStr s \<Rightarrow> s | _ \<Rightarrow> py_repr frepr srepr v)"

definition non_negative_int :: "json \<Rightarrow> string \<Rightarrow> raised + int" where
  "non_negative_int v description =
     (let err = Inl (runtime_error (description @ '' must be a non-negative integer''))
      in case v of JInt n \<Rightarrow> if n < 0 then err else Inr n | _ \<Rightarrow> err)"

section \<open>Reading the stream\<close>

text \<open>The body of the loop over the choices; \<open>None\<close> is the normal end.\<close>

fun read_choices ::
  "(rat \<Rightarrow> string) \<Rightarrow> (string \<Rightarrow> string) \<Rightarrow> json list \<Rightarrow> sse_state \<Rightarrow> raised option \<times> sse_state" where
  "read_choices frepr srepr [] st = (None, st)"
| "read_choices frepr srepr (choice # choices) st =
     (case choice of
        JDict d \<Rightarrow>
          let fr = py_get d ''finish_reason'' JNull;
              st1 = (if fr \<noteq> JNull
                     then st\<lparr>ss_result := (ss_result st)\<lparr>rr_finish_reason := py_str frepr srepr fr\<rparr>,
                             ss_terminal_observed := True\<rparr>
                     else st)
          in (case py_get d ''delta'' JNull of
                JDict delta \<Rightarrow>
                  (case py_get delta ''content'' JNull of
                     JNull \<Rightarrow> read_choices frepr srepr choices st1
                   | JStr content \<Rightarrow>
                       if content = [] then read_choices frepr srepr choices st1
                       else read_choices frepr srepr choices
                              (st1\<lparr>ss_result := (ss_result st1)\<lparr>rr_output_text := rr_output_text (ss_result st1) @ content\<rparr>\<rparr>)
                   | _ \<Rightarrow> (Some (runtime_error ''Gateway emitted non-string content''), st1))
              | _ \<Rightarrow> (Some (runtime_error ''Gateway emitted an invalid delta''), st1))
      | _ \<Rightarrow> (Some (runtime_error ''Gateway emitted an invalid choice''), st))"

definition read_usage :: "json \<Rightarrow> sse_state \<Rightarrow> raised option \<times> sse_state" where
  "read_usage usage st =
     (case usage of
        JNull \<Rightarrow> (None, st)
      | JDict d \<Rightarrow>
          (case non_negative_int (py_get d ''prompt_tokens'' JNull) ''usage.prompt_tokens'' of
             Inl e \<Rightarrow> (Some e, st)
           | Inr p \<Rightarrow>
               let st1 = st\<lparr>ss_result := (ss_result st)\<lparr>rr_prompt_tokens := p\<rparr>\<rparr> in
               (case non_negative_int (py_get d ''completion_tokens'' JNull) ''usage.completion_tokens'' of
                  Inl e \<Rightarrow> (Some e, st1)
                | Inr c \<Rightarrow>
                    (None, st1\<lparr>ss_result := (ss_result st1)\<lparr>rr_completion_tokens := c\<rparr>, ss_usage_observed := True\<rparr>)))
      | _ \<Rightarrow> (Some (runtime_error ''Gateway emitted invalid usage''), st))"

text \<open>One event of the stream.\<close>

definition read_value ::
  "(rat \<Rightarrow> string) \<Rightarrow> (string \<Rightarrow> string) \<Rightarrow> json \<Rightarrow> sse_state \<Rightarrow> raised option \<times> sse_state" where
  "read_value frepr srepr v st =
     (case v of
        JDict d \<Rightarrow>
          (case py_get d ''error'' JNull of
             JNull \<Rightarrow>
               (case read_usage (py_get d ''usage'' JNull) st of
                  (Some e, st1) \<Rightarrow> (Some e, st1)
                | (None, st1) \<Rightarrow>
                    (case py_get d ''choices'' JNull of
                       JList choices \<Rightarrow> read_choices frepr srepr choices st1
                     | _ \<Rightarrow> (Some (runtime_error ''Gateway emitted invalid choices''), st1)))
           | JDict error \<Rightarrow>
               let str_or = (\<lambda>k dflt. let x = py_get error k JNull in if truthy x then py_str frepr srepr x else dflt);
                   terminal_error = str_or ''code'' ''internal_error''
               in (None, st\<lparr>ss_terminal_error := terminal_error,
                            ss_result := (ss_result st)\<lparr>rr_error := str_or ''message'' terminal_error\<rparr>,
                            ss_terminal_observed := True\<rparr>)
           | _ \<Rightarrow> (Some (runtime_error ''Gateway emitted an invalid SSE error''), st))
      | _ \<Rightarrow> (Some (runtime_error ''Gateway emitted a non-object SSE payload''), st))"

definition MAX_RESPONSE_BYTES :: nat where
  "MAX_RESPONSE_BYTES = 1024 * 1024"

text \<open>\<open>response.readline(limit)\<close> and \<open>bytes.strip()\<close>\<close>

definition readline :: "nat \<Rightarrow> bytes \<Rightarrow> bytes \<times> bytes" where
  "readline limit body =
     (let n = length (takeWhile (\<lambda>b. b \<noteq> 10) body); k = min limit (if n < length body then n + 1 else n)
      in (take k body, drop k body))"

definition is_space :: "byte \<Rightarrow> bool" where
  "is_space b \<longleftrightarrow> b \<in> set [32, 9, 10, 11, 12, 13]"

definition strip :: "bytes \<Rightarrow> bytes" where
  "strip b = rev (dropWhile is_space (rev (dropWhile is_space b)))"

lemma readline_shorter: "readline limit body = (line, rest) \<Longrightarrow> line \<noteq> [] \<Longrightarrow> length rest < length body"
  by (auto simp: readline_def Let_def)

function read_stream ::
  "(rat \<Rightarrow> string) \<Rightarrow> (string \<Rightarrow> string) \<Rightarrow> loads_fun \<Rightarrow> bytes \<Rightarrow> sse_state \<Rightarrow> raised option \<times> sse_state" where
  "read_stream frepr srepr loads body st =
     (case readline (MAX_RESPONSE_BYTES + 1) body of (line, rest) \<Rightarrow>
      if MAX_RESPONSE_BYTES < length line then (Some (runtime_error ''SSE line exceeded size limit''), st)
      else if line = [] then (None, st)
      else let stripped = strip line in
        if stripped = [] then read_stream frepr srepr loads rest st
        else if take 6 stripped \<noteq> utf8 ''data: ''
        then (Some (runtime_error ''Gateway emitted a non-data SSE field''), st)
        else let data = drop 6 stripped in
          if data = utf8 ''[DONE]'' then (None, st\<lparr>ss_done_observed := True\<rparr>)
          else case loads data of
              Inl f \<Rightarrow> (Some (loads_raised f), st)
            | Inr v \<Rightarrow>
                (case read_value frepr srepr v st of
                   (Some e, st1) \<Rightarrow> (Some e, st1)
                 | (None, st1) \<Rightarrow> read_stream frepr srepr loads rest st1))"
  by pat_completeness auto
termination
  by (relation "measure (\<lambda>(frepr, srepr, loads, body, st). length body)") (auto dest!: readline_shorter [OF sym])

declare read_stream.simps [simp del]

section \<open>\<open>run\<close>\<close>

definition error_code :: "loads_fun \<Rightarrow> bytes \<Rightarrow> raised + string" where
  "error_code loads payload =
     (case loads payload of
        Inl (RecursionError m) \<Rightarrow> Inl (''RecursionError'', m)
      | Inl _ \<Rightarrow> Inr []
      | Inr v \<Rightarrow>
          Inr (case v of
                 JDict d \<Rightarrow>
                   (case py_get d ''error'' JNull of
                      JDict error \<Rightarrow> (case py_get error ''code'' JNull of JStr s \<Rightarrow> s | _ \<Rightarrow> [])
                    | _ \<Rightarrow> [])
               | _ \<Rightarrow> []))"

text \<open>What follows the loop.\<close>

definition finish_stream :: "int \<Rightarrow> sse_state \<Rightarrow> raised option \<times> RequestResult" where
  "finish_stream expected_prompt_tokens st =
     (let r = ss_result st in
      if \<not> ss_done_observed st then (Some (runtime_error ''SSE stream ended without [DONE]''), r)
      else if \<not> ss_terminal_observed st then (Some (runtime_error ''SSE stream ended without a terminal event''), r)
      else if ss_terminal_error st \<noteq> []
      then (None, r\<lparr>rr_outcome := ''terminal_error'', rr_status_code := ss_terminal_error st, rr_protocol_valid := True\<rparr>)
      else if \<not> ss_usage_observed st then (Some (runtime_error ''successful SSE stream did not report usage''), r)
      else if rr_prompt_tokens r \<noteq> expected_prompt_tokens
      then (Some (runtime_error ''HTTP usage prompt_tokens differs from the tokenized workload''), r)
      else (None, r\<lparr>rr_outcome := ''completed'', rr_status_code := ''ok'', rr_protocol_valid := True\<rparr>))"

definition read_response ::
  "(rat \<Rightarrow> string) \<Rightarrow> (string \<Rightarrow> string) \<Rightarrow> loads_fun \<Rightarrow> int \<Rightarrow> int \<Rightarrow> bytes \<Rightarrow> RequestResult \<Rightarrow> raised option \<times> RequestResult" where
  "read_response frepr srepr loads expected_prompt_tokens status body result0 =
     (let result = result0\<lparr>rr_http_status := status\<rparr> in
      if status \<noteq> 200
      then let payload = take (MAX_RESPONSE_BYTES + 1) body in
        if MAX_RESPONSE_BYTES < length payload
        then (Some (runtime_error ''HTTP error response exceeded size limit''), result)
        else let rejected = result\<lparr>rr_outcome := ''rejected''\<rparr> in
          (case error_code loads payload of
             Inl e \<Rightarrow> (Some e, rejected)
           | Inr code \<Rightarrow>
               (None, rejected\<lparr>rr_status_code := (if code \<noteq> [] then code else ''http_'' @ show_int status),
                               rr_protocol_valid := (400 \<le> status \<and> status < 600)\<rparr>))
      else
        (case read_stream frepr srepr loads body
                \<lparr>ss_result = result\<lparr>rr_accepted := True\<rparr>, ss_terminal_observed = False, ss_done_observed = False,
                 ss_usage_observed = False, ss_terminal_error = []\<rparr> of
           (Some e, st) \<Rightarrow> (Some e, ss_result st)
         | (None, st) \<Rightarrow> finish_stream expected_prompt_tokens st))"

text \<open>\<open>exchange\<close> is what sending a body over a new connection returns.\<close>

definition run ::
  "(rat \<Rightarrow> string) \<Rightarrow> (string \<Rightarrow> string) \<Rightarrow> loads_fun \<Rightarrow> (bytes \<times> int) list \<Rightarrow> (bytes \<Rightarrow> raised + int \<times> bytes) \<Rightarrow>
     int \<Rightarrow> bool \<Rightarrow> RequestResult" where
  "run frepr srepr loads variants exchange request_id slow_client =
     (let workload_index = nat ((request_id - 1) mod int (length variants));
          (body, expected_prompt_tokens) = variants ! workload_index;
          result = RequestResult_make request_id slow_client workload_index expected_prompt_tokens
      in case (case exchange body of
                 Inl e \<Rightarrow> (Some e, result)
               | Inr (status, response) \<Rightarrow>
                   read_response frepr srepr loads expected_prompt_tokens status response result) of
           (None, r) \<Rightarrow> r
         | (Some (name, m), r) \<Rightarrow> r\<lparr>rr_outcome := ''client_error'', rr_error := name @ '': '' @ m\<rparr>)"

section \<open>What the client should see\<close>

definition event_fits :: "(rat \<Rightarrow> string) \<Rightarrow> json \<Rightarrow> bool" where
  "event_fits frepr v \<longleftrightarrow> length (json_text frepr v) + 7 \<le> MAX_RESPONSE_BYTES"

definition stream_documents :: "string \<Rightarrow> int \<Rightarrow> string \<Rightarrow> bool \<Rightarrow> string list \<Rightarrow> GatewayTerminal \<Rightarrow> json list" where
  "stream_documents completion_id created model include_usage texts t =
     [chat_completion_chunk_json completion_id created model [(''role'', ''assistant'')] None] @
     map (\<lambda>d. chat_completion_chunk_json completion_id created model [(''content'', d)] None) texts @
     (if \<not> status_ok (gt_status t) then [error_json (gateway_error_from_status (gt_status t))]
      else [chat_completion_chunk_json completion_id created model []
              (Some (openai_finish_reason (gt_finish_reason t)))] @
           (if include_usage then [usage_chunk_json completion_id created model (gt_usage t)] else []))"

text \<open>A document of the stream that the client can read: an object that is read back from its text
  and whose line is within the client's limit.\<close>

definition readable :: "(rat \<Rightarrow> string) \<Rightarrow> nat \<Rightarrow> json \<Rightarrow> bool" where
  "readable frepr depth v \<longleftrightarrow> json_legible frepr depth v \<and> event_fits frepr v"

text \<open>What the client should report of a session that delivered \<open>texts\<close> and the terminal \<open>t\<close>.\<close>

definition reported :: "int \<Rightarrow> string list \<Rightarrow> GatewayTerminal \<Rightarrow> RequestResult \<Rightarrow> RequestResult" where
  "reported expected_prompt_tokens texts t r0 =
     (let r = r0\<lparr>rr_http_status := 200, rr_accepted := True, rr_output_text := concat texts\<rparr>;
          g = gateway_error_from_status (gt_status t)
      in if \<not> status_ok (gt_status t)
         then r\<lparr>rr_outcome := ''terminal_error'', rr_protocol_valid := True, rr_error := ge_message g,
                rr_status_code := (if ge_code g \<noteq> [] then ge_code g else ''internal_error'')\<rparr>
         else let r' = r\<lparr>rr_finish_reason := openai_finish_reason (gt_finish_reason t),
                         rr_prompt_tokens := us_prompt_tokens (gt_usage t),
                         rr_completion_tokens := us_completion_tokens (gt_usage t)\<rparr>
              in if us_prompt_tokens (gt_usage t) = expected_prompt_tokens
                 then r'\<lparr>rr_outcome := ''completed'', rr_status_code := ''ok'', rr_protocol_valid := True\<rparr>
                 else r'\<lparr>rr_outcome := ''client_error'',
                         rr_error := ''RuntimeError: HTTP usage prompt_tokens differs from the tokenized workload''\<rparr>)"

section \<open>Lemmas\<close>

lemma utf8_newline_free: "newline_free s \<Longrightarrow> takeWhile (\<lambda>b. b \<noteq> 10) (utf8 s @ 10 # rest) = utf8 s"
proof (induction s)
  case (Cons c s)
  have "(of_nat (of_char c) :: byte) \<noteq> 10" using Cons.prems byte_of_char_inj [of c "CHR 0x0A"] by simp
  with Cons show ?case by (simp add: utf8_def)
qed (simp add: utf8_def)

lemma readline_line:
  assumes "newline_free s" and "length s < limit"
  shows "readline limit (utf8 s @ 10 # rest) = (utf8 s @ [10], rest)"
  using utf8_newline_free [OF assms(1), of rest] assms(2)
  by (cases "limit = Suc (length s)") (auto simp: readline_def Let_def min_def)

lemma is_space_byte: "is_space (of_nat (of_char c)) \<longleftrightarrow> c \<in> set [CHR 0x20, CHR 0x09, CHR 0x0A, CHR 0x0B, CHR 0x0C, CHR 0x0D]"
  using byte_of_char_inj [of c "CHR 0x20"] byte_of_char_inj [of c "CHR 0x09"] byte_of_char_inj [of c "CHR 0x0A"]
    byte_of_char_inj [of c "CHR 0x0B"] byte_of_char_inj [of c "CHR 0x0C"] byte_of_char_inj [of c "CHR 0x0D"]
  by (simp add: is_space_def)

lemma strip_line: "strip (utf8 (CHR ''d'' # s @ [CHR ''}'']) @ [10]) = utf8 (CHR ''d'' # s @ [CHR ''}''])"
  by (simp add: strip_def utf8_def is_space_def)

lemma read_stream_done: "read_stream frepr srepr loads done_event st = (None, st\<lparr>ss_done_observed := True\<rparr>)"
proof -
  have "done_event = utf8 ''data: [DONE]'' @ 10 # [10]" by (simp add: done_event_def utf8_def)
  moreover have "strip (utf8 ''data: [DONE]'' @ [10]) = utf8 ''data: [DONE]''"
    by (simp add: strip_def utf8_def is_space_def)
  ultimately show ?thesis
    using readline_line [of "''data: [DONE]''" "MAX_RESPONSE_BYTES + 1" "[10]"]
    by (subst read_stream.simps) (simp add: MAX_RESPONSE_BYTES_def utf8_def)
qed

lemma stream_bytes:
  assumes "consume r rounds s = (texts, Completed t, s')"
  shows "concat (fst (stream_chat_completion frepr completion_id created model include_usage r rounds s)) =
    concat (map (encode_sse frepr) (stream_documents completion_id created model include_usage texts t)) @ done_event"
  by (simp add: stream_chat_completion_def stream_consume assms stream_documents_def role_event_def terminal_events_def
      content_event_def [abs_def] comp_def)

lemma read_role: "read_value frepr srepr (chat_completion_chunk_json i c m [(''role'', ''assistant'')] None) st = (None, st)"
  by (simp add: read_value_def chat_completion_chunk_json_def py_get_def read_usage_def json_option_str_def)

lemma read_content:
  "read_value frepr srepr (chat_completion_chunk_json i c m [(''content'', d)] None) st =
     (None, st\<lparr>ss_result := (ss_result st)\<lparr>rr_output_text := rr_output_text (ss_result st) @ d\<rparr>\<rparr>)"
  by (simp add: read_value_def chat_completion_chunk_json_def py_get_def read_usage_def json_option_str_def)

lemma read_finish:
  "read_value frepr srepr (chat_completion_chunk_json i c m [] (Some f)) st =
     (None, st\<lparr>ss_result := (ss_result st)\<lparr>rr_finish_reason := f\<rparr>, ss_terminal_observed := True\<rparr>)"
  by (simp add: read_value_def chat_completion_chunk_json_def py_get_def read_usage_def json_option_str_def py_str_def)

lemma read_usage_chunk:
  "0 \<le> us_prompt_tokens u \<Longrightarrow> 0 \<le> us_completion_tokens u \<Longrightarrow>
   read_value frepr srepr (usage_chunk_json i c m u) st =
     (None, st\<lparr>ss_result := (ss_result st)\<lparr>rr_prompt_tokens := us_prompt_tokens u, rr_completion_tokens := us_completion_tokens u\<rparr>,
               ss_usage_observed := True\<rparr>)"
  by (simp add: read_value_def usage_chunk_json_def usage_json_def py_get_def read_usage_def non_negative_int_def)

lemma read_error:
  "read_value frepr srepr (error_json g) st =
     (None, st\<lparr>ss_terminal_error := (if ge_code g \<noteq> [] then ge_code g else ''internal_error''),
               ss_result := (ss_result st)\<lparr>rr_error := (if ge_message g \<noteq> [] then ge_message g
                 else if ge_code g \<noteq> [] then ge_code g else ''internal_error'')\<rparr>,
               ss_terminal_observed := True\<rparr>)"
  by (simp add: read_value_def error_json_def py_get_def py_str_def Let_def)

context json_reader
begin

lemma read_stream_event:
  assumes nl: "\<And>x. newline_free (frepr x)" and v: "v = JDict d" "event_fits frepr v" "legible v"
  shows "read_stream frepr srepr loads (encode_sse frepr v @ rest) st =
    (case read_value frepr srepr v st of
       (Some e, st1) \<Rightarrow> (Some e, st1)
     | (None, st1) \<Rightarrow> read_stream frepr srepr loads rest st1)"
proof -
  obtain t where t: "json_text frepr v = CHR ''{'' # t @ [CHR ''}'']" using v(1) by simp
  let ?line = "CHR ''d'' # (''ata: {'' @ t) @ [CHR ''}'']"
  have line: "''data: '' @ json_text frepr v = ?line" using t by simp
  have sse: "encode_sse frepr v @ rest = utf8 ?line @ 10 # 10 # rest"
    by (simp add: encode_sse_def t utf8_def)
  have nf: "newline_free ?line" using newline_free_json [of frepr v, OF nl] unfolding t by simp
  have len: "length ?line + 1 \<le> MAX_RESPONSE_BYTES" using v(2) t by (simp add: event_fits_def)
  have blank: "read_stream frepr srepr loads (10 # rest) st = read_stream frepr srepr loads rest st" for st
    by (subst read_stream.simps) (simp add: readline_def strip_def is_space_def MAX_RESPONSE_BYTES_def)
  have data: "drop 6 (utf8 ?line) = utf8 (json_text frepr v)" "take 6 (utf8 ?line) = utf8 ''data: ''"
    using t by (simp_all add: utf8_def)
  have "utf8 (json_text frepr v) \<noteq> utf8 ''[DONE]''" using t by (simp add: utf8_inject)
  then show ?thesis
    unfolding sse using readline_line [OF nf, of "MAX_RESPONSE_BYTES + 1" "10 # rest"] len strip_line [of "''ata: {'' @ t"] data reads_back [OF v(3)] blank
    by (subst read_stream.simps) (simp split: prod.split option.split)
qed

lemma read_stream_documents:
  assumes nl: "\<And>x. newline_free (frepr x)" and "list_all (\<lambda>v. legible v \<and> event_fits frepr v) docs"
    and "\<And>v. v \<in> set docs \<Longrightarrow> (\<exists>d. v = JDict d) \<and> (\<forall>st. fst (read_value frepr srepr v st) = None)"
  shows "read_stream frepr srepr loads (concat (map (encode_sse frepr) docs) @ rest) st =
    read_stream frepr srepr loads rest (fold (\<lambda>v st. snd (read_value frepr srepr v st)) docs st)"
  using assms(2,3)
proof (induction docs arbitrary: st)
  case (Cons v docs)
  obtain d where d: "v = JDict d" using Cons.prems(2) by auto
  have r: "event_fits frepr v" "legible v" using Cons.prems(1) by auto
  obtain st1 where st1: "read_value frepr srepr v st = (None, st1)"
    using Cons.prems(2) by (metis list.set_intros(1) prod.collapse)
  then have "read_stream frepr srepr loads (encode_sse frepr v @ concat (map (encode_sse frepr) docs) @ rest) st =
      read_stream frepr srepr loads (concat (map (encode_sse frepr) docs) @ rest) (snd (read_value frepr srepr v st))"
    by (subst read_stream_event [OF nl d r]) simp
  with Cons show ?case by simp
qed simp

end

lemma stream_documents_readable:
  assumes "0 \<le> us_prompt_tokens (gt_usage t)" "0 \<le> us_completion_tokens (gt_usage t)"
    and "v \<in> set (stream_documents i c m u texts t)"
  shows "(\<exists>d. v = JDict d) \<and> (\<forall>st. fst (read_value frepr srepr v st) = None)"
proof -
  have "\<exists>d. v = JDict d" using assms(3)
    by (auto simp: stream_documents_def chat_completion_chunk_json_def usage_chunk_json_def error_json_def split: if_splits)
  moreover have "fst (read_value frepr srepr v st) = None" for st
    using assms by (auto simp: stream_documents_def read_role read_content read_finish read_usage_chunk read_error split: if_splits)
  ultimately show ?thesis by blast
qed

lemma fold_contents:
  "fold (\<lambda>v st. snd (read_value frepr srepr v st))
     (map (\<lambda>d. chat_completion_chunk_json i c m [(''content'', d)] None) texts) st =
   st\<lparr>ss_result := (ss_result st)\<lparr>rr_output_text := rr_output_text (ss_result st) @ concat texts\<rparr>\<rparr>"
  by (induction texts arbitrary: st) (simp_all add: read_content)

lemma gateway_error_message: "ge_message (gateway_error_from_status st) \<noteq> []"
  by (simp add: gateway_error_from_status_def Let_def GatewayError_make_def)

section \<open>The client on a completed stream\<close>

lemma client_reads_stream:
  assumes "\<And>x. newline_free (frepr x)" and "consume r rounds s = (texts, Completed t, s')"
    and "list_all (readable frepr depth) (stream_documents completion_id created model True texts t)"
    and "0 \<le> us_prompt_tokens (gt_usage t)" and "0 \<le> us_completion_tokens (gt_usage t)"
    and "variants \<noteq> []" "k = nat ((request_id - 1) mod int (length variants))"
  shows "run frepr srepr (json_loads default_constant depth) variants
      (\<lambda>_. Inr (200, concat (fst (stream_chat_completion frepr completion_id created model True r rounds s)))) request_id slow =
    reported (snd (variants ! k)) texts t (RequestResult_make request_id slow k (snd (variants ! k)))"
proof -
  have *: "read_stream frepr srepr (json_loads default_constant depth)
      (concat (fst (stream_chat_completion frepr completion_id created model True r rounds s))) st =
    (None, (fold (\<lambda>v st. snd (read_value frepr srepr v st)) (stream_documents completion_id created model True texts t) st)
       \<lparr>ss_done_observed := True\<rparr>)" for st
    unfolding stream_bytes [OF assms(2)]
    by (subst pyjson.read_stream_documents
        [OF assms(1,3) [unfolded readable_def] stream_documents_readable [OF assms(4,5)]])
      (simp_all add: read_stream_done)
  show ?thesis
    by (cases "variants ! k")
      (simp add: run_def read_response_def * stream_documents_def read_role fold_contents read_finish read_usage_chunk [OF assms(4,5)]
        read_error finish_stream_def reported_def gateway_error_message RequestResult_make_def runtime_error_def Let_def
        flip: assms(7))
qed

end
