(* ===== verification/Endpoint_Props.thy ===== *)
theory Endpoint_Props
  imports Request_Path
begin

text \<open>
  The chat endpoint from the body to the session: which exceptions leave it, what they are
  counted as, and what a request that gets through has established.
\<close>

section \<open>Failures before the submission\<close>

text \<open>A client error (400 or 413), or one of the two exceptions the handler does not catch.\<close>

definition early_error :: "exn \<Rightarrow> bool" where
  "early_error e \<longleftrightarrow>
     (\<exists>g. e = RaisedGatewayError g \<and> ge_http_status g \<in> {400, 413} \<and> ge_error_type g = ''invalid_request_error'') \<or>
     e = OverflowError ''int too large to convert to float'' \<or> (\<exists>m. e = RuntimeError m)"

lemma read_body_raises: "raises_only early_error (read_bounded_body max_bytes chunks body)"
  by (induction chunks arbitrary: body) (simp_all add: early_error_def GatewayError_make_def)

lemma read_body_value:
  "read_bounded_body max_bytes chunks body = Inr b \<Longrightarrow> b = body @ concat chunks \<and> b \<noteq> []"
  by (induction chunks arbitrary: body) (fastforce split: if_splits)+

lemma parse_body_Inr: "parse_body loads body = Inr v \<longleftrightarrow> loads body = Inr v"
  by (simp add: parse_body_def split: sum.split)

lemma parse_body_raises: "raises_only early_error (parse_body loads body)"
proof -
  have "early_error (body_failure f)" for f
    by (cases f) (simp_all add: early_error_def invalid_json_def GatewayError_make_def)
  then show ?thesis by (simp add: parse_body_def raises_only_def split: sum.split)
qed

lemma parse_error_early: "parse_error e \<Longrightarrow> early_error e"
  by (auto simp: parse_error_def request_error_def early_error_def invalid_def GatewayError_make_def)

definition read_command :: "loads_fun \<Rightarrow> int \<Rightarrow> ModelManifest \<Rightarrow> bytes list \<Rightarrow> ChatCompletionCommand result" where
  "read_command loads max_bytes manifest chunks =
     rbind (read_bounded_body max_bytes chunks []) (\<lambda>body.
     rbind (parse_body loads body) (\<lambda>v.
     parse_chat_completion_request v manifest))"

lemma read_command_raises: "raises_only early_error (read_command loads max_bytes manifest chunks)"
proof -
  have "raises_only early_error (parse_chat_completion_request v manifest)" for v
    using parse_request_raises [of v manifest] parse_error_early by (auto simp: raises_only_def split: sum.splits)
  then show ?thesis unfolding read_command_def
    by (intro raises_only_rbind read_body_raises parse_body_raises)
qed

lemma read_command_Inr:
  assumes "read_command loads max_bytes manifest chunks = Inr c"
  shows "command_ok manifest c \<and>
    (\<exists>v. loads (concat chunks) = Inr v \<and> parse_chat_completion_request v manifest = Inr c) \<and>
    concat chunks \<noteq> [] \<and> (0 \<le> max_bytes \<longrightarrow> int (length (concat chunks)) \<le> max_bytes)"
proof -
  obtain body v where b: "read_bounded_body max_bytes chunks [] = Inr body" "loads body = Inr v"
    "parse_chat_completion_request v manifest = Inr c"
    using assms by (auto simp: read_command_def parse_body_Inr rbind_Inr)
  have body: "body = concat chunks \<and> body \<noteq> []" using read_body_value [OF b(1)] by (metis append_Nil)
  moreover have "int (length (concat chunks)) \<le> max_bytes" if "0 \<le> max_bytes"
    using read_body_append [of "[]" max_bytes chunks] that b(1) by (auto split: if_splits)
  ultimately show ?thesis using b parse_command_ok [OF b(3)] by blast
qed

section \<open>Property\<close>

lemma chat_submit_read:
  assumes "as_service st = Some (tok, s)"
  shows "chat_submit srepr ops loads completion_id chunks st =
     (case read_command loads (cf_max_http_body_bytes (as_config st)) (sv_manifest s) chunks of
        Inl e \<Rightarrow> (Inl e, st)
      | Inr command \<Rightarrow>
          (case service_submit srepr ops tok (to_gateway_request completion_id command) s of
             (res, s') \<Rightarrow> (map_sum id (Pair command) res, st\<lparr>as_service := Some (tok, s')\<rparr>)))"
  using assms by (auto simp: chat_submit_def require_service_def read_command_def split: sum.splits prod.splits)


definition sample_application :: "Client ApplicationState" where
  "sample_application =
     \<lparr>as_config = sample_gateway_config, as_service = Some (hugging_face_ops sample_tokenizer, sample_service),
      as_startup_error = None\<rparr>"

lemma sample_chat_submit:
  "\<exists>st'. chat_submit id (generation_client_ops sample_env) (\<lambda>_. Inr (request_json sample_chat_command)) ''x'' [[1]]
     sample_application = (Inr (sample_chat_command, 0), st')"
proof -
  have "sv_manifest sample_service = sample_manifest" by (simp add: sample_service_def GatewayService_init_def)
  with parse_request_json [OF sample_chat_command_ok]
  have "read_command (\<lambda>_. Inr (request_json sample_chat_command)) (cf_max_http_body_bytes sample_gateway_config)
      (sv_manifest sample_service) [[1]] = Inr sample_chat_command"
    by (simp add: read_command_def parse_body_def sample_gateway_config_def)
  moreover obtain s' where "service_submit id (generation_client_ops sample_env) (hugging_face_ops sample_tokenizer)
      (sample_gateway_request ''m'') sample_service = (Inr 0, s')"
    using sample_submit_accepted [of id] by (metis prod.collapse)
  ultimately show ?thesis
    by (simp add: chat_submit_read [of _ "hugging_face_ops sample_tokenizer" sample_service] sample_application_def
        sample_chat_request)
qed


end
