(* ===== verification/Exchange.thy ===== *)
theory Exchange
  imports Sse_Client Endpoint_Props
begin

text \<open>
  The repository's HTTP client against the Gateway's chat endpoint: the request it builds is the
  command the endpoint parses, and the stream the endpoint serves is the result it reports. The
  server between them (FastAPI) is \<open>served\<close>: it sends the chunks of an event stream as they are
  and renders a JSON document with \<open>render\<close>; \<open>other\<close> is what it does with any other reply.
\<close>

section \<open>Definitions\<close>

definition message_document :: "chat_message \<Rightarrow> (string \<times> string) list" where
  "message_document m = [(''role'', fst m), (''content'', snd m)]"

definition benchmark_command :: "string \<Rightarrow> chat_message list \<Rightarrow> int \<Rightarrow> ChatCompletionCommand" where
  "benchmark_command model messages max_new_tokens =
     \<lparr>cc_model = model, cc_messages = messages, cc_stream = True, cc_include_usage = True,
      cc_max_new_tokens = max_new_tokens, cc_temperature = Fin 1, cc_top_p = Fin 1, cc_random_seed = 0, cc_stop = []\<rparr>"

definition served ::
  "(json \<Rightarrow> bytes) \<Rightarrow> (chat_reply \<Rightarrow> raised + int \<times> bytes) \<Rightarrow> chat_reply \<Rightarrow> raised + int \<times> bytes" where
  "served render other reply =
     (case reply of
        ChatResponse (JsonResponse status doc) \<Rightarrow> Inr (status, render doc)
      | EventStream chunks e \<Rightarrow> Inr (200, concat chunks)
      | _ \<Rightarrow> other reply)"

text \<open>A benchmark request that the Gateway can read, for a service with this manifest and body limit.\<close>

definition sendable :: "(rat \<Rightarrow> string) \<Rightarrow> nat \<Rightarrow> int \<Rightarrow> ModelManifest \<Rightarrow> string \<Rightarrow> chat_message list \<Rightarrow> int \<Rightarrow> bool" where
  "sendable frepr depth max_bytes manifest model messages max_new_tokens \<longleftrightarrow>
     (let doc = request_document model (map message_document messages) max_new_tokens
      in json_legible frepr depth doc \<and> int (length (json_text frepr doc)) \<le> max_bytes \<and>
         model \<noteq> [] \<and> messages \<noteq> [] \<and> list_all (\<lambda>m. fst m \<in> set [''system'', ''user'', ''assistant'']) messages \<and>
         1 \<le> max_new_tokens \<and> max_new_tokens \<le> mm_max_output_tokens manifest)"

section \<open>Requests\<close>

lemma benchmark_messages:
  assumes "messages \<noteq> []" and "list_all (\<lambda>m. fst m \<in> set [''system'', ''user'', ''assistant'']) messages"
  shows "chat_messages (JList (map (\<lambda>m. JDict (map (\<lambda>(k, v). (k, JStr v)) (message_document m))) messages)) = Inr messages"
proof -
  have one: "chat_message (i, JDict (map (\<lambda>(k, v). (k, JStr v)) (message_document m))) = Inr m"
    if "fst m \<in> set [''system'', ''user'', ''assistant'']" for i m
    using that by (cases m) (auto simp: chat_message_def message_document_def keys_are_def py_getitem_def chat_string_def Let_def guard_def)
  have "rmap chat_message (enumerate i (map (\<lambda>m. JDict (map (\<lambda>(k, v). (k, JStr v)) (message_document m))) messages)) = Inr messages" for i
    using assms(2) by (induction messages arbitrary: i) (simp_all add: one del: set_simps)
  with assms(1) show ?thesis by (cases messages) (simp_all add: chat_messages_def)
qed

lemma benchmark_request_parses:
  assumes "model \<noteq> []" and "messages \<noteq> []" and "list_all (\<lambda>m. fst m \<in> set [''system'', ''user'', ''assistant'']) messages"
    and "1 \<le> max_new_tokens" and "max_new_tokens \<le> mm_max_output_tokens manifest"
  shows "parse_chat_completion_request (request_document model (map message_document messages) max_new_tokens) manifest =
    Inr (benchmark_command model messages max_new_tokens)"
  using assms benchmark_messages [OF assms(2,3)]
  by (simp add: parse_chat_completion_request_def request_document_def check_fields_def supported_fields_def guard_def
      py_getitem_def chat_string_def py_get_def comp_def chat_integer_def chat_max_tokens_def chat_number_def py_float_def
      is_number_def chat_stop_def check_penalty_def chat_include_usage_def keys_are_def benchmark_command_def Let_def float_lt_def)

lemma client_init_single:
  "OpenAiSseClient_init frepr model messages max_new_tokens expected None =
     Inr [(utf8 (json_text frepr (request_document model messages max_new_tokens)), expected)]"
  by (auto simp: OpenAiSseClient_init_def json_dumps_def request_document_def list_all_iff)

lemma benchmark_read_command:
  assumes "json_legible frepr depth (request_document model (map message_document messages) max_new_tokens)"
    and "concat chunks = utf8 (json_text frepr (request_document model (map message_document messages) max_new_tokens))"
    and "int (length (concat chunks)) \<le> max_bytes"
    and "model \<noteq> []" "messages \<noteq> []" "list_all (\<lambda>m. fst m \<in> set [''system'', ''user'', ''assistant'']) messages"
    and "1 \<le> max_new_tokens" "max_new_tokens \<le> mm_max_output_tokens manifest"
  shows "read_command (json_loads reject_constant depth) max_bytes manifest chunks =
    Inr (benchmark_command model messages max_new_tokens)"
proof -
  let ?doc = "request_document model (map message_document messages) max_new_tokens"
  have "read_bounded_body max_bytes chunks [] = Inr (utf8 (json_text frepr ?doc))"
  proof -
    have "0 \<le> max_bytes" using assms(3) by linarith
    moreover have "utf8 (json_text frepr ?doc) \<noteq> []" by (simp add: request_document_def)
    ultimately show ?thesis using read_body_append [of "[]" max_bytes chunks] assms(2,3) by (simp split: if_splits)
  qed
  with pyjson.reads_back [OF assms(1)] benchmark_request_parses [OF assms(4-8)] show ?thesis
    by (simp add: read_command_def parse_body_def)
qed

lemma sendable_submitted:
  assumes "as_service st = Some (tok, s)"
    and "sendable frepr depth (cf_max_http_body_bytes (as_config st)) (sv_manifest s) model messages max_new_tokens"
    and "concat chunks = utf8 (json_text frepr (request_document model (map message_document messages) max_new_tokens))"
  shows "chat_submit srepr ops (json_loads reject_constant depth) completion_id chunks st =
    (case service_submit srepr ops tok (to_gateway_request completion_id (benchmark_command model messages max_new_tokens)) s of
       (res, s') \<Rightarrow> (map_sum id (Pair (benchmark_command model messages max_new_tokens)) res, st\<lparr>as_service := Some (tok, s')\<rparr>))"
proof -
  have "read_command (json_loads reject_constant depth) (cf_max_http_body_bytes (as_config st)) (sv_manifest s) chunks =
      Inr (benchmark_command model messages max_new_tokens)"
    using assms(2,3) by (intro benchmark_read_command) (simp_all add: sendable_def Let_def)
  with chat_submit_read [OF assms(1)] show ?thesis by simp
qed

section \<open>Samples\<close>

abbreviation sample_repr :: "rat \<Rightarrow> string" where
  "sample_repr \<equiv> \<lambda>_. ''1.0''"


definition sample_document :: "string \<Rightarrow> json" where
  "sample_document model = request_document model (map message_document [(''user'', ''hi'')]) 4"

lemma sample_sendable_doc:
  assumes "json_plain sample_repr (sample_document model)" "length (json_text sample_repr (sample_document model)) \<le> 200"
    and "model \<noteq> []"
  shows "sendable sample_repr 8 1048576 sample_manifest model [(''user'', ''hi'')] 4"
proof -
  have "json_depth (sample_document model) \<le> 8"
    by (simp add: sample_document_def request_document_def message_document_def)
  with assms show ?thesis unfolding sendable_def Let_def json_legible_def sample_document_def [symmetric]
    by (simp add: sample_manifest_def)
qed

lemma sample_plain: "json_plain sample_repr (sample_document ''m'')" by code_simp

lemma sample_plain_other: "json_plain sample_repr (sample_document ''x'')" by code_simp

lemma sample_length:
  "length (json_text sample_repr (sample_document ''m'')) \<le> 200" "length (json_text sample_repr (sample_document ''x'')) \<le> 200"
  by (simp_all add: sample_document_def request_document_def message_document_def quote_string_def escape_char_def
      show_int_def show_nat.simps)

lemma sample_sendable:
  "sendable sample_repr 8 1048576 sample_manifest ''m'' [(''user'', ''hi'')] 4"
  "sendable sample_repr 8 1048576 sample_manifest ''x'' [(''user'', ''hi'')] 4"
  by (rule sample_sendable_doc [OF sample_plain sample_length(1)], simp)
    (rule sample_sendable_doc [OF sample_plain_other sample_length(2)], simp)

lemma sample_documents:
  "stream_documents ''x'' 0 ''m'' True [''1'', ''2''] (passed_on sample_terminal) =
    [chat_completion_chunk_json ''x'' 0 ''m'' [(''role'', ''assistant'')] None,
     chat_completion_chunk_json ''x'' 0 ''m'' [(''content'', ''1'')] None,
     chat_completion_chunk_json ''x'' 0 ''m'' [(''content'', ''2'')] None,
     chat_completion_chunk_json ''x'' 0 ''m'' [] (Some ''stop''),
     usage_chunk_json ''x'' 0 ''m'' \<lparr>us_prompt_tokens = 2, us_completion_tokens = 2\<rparr>]"
  by (simp add: stream_documents_def passed_on_def sample_terminal_def status_ok_def Status_make_def openai_finish_reason_def)

lemma sample_readable:
  "list_all (readable sample_repr 8) (stream_documents ''x'' 0 ''m'' True [''1'', ''2''] (passed_on sample_terminal))"
proof -
  have "list_all (json_plain sample_repr) (stream_documents ''x'' 0 ''m'' True [''1'', ''2''] (passed_on sample_terminal))"
    unfolding sample_documents by code_simp
  moreover have "list_all (\<lambda>v. json_depth v \<le> 8) (stream_documents ''x'' 0 ''m'' True [''1'', ''2''] (passed_on sample_terminal))"
    unfolding sample_documents by code_simp
  moreover have "list_all (event_fits sample_repr) (stream_documents ''x'' 0 ''m'' True [''1'', ''2''] (passed_on sample_terminal))"
    unfolding sample_documents
    by (simp add: event_fits_def MAX_RESPONSE_BYTES_def chat_completion_chunk_json_def usage_chunk_json_def usage_json_def
        json_option_str_def quote_string_def escape_char_def show_int_def show_nat.simps)
  ultimately show ?thesis by (simp add: readable_def json_legible_def list_all_iff)
qed

lemma sample_benchmark_request:
  "to_gateway_request ''x'' (benchmark_command model [(''user'', ''hi'')] 4) = sample_gateway_request model"
  by (simp add: to_gateway_request_def benchmark_command_def sample_gateway_request_def)

lemma sample_submitted:
  obtains s1 where "service_submit id (generation_client_ops sample_env) (hugging_face_ops sample_tokenizer)
      (sample_gateway_request ''m'') sample_service = (Inr 0, s1)"
    and "sv_sessions s1 = [GatewaySession_init 1 2\<lparr>gs_started := True\<rparr>]"
proof -
  obtain s1 where sub: "service_submit id (generation_client_ops sample_env) (hugging_face_ops sample_tokenizer)
      (sample_gateway_request ''m'') sample_service = (Inr 0, s1)"
    using sample_submit_accepted [of id] by (metis prod.collapse)
  have s: "timeout_fits (sv_options sample_service)" "sv_sessions sample_service = []" "sv_next_request_id sample_service = 1"
    "sv_options sample_service = sample_options"
    by (simp_all add: sample_service_def GatewayService_init_def sample_timeout_fits)
  have "accepted_one 0 (upd_metrics metrics_offered sample_service) s1"
    by (rule gcc.service_submit_cases [OF s(1) sub]) simp_all
  with s have "sv_sessions s1 = [GatewaySession_init 1 2\<lparr>gs_started := True\<rparr>]"
    by (simp add: accepted_one_def opened_one_def upd_metrics_def sample_options_def)
  with sub show ?thesis by (rule that)
qed

lemma sample_rejection:
  "json_plain sample_repr (error_json (model_error id ''x''))" "json_depth (error_json (model_error id ''x'')) \<le> 8"
  by code_simp+

lemma sample_rejection_length: "length (json_text sample_repr (error_json (model_error id ''x''))) \<le> 300"
  by (simp add: error_json_def model_error_def GatewayError_make_def json_option_str_def quote_string_def escape_char_def)

section \<open>Properties\<close>

text \<open>
  C5. A whole exchange: the HTTP client of the repository sends its request to the chat endpoint, in
  whatever chunks the body arrives; if the submission is accepted and the session delivers
  \<open>texts\<close> and the terminal \<open>t\<close> to the response, what the client reports is what the session
  delivered: the concatenated texts, the finish reason and the token counts of a successful
  generation, or the code and the message of a failed one. Both sides parse JSON with the
  scanner of \<open>json.loads\<close>; the request and the events are UTF-8 and within the limits of the two sides.
\<close>

theorem benchmark_exchange:
  assumes "\<And>x. newline_free (frepr x)" and "\<And>b. concat (split b) = b"
    and "OpenAiSseClient_init frepr model (map message_document messages) max_new_tokens expected None = Inr variants"
    and "as_service st = Some (tok, s)"
    and "sendable frepr depth (cf_max_http_body_bytes (as_config st)) (sv_manifest s) model messages max_new_tokens"
    and "service_submit srepr ops tok (to_gateway_request completion_id (benchmark_command model messages max_new_tokens)) s =
      (Inr r, s1)"
    and "consume r rounds s1 = (texts, Completed t, s2)"
    and "list_all (readable frepr depth) (stream_documents completion_id created model True texts t)"
    and "0 \<le> us_prompt_tokens (gt_usage t)" and "0 \<le> us_completion_tokens (gt_usage t)"
  shows "run frepr srepr (json_loads default_constant depth) variants
      (\<lambda>body. served render other (fst (chat_completions srepr frepr ops (json_loads reject_constant depth)
         completion_id created (split body) rounds st))) request_id slow =
    reported expected texts t (RequestResult_make request_id slow 0 expected)"
proof -
  let ?body = "utf8 (json_text frepr (request_document model (map message_document messages) max_new_tokens))"
  have v: "variants = [(?body, expected)]" using assms(3) by (simp add: client_init_single)
  have sub: "chat_submit srepr ops (json_loads reject_constant depth) completion_id (split ?body) st =
      (Inr (benchmark_command model messages max_new_tokens, r), st\<lparr>as_service := Some (tok, s1)\<rparr>)"
    using sendable_submitted [OF assms(4,5), of "split ?body"] assms(2,6) by simp
  have reply: "served render other (fst (chat_completions srepr frepr ops (json_loads reject_constant depth)
        completion_id created (split ?body) rounds st)) =
      Inr (200, concat (fst (stream_chat_completion frepr completion_id created model True r rounds s1)))"
    by (cases "stream_chat_completion frepr completion_id created model True r rounds s1")
      (simp add: chat_completions_def sub served_def benchmark_command_def)
  have "run frepr srepr (json_loads default_constant depth) variants
      (\<lambda>_. Inr (200, concat (fst (stream_chat_completion frepr completion_id created model True r rounds s1)))) request_id slow =
    reported expected texts t (RequestResult_make request_id slow 0 expected)"
    using client_reads_stream [OF assms(1,7,8,9,10), of variants 0 request_id srepr slow] by (simp add: v)
  with reply show ?thesis by (simp add: run_def v)
qed

theorem benchmark_exchange_witness:
  "\<exists>variants. OpenAiSseClient_init sample_repr ''m'' [message_document (''user'', ''hi'')] 4 2 None = Inr variants \<and>
    run sample_repr id (json_loads default_constant 8) variants
      (\<lambda>body. served (\<lambda>_. []) (\<lambda>_. Inr (500, [])) (fst (chat_completions id sample_repr (generation_client_ops sample_env)
         (json_loads reject_constant 8) ''x'' 0 [body] sample_rounds sample_application))) 1 False =
    (RequestResult_make 1 False 0 2)\<lparr>rr_http_status := 200, rr_accepted := True, rr_output_text := ''12'',
      rr_finish_reason := ''stop'', rr_prompt_tokens := 2, rr_completion_tokens := 2, rr_outcome := ''completed'',
      rr_status_code := ''ok'', rr_protocol_valid := True\<rparr>"
proof -
  obtain s1 where s1: "service_submit id (generation_client_ops sample_env) (hugging_face_ops sample_tokenizer)
      (sample_gateway_request ''m'') sample_service = (Inr 0, s1)"
    "sv_sessions s1 = [GatewaySession_init 1 2\<lparr>gs_started := True\<rparr>]" by (rule sample_submitted)
  obtain s2 where s2: "consume 0 sample_rounds s1 = ([''1'', ''2''], Completed (passed_on sample_terminal), s2)"
    using sample_consume_from [OF s1(2)] by blast
  obtain variants where v: "OpenAiSseClient_init sample_repr ''m'' (map message_document [(''user'', ''hi'')]) 4 2 None = Inr variants"
    by (simp add: client_init_single)
  have app: "as_service sample_application = Some (hugging_face_ops sample_tokenizer, sample_service)"
    "cf_max_http_body_bytes (as_config sample_application) = 1048576" "sv_manifest sample_service = sample_manifest"
    by (simp_all add: sample_application_def sample_gateway_config_def sample_service_def GatewayService_init_def)
  have u: "gt_usage (passed_on sample_terminal) = \<lparr>us_prompt_tokens = 2, us_completion_tokens = 2\<rparr>"
    by (simp add: passed_on_def sample_terminal_def)
  have "run sample_repr id (json_loads default_constant 8) variants
      (\<lambda>body. served (\<lambda>_. []) (\<lambda>_. Inr (500, [])) (fst (chat_completions id sample_repr (generation_client_ops sample_env)
         (json_loads reject_constant 8) ''x'' 0 [body] sample_rounds sample_application))) 1 False =
    reported 2 [''1'', ''2''] (passed_on sample_terminal) (RequestResult_make 1 False 0 2)"
    by (rule benchmark_exchange [where split = "\<lambda>b. [b]", OF _ _ v app(1) _ s1(1) [folded sample_benchmark_request] s2 sample_readable])
      (simp_all add: u app(2,3) sample_sendable)
  with v show ?thesis
    by (simp add: reported_def u Let_def passed_on_def sample_terminal_def status_ok_def Status_make_def openai_finish_reason_def)
qed

text \<open>
  C19. A refused submission reaches the client as the error it is: the client reports the status and
  the error code of the \<open>GatewayError\<close> and no text.
\<close>

theorem benchmark_rejected:
  assumes "\<And>b. concat (split b) = b"
    and "OpenAiSseClient_init frepr model (map message_document messages) max_new_tokens expected None = Inr variants"
    and "as_service st = Some (tok, s)"
    and "sendable frepr depth (cf_max_http_body_bytes (as_config st)) (sv_manifest s) model messages max_new_tokens"
    and "service_submit srepr ops tok (to_gateway_request completion_id (benchmark_command model messages max_new_tokens)) s =
      (Inl (RaisedGatewayError g), s1)"
    and "json_loads default_constant depth (render (error_json g)) = Inr (error_json g)"
    and "length (render (error_json g)) \<le> MAX_RESPONSE_BYTES" "ge_http_status g \<noteq> 200"
  shows "run frepr srepr (json_loads default_constant depth) variants
      (\<lambda>body. served render other (fst (chat_completions srepr frepr ops (json_loads reject_constant depth)
         completion_id created (split body) rounds st))) request_id slow =
    (RequestResult_make request_id slow 0 expected)
      \<lparr>rr_http_status := ge_http_status g, rr_outcome := ''rejected'',
       rr_status_code := (if ge_code g = [] then ''http_'' @ show_int (ge_http_status g) else ge_code g),
       rr_protocol_valid := (400 \<le> ge_http_status g \<and> ge_http_status g < 600)\<rparr>"
proof -
  let ?body = "utf8 (json_text frepr (request_document model (map message_document messages) max_new_tokens))"
  have v: "variants = [(?body, expected)]" using assms(2) by (simp add: client_init_single)
  have sub: "chat_submit srepr ops (json_loads reject_constant depth) completion_id (split ?body) st =
      (Inl (RaisedGatewayError g), st\<lparr>as_service := Some (tok, s1)\<rparr>)"
    using sendable_submitted [OF assms(3,4), of "split ?body"] assms(1,5) by simp
  have code: "error_code (json_loads default_constant depth) (render (error_json g)) = Inr (ge_code g)"
    using assms(6) by (simp add: error_code_def error_json_def py_get_def)
  show ?thesis
    using assms(7,8)
    by (simp add: run_def v chat_completions_def sub served_def error_response_def read_response_def code RequestResult_make_def)
qed

theorem benchmark_rejected_witness:
  "\<exists>variants. OpenAiSseClient_init sample_repr ''x'' [message_document (''user'', ''hi'')] 4 2 None = Inr variants \<and>
    run sample_repr id (json_loads default_constant 8) variants
      (\<lambda>body. served (\<lambda>v. utf8 (json_text sample_repr v)) (\<lambda>_. Inr (500, []))
         (fst (chat_completions id sample_repr (generation_client_ops sample_env)
            (json_loads reject_constant 8) ''x'' 0 [body] sample_rounds sample_application))) 1 False =
    (RequestResult_make 1 False 0 2)\<lparr>rr_http_status := 404, rr_outcome := ''rejected'', rr_status_code := ''model_not_found'',
      rr_protocol_valid := True\<rparr>"
proof -
  let ?g = "model_error id ''x''"
  have s1: "service_submit id (generation_client_ops sample_env) (hugging_face_ops sample_tokenizer)
      (sample_gateway_request ''x'') sample_service =
      (Inl (RaisedGatewayError ?g), snd (service_submit id (generation_client_ops sample_env) (hugging_face_ops sample_tokenizer)
        (sample_gateway_request ''x'') sample_service))"
    by (simp add: service_submit_def submit_begin_def sample_service_def GatewayService_init_def upd_metrics_def
        sample_gateway_request_def sample_manifest_def Let_def)
  obtain variants where v: "OpenAiSseClient_init sample_repr ''x'' (map message_document [(''user'', ''hi'')]) 4 2 None = Inr variants"
    by (simp add: client_init_single)
  have app: "as_service sample_application = Some (hugging_face_ops sample_tokenizer, sample_service)"
    "cf_max_http_body_bytes (as_config sample_application) = 1048576" "sv_manifest sample_service = sample_manifest"
    by (simp_all add: sample_application_def sample_gateway_config_def sample_service_def GatewayService_init_def)
  have g: "ge_http_status ?g = 404" "ge_code ?g = ''model_not_found''" by (simp_all add: model_error_def GatewayError_make_def)
  have fits: "length (utf8 (json_text sample_repr (error_json ?g))) \<le> MAX_RESPONSE_BYTES"
    unfolding MAX_RESPONSE_BYTES_def using sample_rejection_length by simp
  have "sendable sample_repr 8 (cf_max_http_body_bytes (as_config sample_application)) (sv_manifest sample_service) ''x''
      [(''user'', ''hi'')] 4" using sample_sendable(2) by (simp only: app)
  from benchmark_rejected [where split = "\<lambda>b. [b]" and render = "\<lambda>v. utf8 (json_text sample_repr v)"
      and other = "\<lambda>_. Inr (500, [])" and created = 0 and rounds = sample_rounds and request_id = 1 and slow = False,
      OF _ v app(1) this s1 [folded sample_benchmark_request] json_loads_dumps [OF sample_rejection] fits] v
  show ?thesis unfolding g by simp
qed

end
