(* ===== verification/Worker_Admission.thy ===== *)
theory Worker_Admission
  imports Prelude "HOL-Library.Multiset"
begin

text \<open>
  The Worker's admission control (\<open>src/runtime/admission_controller.cpp\<close>): the budgets of active
  requests, input tokens and reserved output tokens behind \<open>tryAcquire\<close>, and the move-only leases
  that give them back. \<open>std::size_t\<close> and \<open>std::uint64_t\<close> are words of 64 bits, so that the sums
  and differences of the code wrap as they do there. The mutex makes each operation one step; a
  system state is the controller with the leases its clients hold, each in a slot.
\<close>

section \<open>Data\<close>

type_synonym size_t = "64 word"

record AdmissionConfig =
  max_active_requests :: size_t
  max_total_input_tokens :: size_t
  max_reserved_output_tokens :: size_t

record AdmissionRequest =
  aq_request_id :: size_t
  aq_input_tokens :: size_t
  aq_reserved_output_tokens :: size_t

definition AdmissionRequest_default :: AdmissionRequest where
  "AdmissionRequest_default = \<lparr>aq_request_id = 0, aq_input_tokens = 0, aq_reserved_output_tokens = 0\<rparr>"

record AdmissionState =
  ad_config :: AdmissionConfig
  ad_accepting :: bool
  active_request_ids :: "size_t set"
  reserved_input_tokens :: size_t
  reserved_output_tokens :: size_t

record AdmissionSnapshot =
  as_accepting :: bool
  as_active_requests :: size_t
  as_reserved_input_tokens :: size_t
  as_reserved_output_tokens :: size_t
  as_max_active_requests :: size_t
  as_max_total_input_tokens :: size_t
  as_max_reserved_output_tokens :: size_t

datatype AdmissionCode =
    Admitted
  | InvalidRequest
  | NotAccepting
  | DuplicateRequestId
  | ActiveRequestLimit
  | InputTokenLimit
  | OutputTokenLimit

text \<open>A lease; \<open>al_state\<close> says whether its shared pointer to the state is set. All leases of a model
  state belong to one controller.\<close>

record AdmissionLease =
  al_state :: bool
  al_request :: AdmissionRequest
  al_released :: bool

definition AdmissionLease_default :: AdmissionLease where
  "AdmissionLease_default = \<lparr>al_state = False, al_request = AdmissionRequest_default, al_released = True\<rparr>"

definition AdmissionLease_make :: "AdmissionRequest \<Rightarrow> AdmissionLease" where
  "AdmissionLease_make request = \<lparr>al_state = True, al_request = request, al_released = False\<rparr>"

definition lease_valid :: "AdmissionLease \<Rightarrow> bool" where
  "lease_valid l \<longleftrightarrow> al_state l \<and> \<not> al_released l"

section \<open>Leases\<close>

text \<open>What a released or moved-from lease is left with.\<close>

definition lease_emptied :: "AdmissionLease \<Rightarrow> AdmissionLease" where
  "lease_emptied l = l\<lparr>al_state := False, al_request := AdmissionRequest_default, al_released := True\<rparr>"

definition return_budget :: "AdmissionRequest \<Rightarrow> AdmissionState \<Rightarrow> AdmissionState" where
  "return_budget request s =
     (if aq_request_id request \<notin> active_request_ids s then s
      else s\<lparr>active_request_ids := active_request_ids s - {aq_request_id request},
             reserved_input_tokens := reserved_input_tokens s - aq_input_tokens request,
             reserved_output_tokens := reserved_output_tokens s - aq_reserved_output_tokens request\<rparr>)"

definition lease_release :: "AdmissionLease \<Rightarrow> AdmissionState \<Rightarrow> AdmissionLease \<times> AdmissionState" where
  "lease_release l s =
     (if \<not> lease_valid l then (l, s)
      else (lease_emptied l, return_budget (al_request l) s))"

text \<open>Moving out of a lease: the new object and what is left of the old one.\<close>

definition lease_move :: "AdmissionLease \<Rightarrow> AdmissionLease \<times> AdmissionLease" where
  "lease_move other = (other, lease_emptied other)"

text \<open>Move assignment between two distinct objects; on one object it does nothing.\<close>

definition lease_assign ::
  "AdmissionLease \<Rightarrow> AdmissionLease \<Rightarrow> AdmissionState \<Rightarrow> AdmissionLease \<times> AdmissionLease \<times> AdmissionState"
where
  "lease_assign this other s =
     (case lease_release this s of (this', s') \<Rightarrow>
        case lease_move other of (moved, left) \<Rightarrow> (moved, left, s'))"

section \<open>The controller\<close>

definition AdmissionController_init :: "AdmissionConfig \<Rightarrow> string + AdmissionState" where
  "AdmissionController_init config =
     (if max_active_requests config = 0 \<or> max_total_input_tokens config = 0 \<or>
         max_reserved_output_tokens config = 0
      then Inl ''admission capacity limits must be greater than zero''
      else Inr \<lparr>ad_config = config, ad_accepting = False, active_request_ids = {},
                reserved_input_tokens = 0, reserved_output_tokens = 0\<rparr>)"

definition admission_open :: "AdmissionState \<Rightarrow> bool \<times> AdmissionState" where
  "admission_open s =
     (if active_request_ids s \<noteq> {} \<or> reserved_input_tokens s \<noteq> 0 \<or> reserved_output_tokens s \<noteq> 0
      then (False, s)
      else (True, s\<lparr>ad_accepting := True\<rparr>))"

definition admission_close :: "AdmissionState \<Rightarrow> AdmissionState" where
  "admission_close s = s\<lparr>ad_accepting := False\<rparr>"

definition active_size :: "AdmissionState \<Rightarrow> size_t" where
  "active_size s = word_of_nat (card (active_request_ids s))"

definition reserve_budget :: "AdmissionRequest \<Rightarrow> AdmissionState \<Rightarrow> AdmissionState" where
  "reserve_budget request s =
     s\<lparr>active_request_ids := insert (aq_request_id request) (active_request_ids s),
       reserved_input_tokens := reserved_input_tokens s + aq_input_tokens request,
       reserved_output_tokens := reserved_output_tokens s + aq_reserved_output_tokens request\<rparr>"

definition tryAcquire ::
  "AdmissionRequest \<Rightarrow> AdmissionState \<Rightarrow> (AdmissionCode \<times> AdmissionLease) \<times> AdmissionState" where
  "tryAcquire request s =
     (let refuse = (\<lambda>code. ((code, AdmissionLease_default), s)) in
      if aq_request_id request = 0 \<or> aq_input_tokens request = 0 \<or> aq_reserved_output_tokens request = 0
      then refuse InvalidRequest
      else if \<not> ad_accepting s then refuse NotAccepting
      else if aq_request_id request \<in> active_request_ids s then refuse DuplicateRequestId
      else if active_size s \<ge> max_active_requests (ad_config s) then refuse ActiveRequestLimit
      else if aq_input_tokens request > max_total_input_tokens (ad_config s) - reserved_input_tokens s
      then refuse InputTokenLimit
      else if aq_reserved_output_tokens request
                > max_reserved_output_tokens (ad_config s) - reserved_output_tokens s
      then refuse OutputTokenLimit
      else ((Admitted, AdmissionLease_make request), reserve_budget request s))"

definition admitted :: "AdmissionCode \<times> AdmissionLease \<Rightarrow> bool" where
  "admitted d \<longleftrightarrow> fst d = Admitted \<and> lease_valid (snd d)"

definition admission_snapshot :: "AdmissionState \<Rightarrow> AdmissionSnapshot" where
  "admission_snapshot s =
     \<lparr>as_accepting = ad_accepting s,
      as_active_requests = active_size s,
      as_reserved_input_tokens = reserved_input_tokens s,
      as_reserved_output_tokens = reserved_output_tokens s,
      as_max_active_requests = max_active_requests (ad_config s),
      as_max_total_input_tokens = max_total_input_tokens (ad_config s),
      as_max_reserved_output_tokens = max_reserved_output_tokens (ad_config s)\<rparr>"

section \<open>The accounting invariant\<close>

text \<open>The outstanding leases as a multiset of requests, and what the controller's counters say of it.
  All sums are of natural numbers: the words have not wrapped.\<close>

definition input_total :: "AdmissionRequest multiset \<Rightarrow> nat" where
  "input_total H = (\<Sum>r\<in>#H. unat (aq_input_tokens r))"

definition output_total :: "AdmissionRequest multiset \<Rightarrow> nat" where
  "output_total H = (\<Sum>r\<in>#H. unat (aq_reserved_output_tokens r))"

definition request_positive :: "AdmissionRequest \<Rightarrow> bool" where
  "request_positive r \<longleftrightarrow>
     aq_request_id r \<noteq> 0 \<and> aq_input_tokens r \<noteq> 0 \<and> aq_reserved_output_tokens r \<noteq> 0"

definition within_limits :: "AdmissionConfig \<Rightarrow> AdmissionRequest multiset \<Rightarrow> bool" where
  "within_limits cfg H \<longleftrightarrow>
     size H \<le> unat (max_active_requests cfg) \<and>
     input_total H \<le> unat (max_total_input_tokens cfg) \<and>
     output_total H \<le> unat (max_reserved_output_tokens cfg)"

definition accounts :: "AdmissionState \<Rightarrow> AdmissionRequest multiset \<Rightarrow> bool" where
  "accounts s H \<longleftrightarrow>
     active_request_ids s = aq_request_id ` set_mset H \<and>
     card (aq_request_id ` set_mset H) = size H \<and>
     unat (reserved_input_tokens s) = input_total H \<and>
     unat (reserved_output_tokens s) = output_total H \<and>
     within_limits (ad_config s) H \<and>
     (\<forall>r\<in>#H. request_positive r)"

lemma totals_empty [simp]: "input_total {#} = 0" "output_total {#} = 0"
  by (simp_all add: input_total_def output_total_def)

lemma totals_add [simp]:
  "input_total (add_mset r H) = unat (aq_input_tokens r) + input_total H"
  "output_total (add_mset r H) = unat (aq_reserved_output_tokens r) + output_total H"
  by (simp_all add: input_total_def output_total_def)

text \<open>The comparison \<open>request > limit - current\<close> of the code is the exact one on numbers, without the
  overflow that \<open>current + request > limit\<close> would have.\<close>

lemma budget_exact:
  fixes q limit :: "64 word"
  assumes "unat current = n" and "n \<le> unat limit"
  shows "q > limit - current \<longleftrightarrow> n + unat q > unat limit"
proof -
  have "unat (limit - current) = unat limit - n"
    using assms by (simp add: unat_sub word_le_nat_alt)
  then show ?thesis
    using assms by (auto simp: word_less_nat_alt)
qed

lemma unat_bound: "unat (w :: 64 word) < 2 ^ 64"
  using unsigned_less [of w, where ?'a = nat] by simp

lemma reserve_exact:
  fixes q limit :: "64 word"
  assumes "unat current = n" and "n + unat q \<le> unat limit"
  shows "unat (current + q) = n + unat q"
proof -
  have "n + unat q < 2 ^ 64"
    using assms(2) unat_bound [of limit] by linarith
  then show ?thesis
    using assms(1) by (simp add: unat_word_ariths)
qed

lemma return_exact:
  fixes q limit :: "64 word"
  assumes "unat current = unat q + n"
  shows "unat (current - q) = n"
  using assms by (simp add: unat_sub word_le_nat_alt)

lemma active_size_exact: "accounts s H \<Longrightarrow> unat (active_size s) = size H"
proof -
  assume a: "accounts s H"
  then have "size H < 2 ^ 64"
    using unat_bound [of "max_active_requests (ad_config s)"]
    by (auto simp: accounts_def within_limits_def)
  with a show ?thesis
    by (simp add: active_size_def accounts_def unat_of_nat)
qed

text \<open>What \<open>tryAcquire\<close> answers, read off the outstanding leases.\<close>

definition acquire_code :: "AdmissionConfig \<Rightarrow> bool \<Rightarrow> AdmissionRequest multiset \<Rightarrow> AdmissionRequest \<Rightarrow> AdmissionCode" where
  "acquire_code cfg accepting H r =
     (if \<not> request_positive r then InvalidRequest
      else if \<not> accepting then NotAccepting
      else if aq_request_id r \<in> aq_request_id ` set_mset H then DuplicateRequestId
      else if size H + 1 > unat (max_active_requests cfg) then ActiveRequestLimit
      else if input_total (add_mset r H) > unat (max_total_input_tokens cfg) then InputTokenLimit
      else if output_total (add_mset r H) > unat (max_reserved_output_tokens cfg) then OutputTokenLimit
      else Admitted)"

lemma tryAcquire_code:
  assumes "accounts s H"
  shows "fst (fst (tryAcquire r s)) = acquire_code (ad_config s) (ad_accepting s) H r"
proof -
  have active: "active_size s \<ge> max_active_requests (ad_config s) \<longleftrightarrow>
      size H + 1 > unat (max_active_requests (ad_config s))"
    using active_size_exact [OF assms] by (auto simp: word_le_nat_alt)
  have input: "aq_input_tokens r > max_total_input_tokens (ad_config s) - reserved_input_tokens s
      \<longleftrightarrow> input_total (add_mset r H) > unat (max_total_input_tokens (ad_config s))"
    using budget_exact [of "reserved_input_tokens s" "input_total H"] assms
    by (simp add: accounts_def within_limits_def add.commute)
  have output_ok: "aq_reserved_output_tokens r
        > max_reserved_output_tokens (ad_config s) - reserved_output_tokens s
      \<longleftrightarrow> output_total (add_mset r H) > unat (max_reserved_output_tokens (ad_config s))"
    using budget_exact [of "reserved_output_tokens s" "output_total H"] assms
    by (simp add: accounts_def within_limits_def add.commute)
  have ids: "active_request_ids s = aq_request_id ` set_mset H"
    using assms by (simp add: accounts_def)
  show ?thesis
    unfolding tryAcquire_def acquire_code_def Let_def active input output_ok ids
    by (simp add: request_positive_def)
qed

lemma tryAcquire_result:
  "tryAcquire r s =
     (if fst (fst (tryAcquire r s)) = Admitted
      then ((Admitted, AdmissionLease_make r), reserve_budget r s)
      else ((fst (fst (tryAcquire r s)), AdmissionLease_default), s))"
  by (simp add: tryAcquire_def Let_def)

lemma admitted_code: "acquire_code cfg b H r = Admitted \<longleftrightarrow>
    request_positive r \<and> b \<and> aq_request_id r \<notin> aq_request_id ` set_mset H \<and> within_limits cfg (add_mset r H)"
  by (auto simp: acquire_code_def within_limits_def)

lemma reserve_accounts:
  assumes "accounts s H" and "acquire_code (ad_config s) b H r = Admitted"
  shows "accounts (reserve_budget r s) (add_mset r H)"
proof -
  have w: "within_limits (ad_config s) (add_mset r H)" and p: "request_positive r"
    and new: "aq_request_id r \<notin> active_request_ids s"
    using assms by (auto simp: admitted_code accounts_def)
  have "unat (reserved_input_tokens s + aq_input_tokens r) = input_total (add_mset r H)"
    using reserve_exact [of "reserved_input_tokens s" "input_total H" "aq_input_tokens r"
        "max_total_input_tokens (ad_config s)"] assms(1) w
    by (simp add: accounts_def within_limits_def add.commute)
  moreover have "unat (reserved_output_tokens s + aq_reserved_output_tokens r) = output_total (add_mset r H)"
    using reserve_exact [of "reserved_output_tokens s" "output_total H" "aq_reserved_output_tokens r"
        "max_reserved_output_tokens (ad_config s)"] assms(1) w
    by (simp add: accounts_def within_limits_def add.commute)
  moreover have "card (insert (aq_request_id r) (active_request_ids s)) = size (add_mset r H)"
    using assms(1) new by (simp add: accounts_def)
  ultimately show ?thesis
    using assms(1) w p by (simp add: accounts_def reserve_budget_def)
qed

lemma return_accounts:
  assumes "accounts s (add_mset r H)"
  shows "accounts (return_budget r s) H"
proof -
  have ids: "active_request_ids s = insert (aq_request_id r) (aq_request_id ` set_mset H)"
    and card: "card (active_request_ids s) = size H + 1"
    using assms unfolding accounts_def by auto
  have small: "card (aq_request_id ` set_mset H) \<le> size H"
    using card_image_le [of "set_mset H" aq_request_id] size_multiset_overloaded_eq [of H]
      sum_mono [of "set_mset H" "\<lambda>_. 1" "count H"] by (fastforce simp: count_greater_zero_iff Suc_le_eq)
  have new: "aq_request_id r \<notin> aq_request_id ` set_mset H"
    using small card unfolding ids by (auto simp: insert_absorb)
  have "unat (reserved_input_tokens s - aq_input_tokens r) = input_total H"
    using assms by (intro return_exact) (simp add: accounts_def)
  moreover have "unat (reserved_output_tokens s - aq_reserved_output_tokens r) = output_total H"
    using assms by (intro return_exact) (simp add: accounts_def)
  ultimately show ?thesis
    using assms card new
    by (auto simp: accounts_def return_budget_def ids within_limits_def)
qed

section \<open>The controller with its clients\<close>

text \<open>
  The steps of the controller and of the code that holds leases: \<open>Acquire r\<close> stores the lease of the
  decision in a new slot, \<open>Release i\<close> runs \<open>release\<close>, as the destructor of the slot does,
  \<open>Move i\<close> move-constructs a new slot, \<open>Assign i j\<close> move-assigns slot \<open>j\<close> to slot \<open>i\<close>. A slot that
  does not exist makes the step a no-op.
\<close>

datatype admission_op = Open | Close | Acquire AdmissionRequest | Release nat | Move nat | Assign nat nat

record Admission =
  controller :: AdmissionState
  leases :: "AdmissionLease list"

fun admission_step :: "admission_op \<Rightarrow> Admission \<Rightarrow> Admission" where
  "admission_step Open x = x\<lparr>controller := snd (admission_open (controller x))\<rparr>"
| "admission_step Close x = x\<lparr>controller := admission_close (controller x)\<rparr>"
| "admission_step (Acquire r) x =
     (case tryAcquire r (controller x) of ((code, lease), s) \<Rightarrow>
        x\<lparr>controller := s, leases := leases x @ [lease]\<rparr>)"
| "admission_step (Release i) x =
     (if i < length (leases x)
      then case lease_release (leases x ! i) (controller x) of (l, s) \<Rightarrow>
             x\<lparr>controller := s, leases := (leases x)[i := l]\<rparr>
      else x)"
| "admission_step (Move i) x =
     (if i < length (leases x)
      then case lease_move (leases x ! i) of (moved, left) \<Rightarrow>
             x\<lparr>leases := (leases x)[i := left] @ [moved]\<rparr>
      else x)"
| "admission_step (Assign i j) x =
     (if i < length (leases x) \<and> j < length (leases x) \<and> i \<noteq> j
      then case lease_assign (leases x ! i) (leases x ! j) (controller x) of (moved, left, s) \<Rightarrow>
             x\<lparr>controller := s, leases := (leases x)[i := moved, j := left]\<rparr>
      else x)"

definition admission_run :: "admission_op list \<Rightarrow> AdmissionState \<Rightarrow> Admission" where
  "admission_run ops s = fold admission_step ops \<lparr>controller = s, leases = []\<rparr>"

text \<open>The requests of the leases that are still valid.\<close>

definition held :: "AdmissionLease list \<Rightarrow> AdmissionRequest multiset" where
  "held ls = image_mset al_request (filter_mset lease_valid (mset ls))"

lemma lease_valid_simps [simp]:
  "lease_valid (AdmissionLease_make r)" "\<not> lease_valid AdmissionLease_default"
  "\<not> lease_valid (lease_emptied l)" "al_request (AdmissionLease_make r) = r"
  by (simp_all add: lease_valid_def AdmissionLease_make_def AdmissionLease_default_def lease_emptied_def)

lemma held_Nil [simp]: "held [] = {#}"
  by (simp add: held_def)

lemma held_snoc [simp]:
  "held (ls @ [l]) = (if lease_valid l then add_mset (al_request l) (held ls) else held ls)"
  by (simp add: held_def)

lemma held_split:
  assumes "i < length ls"
  shows "held ls = (if lease_valid (ls ! i) then add_mset (al_request (ls ! i)) else id) (held (ls[i := lease_emptied l]))"
proof -
  have "mset ls = add_mset (ls ! i) (mset (ls[i := lease_emptied l]) - {#lease_emptied l#})"
    using assms by (simp add: mset_update nth_mem_mset)
  moreover have "filter_mset lease_valid (mset (ls[i := lease_emptied l]) - {#lease_emptied l#})
      = filter_mset lease_valid (mset (ls[i := lease_emptied l]))"
    by (simp add: diff_single_trivial)
  ultimately show ?thesis
    by (simp add: held_def)
qed


lemma held_emptied:
  assumes "i < length ls"
  shows "lease_valid (ls ! i) \<Longrightarrow> held ls = add_mset (al_request (ls ! i)) (held (ls[i := lease_emptied l]))"
    and "\<not> lease_valid (ls ! i) \<Longrightarrow> held (ls[i := lease_emptied l]) = held ls"
  using held_split [OF assms, of l] by simp_all

lemma held_assign:
  assumes "i < length ls" "j < length ls" "i \<noteq> j" "\<not> lease_valid (ls ! i)"
  shows "held (ls[i := ls ! j, j := lease_emptied (ls ! j)]) = held ls"
proof -
  let ?e = "lease_emptied (ls ! j)"
  let ?swapped = "ls[i := ls ! j, j := ls ! i]"
  have "held (?swapped[j := ?e]) = held ?swapped"
    using assms by (intro held_emptied(2)) simp_all
  moreover have "mset ?swapped = mset ls"
    using assms by (simp add: mset_swap)
  ultimately show ?thesis
    by (simp add: held_def)
qed

lemma release_accounts:
  assumes "accounts s (held ls)" and "i < length ls" and "lease_release (ls ! i) s = (l, s')"
  shows "accounts s' (held (ls[i := l]))" and "\<not> lease_valid l"
proof -
  show "accounts s' (held (ls[i := l]))"
  proof (cases "lease_valid (ls ! i)")
    case True
    then show ?thesis
      using assms held_emptied(1) [OF assms(2), of "ls ! i"]
      by (auto simp: lease_release_def intro: return_accounts)
  next
    case False
    with assms show ?thesis by (auto simp: lease_release_def)
  qed
  show "\<not> lease_valid l"
    using assms(3) by (auto simp: lease_release_def split: if_splits)
qed

lemma open_accounts: "accounts s H \<Longrightarrow> accounts (snd (admission_open s)) H"
  by (auto simp: admission_open_def accounts_def)

lemma acquire_accounts:
  assumes "accounts s (held ls)" and "tryAcquire r s = ((code, lease), s')"
  shows "accounts s' (held (ls @ [lease]))"
proof (cases "code = Admitted")
  case True
  then have "acquire_code (ad_config s) (ad_accepting s) (held ls) r = Admitted"
    using tryAcquire_code [OF assms(1), of r] assms(2) by simp
  with True show ?thesis
    using reserve_accounts [OF assms(1)] tryAcquire_result [of r s] assms(2) by simp
next
  case False
  then show ?thesis
    using tryAcquire_result [of r s] assms by simp
qed

lemma assign_accounts:
  assumes "accounts s (held ls)" and "i < length ls" "j < length ls" "i \<noteq> j"
    and "lease_assign (ls ! i) (ls ! j) s = (moved, left, s')"
  shows "accounts s' (held (ls[i := moved, j := left]))"
proof -
  obtain l where l: "lease_release (ls ! i) s = (l, s')"
    and m: "moved = ls ! j" "left = lease_emptied (ls ! j)"
    using assms(5) by (auto simp: lease_assign_def lease_move_def split: prod.splits)
  have "held ((ls[i := l])[i := ls ! j, j := lease_emptied (ls ! j)]) = held (ls[i := l])"
    using held_assign [of i "ls[i := l]" j] assms(2-4) release_accounts(2) [OF assms(1,2) l] by simp
  with release_accounts(1) [OF assms(1,2) l] m show ?thesis by simp
qed

lemma step_accounts:
  assumes "accounts (controller x) (held (leases x))"
  shows "accounts (controller (admission_step op x)) (held (leases (admission_step op x)))"
proof (cases op)
  case Open
  with assms show ?thesis by (simp add: open_accounts)
next
  case Close
  with assms show ?thesis by (simp add: admission_close_def accounts_def)
next
  case (Acquire r)
  with assms show ?thesis by (auto split: prod.splits dest: acquire_accounts)
next
  case (Release i)
  with assms show ?thesis by (auto split: prod.splits dest: release_accounts(1))
next
  case (Move i)
  with assms show ?thesis
    using held_emptied [of i "leases x" "leases x ! i"] by (auto simp: lease_move_def)
next
  case (Assign i j)
  with assms show ?thesis by (auto split: prod.splits dest: assign_accounts)
qed

lemma step_config: "ad_config (controller (admission_step op x)) = ad_config (controller x)"
  by (cases op)
    (auto simp: admission_open_def admission_close_def tryAcquire_def Let_def reserve_budget_def
      lease_release_def return_budget_def lease_assign_def lease_move_def split: prod.splits if_splits)

lemma fold_accounts:
  "accounts (controller x) (held (leases x)) \<Longrightarrow>
     accounts (controller (fold admission_step ops x)) (held (leases (fold admission_step ops x))) \<and>
     ad_config (controller (fold admission_step ops x)) = ad_config (controller x)"
  by (induction ops arbitrary: x) (simp_all add: step_accounts step_config)

lemma init_accounts: "AdmissionController_init cfg = Inr s \<Longrightarrow> accounts s {#} \<and> ad_config s = cfg"
  by (auto simp: AdmissionController_init_def accounts_def within_limits_def split: if_splits)

lemma run_accounts:
  assumes "AdmissionController_init cfg = Inr s"
  shows "accounts (controller (admission_run ops s)) (held (leases (admission_run ops s)))"
    and "ad_config (controller (admission_run ops s)) = cfg"
  using fold_accounts [of "\<lparr>controller = s, leases = []\<rparr>" ops] init_accounts [OF assms]
  by (simp_all add: admission_run_def)

text \<open>Only a controller without outstanding leases opens.\<close>

lemma open_iff_idle: "accounts s H \<Longrightarrow> fst (admission_open s) \<longleftrightarrow> H = {#}"
  by (cases H) (auto simp: admission_open_def accounts_def unat_eq_zero)

section \<open>Properties\<close>

text \<open>
  C14. Whatever the clients of the controller do with it and with their leases (acquire, release more
  than once, move, move-assign over a live lease, open and close), its 64-bit counters are the exact
  sums over the valid leases, with no wrap-around and within the configured limits; the active ids
  are those of the valid leases, each held once; the next \<open>tryAcquire\<close> answers exactly by whether
  the request fits; and the controller reopens exactly when no lease is out.
\<close>

theorem admission_accounting:
  assumes "AdmissionController_init cfg = Inr s" and "x = admission_run ops s"
    and "H = held (leases x)"
  shows "unat (reserved_input_tokens (controller x)) = input_total H \<and>
         unat (reserved_output_tokens (controller x)) = output_total H \<and>
         unat (active_size (controller x)) = size H \<and> within_limits cfg H \<and>
         active_request_ids (controller x) = aq_request_id ` set_mset H \<and>
         card (aq_request_id ` set_mset H) = size H \<and>
         (\<forall>r. fst (fst (tryAcquire r (controller x))) = acquire_code cfg (ad_accepting (controller x)) H r) \<and>
         (fst (admission_open (controller x)) \<longleftrightarrow> H = {#})"
proof -
  have a: "accounts (controller x) H" and c: "ad_config (controller x) = cfg"
    using run_accounts [OF assms(1)] assms(2,3) by simp_all
  have "fst (fst (tryAcquire r (controller x))) = acquire_code cfg (ad_accepting (controller x)) H r" for r
    using tryAcquire_code [OF a] c by simp
  moreover have "fst (admission_open (controller x)) \<longleftrightarrow> H = {#}"
    by (rule open_iff_idle [OF a])
  ultimately show ?thesis
    using a c active_size_exact [OF a] by (simp add: accounts_def)
qed

definition sample_admission_config :: AdmissionConfig where
  "sample_admission_config =
     \<lparr>max_active_requests = 8, max_total_input_tokens = 4096, max_reserved_output_tokens = 256\<rparr>"

definition sample_admission :: AdmissionState where
  "sample_admission =
     \<lparr>ad_config = sample_admission_config, ad_accepting = False, active_request_ids = {},
      reserved_input_tokens = 0, reserved_output_tokens = 0\<rparr>"

definition sample_admission_ops :: "admission_op list" where
  "sample_admission_ops =
     [Open,
      Acquire \<lparr>aq_request_id = 1, aq_input_tokens = 4000, aq_reserved_output_tokens = 100\<rparr>,
      Acquire \<lparr>aq_request_id = 2, aq_input_tokens = 97, aq_reserved_output_tokens = 1\<rparr>,
      Move 0, Release 0, Release 2, Release 2,
      Acquire \<lparr>aq_request_id = 2, aq_input_tokens = 97, aq_reserved_output_tokens = 1\<rparr>]"

theorem admission_accounting_witness:
  "held (leases (admission_run sample_admission_ops sample_admission)) =
     {#\<lparr>aq_request_id = 2, aq_input_tokens = 97, aq_reserved_output_tokens = 1\<rparr>#} \<and>
   unat (reserved_input_tokens (controller (admission_run sample_admission_ops sample_admission))) = 97"
proof -
  have init: "AdmissionController_init sample_admission_config = Inr sample_admission"
    by (simp add: AdmissionController_init_def sample_admission_def sample_admission_config_def)
  have h: "held (leases (admission_run sample_admission_ops sample_admission)) =
     {#\<lparr>aq_request_id = 2, aq_input_tokens = 97, aq_reserved_output_tokens = 1\<rparr>#}"
    by code_simp
  show ?thesis
    using admission_accounting [OF init refl refl, of sample_admission_ops] h by simp
qed

end
