(* ===== verification/Worker_Egress.thy ===== *)
theory Worker_Egress
  imports Worker_Admission Worker_Frames
begin

text \<open>
  The Worker's outgoing queue of a session (\<open>src/worker/session_egress.cpp\<close>): a control queue with
  its own reserve, one queue per registered request served round-robin, and a byte reserve that keeps
  room for the terminal of every registered request. Counters are 64-bit words, as in the code. The
  mutex makes every operation one step, and \<open>waitPop\<close> is the check made when its wait ends. Of an
  enqueue result only the code is kept, not the message text. The JSON library's \<open>dump\<close> is a
  parameter, \<open>None\<close> where it throws.
\<close>

section \<open>Data\<close>

record SessionEgressConfig =
  max_frame_payload_bytes :: "32 word"
  max_session_frames :: "32 word"
  max_session_bytes :: size_t
  max_request_frames :: "32 word"
  max_request_bytes :: size_t
  control_reserve_frames :: "32 word"
  control_reserve_bytes :: size_t
  terminal_reserve_bytes :: size_t

datatype SessionEgressEnqueueCode =
    Enqueued
  | Stopped
  | DuplicateRequest
  | UnknownRequest
  | InvalidMessage
  | ControlFull
  | RequestFull
  | SessionFull

datatype SessionEgressWaitResult = WaitMessage ServerMessage | WaitTimeout | WaitStopped

record SizedMessage =
  sm_message :: ServerMessage
  sm_frame_bytes :: size_t

record RequestQueue =
  rq_messages :: "SizedMessage list"
  rq_queued_bytes :: size_t
  rq_scheduled :: bool
  rq_terminal_enqueued :: bool

definition RequestQueue_empty :: RequestQueue where
  "RequestQueue_empty =
     \<lparr>rq_messages = [], rq_queued_bytes = 0, rq_scheduled = False, rq_terminal_enqueued = False\<rparr>"

record SessionEgress =
  eg_config :: SessionEgressConfig
  eg_control :: "SizedMessage list"
  eg_requests :: "(size_t, RequestQueue) dict"
  eg_round_robin :: "size_t list"
  eg_control_frames :: size_t
  eg_control_bytes :: size_t
  eg_request_frames :: size_t
  eg_request_bytes :: size_t
  eg_terminal_reservations :: size_t
  eg_high_watermark_frames :: size_t
  eg_high_watermark_bytes :: size_t
  eg_accepting :: bool

record SessionEgressSnapshot =
  es_accepting :: bool
  es_queued_frames :: size_t
  es_queued_bytes :: size_t
  es_high_watermark_frames :: size_t
  es_high_watermark_bytes :: size_t
  es_registered_requests :: size_t
  es_reserved_terminal_frames :: size_t

section \<open>Configuration\<close>

definition requestFrameCapacity :: "SessionEgressConfig \<Rightarrow> size_t" where
  "requestFrameCapacity c = ucast (max_session_frames c) - ucast (control_reserve_frames c)"

definition requestByteCapacity :: "SessionEgressConfig \<Rightarrow> size_t" where
  "requestByteCapacity c = max_session_bytes c - control_reserve_bytes c"

definition validateConfiguration :: "SessionEgressConfig \<Rightarrow> string + unit" where
  "validateConfiguration c =
     rbind (guard (\<not> (max_frame_payload_bytes c = 0 \<or> max_session_frames c = 0 \<or> max_session_bytes c = 0 \<or>
                      max_request_frames c = 0 \<or> max_request_bytes c = 0 \<or> control_reserve_frames c = 0 \<or>
                      control_reserve_bytes c = 0 \<or> terminal_reserve_bytes c = 0))
              ''SessionEgress capacity values must be positive'') (\<lambda>_.
     rbind (guard (\<not> (control_reserve_frames c \<ge> max_session_frames c \<or>
                      control_reserve_bytes c \<ge> max_session_bytes c))
              ''SessionEgress control reserve must leave request capacity'') (\<lambda>_.
     rbind (guard (\<not> (ucast (max_request_frames c) > requestFrameCapacity c \<or>
                      max_request_bytes c > requestByteCapacity c))
              ''SessionEgress request capacity exceeds session data capacity'') (\<lambda>_.
     guard (\<not> terminal_reserve_bytes c > max_request_bytes c)
       ''SessionEgress Terminal reserve exceeds request capacity'')))"

definition fresh_egress :: "SessionEgressConfig \<Rightarrow> SessionEgress" where
  "fresh_egress c =
     \<lparr>eg_config = c, eg_control = [], eg_requests = [], eg_round_robin = [], eg_control_frames = 0,
      eg_control_bytes = 0, eg_request_frames = 0, eg_request_bytes = 0, eg_terminal_reservations = 0,
      eg_high_watermark_frames = 0, eg_high_watermark_bytes = 0, eg_accepting = True\<rparr>"

definition SessionEgress_init :: "SessionEgressConfig \<Rightarrow> string + SessionEgress" where
  "SessionEgress_init c = rbind (validateConfiguration c) (\<lambda>_. Inr (fresh_egress c))"

section \<open>Operations\<close>

definition encodePayload :: "(json \<Rightarrow> bytes option) \<Rightarrow> int \<Rightarrow> ServerMessage \<Rightarrow> bytes option" where
  "encodePayload dump epoch message =
     (if worker_message_valid epoch message then dump (messageJson epoch message) else None)"

definition sizeMessage :: "(json \<Rightarrow> bytes option) \<Rightarrow> int \<Rightarrow> 32 word \<Rightarrow> ServerMessage \<Rightarrow> SizedMessage option" where
  "sizeMessage dump epoch max_payload message =
     (case encodePayload dump epoch message of
        None \<Rightarrow> None
      | Some payload \<Rightarrow>
          (case encodeFrame payload max_payload of
             Inl _ \<Rightarrow> None
           | Inr frame \<Rightarrow> Some \<lparr>sm_message = message, sm_frame_bytes = word_of_nat (length frame)\<rparr>))"

definition updateHighWatermarks :: "SessionEgress \<Rightarrow> SessionEgress" where
  "updateHighWatermarks s =
     s\<lparr>eg_high_watermark_frames := max (eg_high_watermark_frames s) (eg_control_frames s + eg_request_frames s),
       eg_high_watermark_bytes := max (eg_high_watermark_bytes s) (eg_control_bytes s + eg_request_bytes s)\<rparr>"

definition removeScheduledRequest :: "size_t \<Rightarrow> SessionEgress \<Rightarrow> SessionEgress" where
  "removeScheduledRequest request_id s = s\<lparr>eg_round_robin := removeAll request_id (eg_round_robin s)\<rparr>"

definition size_of :: "'a list \<Rightarrow> size_t" where
  "size_of xs = word_of_nat (length xs)"

definition no_terminal_room :: "SessionEgress \<Rightarrow> bool" where
  "no_terminal_room s \<longleftrightarrow>
     eg_request_frames s + eg_terminal_reservations s + 1 > requestFrameCapacity (eg_config s) \<or>
     eg_request_bytes s + (eg_terminal_reservations s + 1) * terminal_reserve_bytes (eg_config s)
       > requestByteCapacity (eg_config s)"

definition registerRequest :: "size_t \<Rightarrow> SessionEgress \<Rightarrow> (Status + unit) \<times> SessionEgress" where
  "registerRequest request_id s =
     (if request_id = 0
      then (Inl (Status_make ''invalid_input'' ''SessionEgress request id must be positive''), s)
      else if \<not> eg_accepting s then (Inl (Status_make ''unavailable'' ''SessionEgress is stopped''), s)
      else if map_of (eg_requests s) request_id \<noteq> None
      then (Inl (Status_make ''already_exists'' ''SessionEgress request id is already registered''), s)
      else if no_terminal_room s
      then (Inl (Status_make ''queue_full'' ''SessionEgress cannot reserve capacity for another Terminal''), s)
      else (Inr (),
            s\<lparr>eg_requests := AList.update request_id RequestQueue_empty (eg_requests s),
              eg_terminal_reservations := eg_terminal_reservations s + 1\<rparr>))"

definition abandonRequest :: "size_t \<Rightarrow> SessionEgress \<Rightarrow> bool \<times> SessionEgress" where
  "abandonRequest request_id s =
     (case map_of (eg_requests s) request_id of
        None \<Rightarrow> (False, s)
      | Some q \<Rightarrow>
          let s1 = s\<lparr>eg_request_frames := eg_request_frames s - size_of (rq_messages q),
                     eg_request_bytes := eg_request_bytes s - rq_queued_bytes q,
                     eg_terminal_reservations :=
                       (if \<not> rq_terminal_enqueued q then eg_terminal_reservations s - 1
                        else eg_terminal_reservations s)\<rparr>
          in (True, (removeScheduledRequest request_id s1)\<lparr>eg_requests := AList.delete request_id (eg_requests s1)\<rparr>))"

fun is_control :: "ServerMessage \<Rightarrow> bool" where
  "is_control (MTokenDelta _) = False"
| "is_control (MTerminal _) = False"
| "is_control (MHelloAck _) = False"
| "is_control _ = True"

definition enqueueControl ::
  "(json \<Rightarrow> bytes option) \<Rightarrow> int \<Rightarrow> ServerMessage \<Rightarrow> SessionEgress \<Rightarrow> SessionEgressEnqueueCode \<times> SessionEgress" where
  "enqueueControl dump epoch message s =
     (if \<not> is_control message then (InvalidMessage, s)
      else case sizeMessage dump epoch (max_frame_payload_bytes (eg_config s)) message of
        None \<Rightarrow> (InvalidMessage, s)
      | Some sized \<Rightarrow>
          if \<not> eg_accepting s then (Stopped, s)
          else if eg_control_frames s + 1 > ucast (control_reserve_frames (eg_config s)) \<or>
                  sm_frame_bytes sized > control_reserve_bytes (eg_config s) - eg_control_bytes s
          then (ControlFull, s)
          else (Enqueued,
                updateHighWatermarks
                  (s\<lparr>eg_control_bytes := eg_control_bytes s + sm_frame_bytes sized,
                     eg_control_frames := eg_control_frames s + 1,
                     eg_control := eg_control s @ [sized]\<rparr>)))"

text \<open>The common end of the two request queues' enqueue operations: append, count, schedule.\<close>

definition append_message :: "size_t \<Rightarrow> RequestQueue \<Rightarrow> SizedMessage \<Rightarrow> SessionEgress \<Rightarrow> SessionEgress" where
  "append_message request_id q sized s =
     (let q1 = q\<lparr>rq_queued_bytes := rq_queued_bytes q + sm_frame_bytes sized,
                 rq_messages := rq_messages q @ [sized], rq_scheduled := True\<rparr>
      in updateHighWatermarks
           (s\<lparr>eg_requests := AList.update request_id q1 (eg_requests s),
              eg_request_frames := eg_request_frames s + 1,
              eg_request_bytes := eg_request_bytes s + sm_frame_bytes sized,
              eg_round_robin :=
                (if \<not> rq_scheduled q then eg_round_robin s @ [request_id] else eg_round_robin s)\<rparr>))"

definition enqueueDelta ::
  "(json \<Rightarrow> bytes option) \<Rightarrow> int \<Rightarrow> size_t \<Rightarrow> ServerMessage \<Rightarrow> SessionEgress \<Rightarrow> SessionEgressEnqueueCode \<times> SessionEgress"
where
  "enqueueDelta dump epoch request_id message s =
     (if \<not> (case message of MTokenDelta d \<Rightarrow> td_request_id d = uint request_id | _ \<Rightarrow> False) then (InvalidMessage, s)
      else case sizeMessage dump epoch (max_frame_payload_bytes (eg_config s)) message of
        None \<Rightarrow> (InvalidMessage, s)
      | Some sized \<Rightarrow>
          if \<not> eg_accepting s then (Stopped, s)
          else case map_of (eg_requests s) request_id of
            None \<Rightarrow> (UnknownRequest, s)
          | Some q \<Rightarrow>
              if rq_terminal_enqueued q then (InvalidMessage, s)
              else if size_of (rq_messages q) + 2 > ucast (max_request_frames (eg_config s)) \<or>
                      sm_frame_bytes sized + rq_queued_bytes q + terminal_reserve_bytes (eg_config s)
                        > max_request_bytes (eg_config s)
              then (RequestFull, s)
              else if eg_request_frames s + 1 + eg_terminal_reservations s > requestFrameCapacity (eg_config s) \<or>
                      sm_frame_bytes sized + eg_request_bytes s
                        + eg_terminal_reservations s * terminal_reserve_bytes (eg_config s)
                        > requestByteCapacity (eg_config s)
              then (SessionFull, s)
              else (Enqueued, append_message request_id q sized s))"

definition enqueueTerminal ::
  "(json \<Rightarrow> bytes option) \<Rightarrow> int \<Rightarrow> size_t \<Rightarrow> ServerMessage \<Rightarrow> SessionEgress \<Rightarrow> SessionEgressEnqueueCode \<times> SessionEgress"
where
  "enqueueTerminal dump epoch request_id message s =
     (if \<not> (case message of MTerminal t \<Rightarrow> tm_request_id t = uint request_id | _ \<Rightarrow> False) then (InvalidMessage, s)
      else case sizeMessage dump epoch (max_frame_payload_bytes (eg_config s)) message of
        None \<Rightarrow> (InvalidMessage, s)
      | Some sized \<Rightarrow>
          if \<not> eg_accepting s then (Stopped, s)
          else case map_of (eg_requests s) request_id of
            None \<Rightarrow> (UnknownRequest, s)
          | Some q \<Rightarrow>
              if rq_terminal_enqueued q then (InvalidMessage, s)
              else if sm_frame_bytes sized > terminal_reserve_bytes (eg_config s) then (InvalidMessage, s)
              else if size_of (rq_messages q) + 1 > ucast (max_request_frames (eg_config s)) \<or>
                      sm_frame_bytes sized > max_request_bytes (eg_config s) - rq_queued_bytes q
              then (RequestFull, s)
              else (Enqueued,
                    append_message request_id (q\<lparr>rq_terminal_enqueued := True\<rparr>) sized
                      (s\<lparr>eg_terminal_reservations := eg_terminal_reservations s - 1\<rparr>)))"

fun is_terminal :: "ServerMessage \<Rightarrow> bool" where
  "is_terminal (MTerminal _) = True"
| "is_terminal _ = False"

text \<open>The loop of \<open>waitPop\<close> over the round-robin queue \<open>rr\<close>.\<close>

fun pop_request :: "size_t list \<Rightarrow> SessionEgress \<Rightarrow> ServerMessage option \<times> SessionEgress" where
  "pop_request [] s = (None, s\<lparr>eg_round_robin := []\<rparr>)"
| "pop_request (request_id # rr) s =
     (case map_of (eg_requests s) request_id of
        None \<Rightarrow> pop_request rr s
      | Some q \<Rightarrow>
          (case rq_messages q of
             [] \<Rightarrow> pop_request rr s
           | queued # rest \<Rightarrow>
               let q1 = q\<lparr>rq_messages := rest, rq_queued_bytes := rq_queued_bytes q - sm_frame_bytes queued\<rparr>;
                   s1 = s\<lparr>eg_request_frames := eg_request_frames s - 1,
                          eg_request_bytes := eg_request_bytes s - sm_frame_bytes queued\<rparr>
               in (Some (sm_message queued),
                   if rest \<noteq> []
                   then s1\<lparr>eg_requests := AList.update request_id q1 (eg_requests s1),
                           eg_round_robin := rr @ [request_id]\<rparr>
                   else if is_terminal (sm_message queued)
                   then s1\<lparr>eg_requests := AList.delete request_id (eg_requests s1), eg_round_robin := rr\<rparr>
                   else s1\<lparr>eg_requests := AList.update request_id (q1\<lparr>rq_scheduled := False\<rparr>) (eg_requests s1),
                           eg_round_robin := rr\<rparr>)))"

definition egress_waitPop :: "int \<Rightarrow> SessionEgress \<Rightarrow> SessionEgressWaitResult \<times> SessionEgress" where
  "egress_waitPop timeout s =
     (if timeout < 0 then (WaitTimeout, s)
      else if eg_control s = [] \<and> eg_round_robin s = [] \<and> eg_accepting s then (WaitTimeout, s)
      else case eg_control s of
        queued # rest \<Rightarrow>
          (WaitMessage (sm_message queued),
           s\<lparr>eg_control := rest, eg_control_frames := eg_control_frames s - 1,
             eg_control_bytes := eg_control_bytes s - sm_frame_bytes queued\<rparr>)
      | [] \<Rightarrow>
          (case pop_request (eg_round_robin s) s of
             (Some message, s1) \<Rightarrow> (WaitMessage message, s1)
           | (None, s1) \<Rightarrow> (if eg_accepting s1 then WaitTimeout else WaitStopped, s1)))"

definition egress_stop :: "SessionEgress \<Rightarrow> SessionEgress" where
  "egress_stop s =
     (if \<not> eg_accepting s then s
      else s\<lparr>eg_accepting := False, eg_control := [], eg_requests := [], eg_round_robin := [],
             eg_control_frames := 0, eg_control_bytes := 0, eg_request_frames := 0, eg_request_bytes := 0,
             eg_terminal_reservations := 0\<rparr>)"

definition egress_snapshot :: "SessionEgress \<Rightarrow> SessionEgressSnapshot" where
  "egress_snapshot s =
     \<lparr>es_accepting = eg_accepting s,
      es_queued_frames = eg_control_frames s + eg_request_frames s,
      es_queued_bytes = eg_control_bytes s + eg_request_bytes s,
      es_high_watermark_frames = eg_high_watermark_frames s,
      es_high_watermark_bytes = eg_high_watermark_bytes s,
      es_registered_requests = size_of (eg_requests s),
      es_reserved_terminal_frames = eg_terminal_reservations s\<rparr>"

section \<open>Runs\<close>

datatype egress_op =
    Register size_t
  | Abandon size_t
  | Control ServerMessage
  | Delta size_t ServerMessage
  | Final size_t ServerMessage
  | Pop
  | StopEgress

fun egress_step :: "(json \<Rightarrow> bytes option) \<Rightarrow> int \<Rightarrow> egress_op \<Rightarrow> SessionEgress \<Rightarrow> SessionEgress" where
  "egress_step dump epoch (Register i) s = snd (registerRequest i s)"
| "egress_step dump epoch (Abandon i) s = snd (abandonRequest i s)"
| "egress_step dump epoch (Control m) s = snd (enqueueControl dump epoch m s)"
| "egress_step dump epoch (Delta i m) s = snd (enqueueDelta dump epoch i m s)"
| "egress_step dump epoch (Final i m) s = snd (enqueueTerminal dump epoch i m s)"
| "egress_step dump epoch Pop s = snd (egress_waitPop 0 s)"
| "egress_step dump epoch StopEgress s = egress_stop s"

definition egress_run :: "(json \<Rightarrow> bytes option) \<Rightarrow> int \<Rightarrow> egress_op list \<Rightarrow> SessionEgressConfig \<Rightarrow> SessionEgress" where
  "egress_run dump epoch ops c = fold (egress_step dump epoch) ops (fresh_egress c)"

section \<open>The invariant\<close>

text \<open>Sums over the request queues, and the share of each queue in the session's counters; \<open>reserve\<close> is
  the terminal slot a request without its terminal still holds.\<close>

definition total :: "('q \<Rightarrow> nat) \<Rightarrow> ('k, 'q) dict \<Rightarrow> nat" where
  "total f d = (\<Sum>(k, q)\<leftarrow>d. f q)"

definition bytes_of :: "SizedMessage list \<Rightarrow> nat" where
  "bytes_of ms = (\<Sum>m\<leftarrow>ms. unat (sm_frame_bytes m))"

definition q_frames :: "RequestQueue \<Rightarrow> nat" where
  "q_frames q = length (rq_messages q)"

definition q_bytes :: "RequestQueue \<Rightarrow> nat" where
  "q_bytes q = bytes_of (rq_messages q)"

definition reserve :: "RequestQueue \<Rightarrow> nat" where
  "reserve q = (if rq_terminal_enqueued q then 0 else 1)"

text \<open>Only the last message of a queue is a terminal, and it is there when the queue says so.\<close>

definition queue_shape :: "RequestQueue \<Rightarrow> bool" where
  "queue_shape q \<longleftrightarrow>
     (if rq_terminal_enqueued q
      then rq_messages q \<noteq> [] \<and> is_terminal (sm_message (last (rq_messages q))) \<and>
           (\<forall>m\<in>set (butlast (rq_messages q)). \<not> is_terminal (sm_message m))
      else \<forall>m\<in>set (rq_messages q). \<not> is_terminal (sm_message m))"

definition queue_ok :: "SessionEgressConfig \<Rightarrow> RequestQueue \<Rightarrow> bool" where
  "queue_ok c q \<longleftrightarrow>
     unat (rq_queued_bytes q) = q_bytes q \<and>
     q_frames q + reserve q \<le> unat (max_request_frames c) \<and>
     q_bytes q + reserve q * unat (terminal_reserve_bytes c) \<le> unat (max_request_bytes c) \<and>
     (rq_scheduled q \<longleftrightarrow> rq_messages q \<noteq> []) \<and> queue_shape q"

definition schedule_ok :: "SessionEgress \<Rightarrow> bool" where
  "schedule_ok s \<longleftrightarrow>
     distinct (eg_round_robin s) \<and>
     (\<forall>i. i \<in> set (eg_round_robin s) \<longleftrightarrow> (\<exists>q. map_of (eg_requests s) i = Some q \<and> rq_scheduled q))"

definition control_ok :: "SessionEgress \<Rightarrow> bool" where
  "control_ok s \<longleftrightarrow>
     unat (eg_control_frames s) = length (eg_control s) \<and>
     length (eg_control s) \<le> unat (control_reserve_frames (eg_config s)) \<and>
     unat (eg_control_bytes s) = bytes_of (eg_control s) \<and>
     bytes_of (eg_control s) \<le> unat (control_reserve_bytes (eg_config s))"

definition requests_ok :: "SessionEgress \<Rightarrow> bool" where
  "requests_ok s \<longleftrightarrow>
     unat (eg_request_frames s) = total q_frames (eg_requests s) \<and>
     unat (eg_request_bytes s) = total q_bytes (eg_requests s) \<and>
     unat (eg_terminal_reservations s) = total reserve (eg_requests s) \<and>
     total q_frames (eg_requests s) + total reserve (eg_requests s) \<le> unat (requestFrameCapacity (eg_config s)) \<and>
     total q_bytes (eg_requests s) + total reserve (eg_requests s) * unat (terminal_reserve_bytes (eg_config s))
       \<le> unat (requestByteCapacity (eg_config s))"

definition egress_inv :: "SessionEgress \<Rightarrow> bool" where
  "egress_inv s \<longleftrightarrow>
     dict_ok (eg_requests s) \<and> (\<forall>i q. map_of (eg_requests s) i = Some q \<longrightarrow> queue_ok (eg_config s) q) \<and>
     schedule_ok s \<and> control_ok s \<and> requests_ok s"

text \<open>A configuration that the constructor accepts, with a session budget below \<open>2^62\<close> bytes, so that
  the sums of the code stay below \<open>2^64\<close>.\<close>

definition config_ok :: "SessionEgressConfig \<Rightarrow> bool" where
  "config_ok c \<longleftrightarrow> validateConfiguration c = Inr () \<and> unat (max_session_bytes c) < 2 ^ 62"

subsection \<open>Sums over dictionaries\<close>

lemma total_simps [simp]: "total f [] = 0" "total f ((k, q) # d) = f q + total f d"
  by (simp_all add: total_def)

lemma total_update_new: "map_of d k = None \<Longrightarrow> total f (AList.update k q d) = total f d + f q"
  by (induction d) auto

lemma total_update:
  "map_of d k = Some q \<Longrightarrow> total f (AList.update k q' d) + f q = total f d + f q'"
  by (induction d) auto

lemma total_delete:
  "dict_ok d \<Longrightarrow> map_of d k = Some q \<Longrightarrow> total f d = f q + total f (AList.delete k d)"
proof (induction d)
  case (Cons e d)
  then show ?case
    by (cases e) (auto simp: dict_ok_def split: if_splits)
qed simp

lemma total_le: "map_of d k = Some q \<Longrightarrow> f q \<le> total f d"
  by (induction d) (auto split: if_splits)

lemma bytes_of_simps [simp]:
  "bytes_of [] = 0" "bytes_of (m # ms) = unat (sm_frame_bytes m) + bytes_of ms"
  "bytes_of (ms @ ms') = bytes_of ms + bytes_of ms'"
  by (simp_all add: bytes_of_def)

subsection \<open>Exact arithmetic\<close>

lemma add_exact:
  fixes a b :: "64 word"
  shows "unat a + unat b < 2 ^ 64 \<Longrightarrow> unat (a + b) = unat a + unat b"
  by (simp add: unat_word_ariths)

lemma mult_exact:
  fixes a b :: "64 word"
  shows "unat a * unat b < 2 ^ 64 \<Longrightarrow> unat (a * b) = unat a * unat b"
  by (simp add: unat_word_ariths)

lemma sub_exact:
  fixes a b :: "64 word"
  shows "unat b \<le> unat a \<Longrightarrow> unat (a - b) = unat a - unat b"
  by (simp add: unat_sub word_le_nat_alt)

lemma unat_ucast64: "unat (ucast (w :: 32 word) :: 64 word) = unat w"
  by (simp add: unsigned_ucast_eq take_bit_nat_eq_self_iff) (use unsigned_less [of w, where ?'a = nat] in simp)

lemma unat_bound32: "unat (w :: 32 word) < 2 ^ 32"
  using unsigned_less [of w, where ?'a = nat] by simp

lemma config_bounds:
  assumes "config_ok c"
  shows "unat (requestFrameCapacity c) + unat (control_reserve_frames c) = unat (max_session_frames c)"
    and "unat (requestByteCapacity c) + unat (control_reserve_bytes c) = unat (max_session_bytes c)"
    and "unat (max_request_frames c) \<le> unat (requestFrameCapacity c)"
    and "unat (max_request_bytes c) \<le> unat (requestByteCapacity c)"
    and "unat (terminal_reserve_bytes c) \<le> unat (max_request_bytes c)"
    and "0 < unat (max_request_frames c)"
    and "unat (max_session_frames c) < 2 ^ 32" and "unat (max_session_bytes c) < 2 ^ 62"
proof -
  have v: "control_reserve_frames c < max_session_frames c" "control_reserve_bytes c < max_session_bytes c"
    "ucast (max_request_frames c) \<le> requestFrameCapacity c" "max_request_bytes c \<le> requestByteCapacity c"
    "terminal_reserve_bytes c \<le> max_request_bytes c" "max_request_frames c \<noteq> 0"
    using assms by (auto simp: config_ok_def validateConfiguration_def result_simps)
  show "unat (requestFrameCapacity c) + unat (control_reserve_frames c) = unat (max_session_frames c)"
    using v(1) by (simp add: requestFrameCapacity_def sub_exact unat_ucast64 word_less_nat_alt)
  show "unat (requestByteCapacity c) + unat (control_reserve_bytes c) = unat (max_session_bytes c)"
    using v(2) by (simp add: requestByteCapacity_def sub_exact word_less_nat_alt)
  show "unat (max_request_frames c) \<le> unat (requestFrameCapacity c)"
    using v(3) by (simp add: word_le_nat_alt unat_ucast64)
  show "unat (max_request_bytes c) \<le> unat (requestByteCapacity c)"
    "unat (terminal_reserve_bytes c) \<le> unat (max_request_bytes c)"
    using v(4,5) by (simp_all add: word_le_nat_alt)
  show "0 < unat (max_request_frames c)"
    using v(6) by (simp add: unat_gt_0)
  show "unat (max_session_frames c) < 2 ^ 32" by (rule unat_bound32)
  show "unat (max_session_bytes c) < 2 ^ 62"
    using assms by (simp add: config_ok_def)
qed

subsection \<open>Preservation\<close>

lemma egress_invD:
  assumes "egress_inv s"
  shows "dict_ok (eg_requests s)" "map_of (eg_requests s) i = Some q \<Longrightarrow> queue_ok (eg_config s) q"
    "schedule_ok s" "control_ok s" "requests_ok s"
  using assms by (auto simp: egress_inv_def)

lemma totals_bounded:
  assumes "requests_ok s" and "config_ok (eg_config s)"
  shows "total q_frames (eg_requests s) + total reserve (eg_requests s) < 2 ^ 32"
    and "total q_bytes (eg_requests s) + total reserve (eg_requests s) * unat (terminal_reserve_bytes (eg_config s)) < 2 ^ 62"
    and "unat (terminal_reserve_bytes (eg_config s)) < 2 ^ 62"
  using assms(1) config_bounds [OF assms(2)] by (auto simp: requests_ok_def)

lemma frames_sum_exact:
  assumes "requests_ok s" and "config_ok (eg_config s)"
  shows "unat (eg_request_frames s + eg_terminal_reservations s + 1) =
      total q_frames (eg_requests s) + total reserve (eg_requests s) + 1"
    and "unat (eg_request_frames s + 1 + eg_terminal_reservations s) =
      total q_frames (eg_requests s) + 1 + total reserve (eg_requests s)"
    and "unat (eg_request_frames s + 1) = total q_frames (eg_requests s) + 1"
    and "unat (eg_terminal_reservations s + 1) = total reserve (eg_requests s) + 1"
  using assms(1) totals_bounded(1) [OF assms] by (simp_all add: requests_ok_def add_exact)

lemma bytes_sum_exact:
  assumes "requests_ok s" and "config_ok (eg_config s)"
  shows "unat (eg_request_bytes s + (eg_terminal_reservations s + 1) * terminal_reserve_bytes (eg_config s)) =
      total q_bytes (eg_requests s) + (total reserve (eg_requests s) + 1) * unat (terminal_reserve_bytes (eg_config s))"
    and "unat n < 2 ^ 62 \<Longrightarrow>
      unat (n + eg_request_bytes s + eg_terminal_reservations s * terminal_reserve_bytes (eg_config s)) =
      unat n + total q_bytes (eg_requests s) + total reserve (eg_requests s) * unat (terminal_reserve_bytes (eg_config s))"
    and "unat n < 2 ^ 62 \<Longrightarrow> unat (eg_request_bytes s + n) = total q_bytes (eg_requests s) + unat n"
proof -
  note b = totals_bounded [OF assms]
  have r: "unat (eg_terminal_reservations s + 1) = total reserve (eg_requests s) + 1"
    by (rule frames_sum_exact(4) [OF assms])
  have w: "unat (eg_request_bytes s) = total q_bytes (eg_requests s)"
    "unat (eg_terminal_reservations s) = total reserve (eg_requests s)"
    using assms(1) by (simp_all add: requests_ok_def)
  have m: "unat ((eg_terminal_reservations s + 1) * terminal_reserve_bytes (eg_config s)) =
      (total reserve (eg_requests s) + 1) * unat (terminal_reserve_bytes (eg_config s))"
    using b r by (subst mult_exact) (simp_all add: algebra_simps)
  show "unat (eg_request_bytes s + (eg_terminal_reservations s + 1) * terminal_reserve_bytes (eg_config s)) =
      total q_bytes (eg_requests s) + (total reserve (eg_requests s) + 1) * unat (terminal_reserve_bytes (eg_config s))"
    using b m w by (subst add_exact) (simp_all add: algebra_simps)
  have m0: "unat (eg_terminal_reservations s * terminal_reserve_bytes (eg_config s)) =
      total reserve (eg_requests s) * unat (terminal_reserve_bytes (eg_config s))"
    using b w by (subst mult_exact) simp_all
  show n: "unat (eg_request_bytes s + n) = total q_bytes (eg_requests s) + unat n" if "unat n < 2 ^ 62"
    using b w that by (subst add_exact) simp_all
  show "unat (n + eg_request_bytes s + eg_terminal_reservations s * terminal_reserve_bytes (eg_config s)) =
      unat n + total q_bytes (eg_requests s) + total reserve (eg_requests s) * unat (terminal_reserve_bytes (eg_config s))"
    if "unat n < 2 ^ 62"
    using n [OF that] b m0 that by (subst add_exact) (simp_all add: add.commute)
qed

lemma no_terminal_room_exact:
  assumes "requests_ok s" and "config_ok (eg_config s)"
  shows "no_terminal_room s \<longleftrightarrow>
     total q_frames (eg_requests s) + total reserve (eg_requests s) + 1 > unat (requestFrameCapacity (eg_config s)) \<or>
     total q_bytes (eg_requests s) + (total reserve (eg_requests s) + 1) * unat (terminal_reserve_bytes (eg_config s))
       > unat (requestByteCapacity (eg_config s))"
  unfolding no_terminal_room_def word_less_nat_alt
  by (simp only: frames_sum_exact(1) [OF assms] bytes_sum_exact(1) [OF assms])

lemma queue_sums_empty [simp]:
  "q_frames RequestQueue_empty = 0" "q_bytes RequestQueue_empty = 0" "reserve RequestQueue_empty = 1"
  "\<not> rq_scheduled RequestQueue_empty"
  by (simp_all add: q_frames_def q_bytes_def reserve_def RequestQueue_empty_def)

lemma empty_queue_ok: "config_ok c \<Longrightarrow> queue_ok c RequestQueue_empty"
  using config_bounds [of c]
  by (simp add: queue_ok_def queue_shape_def) (simp add: RequestQueue_empty_def)

lemma register_inv:
  assumes inv: "egress_inv s" and c: "config_ok (eg_config s)"
  shows "egress_inv (snd (registerRequest i s))"
proof (cases "registerRequest i s")
  case (Pair res s')
  show ?thesis
  proof (cases res)
    case (Inl e)
    with Pair have "s' = s" by (auto simp: registerRequest_def split: if_splits)
    with inv Pair show ?thesis by simp
  next
    case (Inr u)
    with Pair have none: "map_of (eg_requests s) i = None" and room: "\<not> no_terminal_room s"
      and s': "s' = s\<lparr>eg_requests := AList.update i RequestQueue_empty (eg_requests s),
              eg_terminal_reservations := eg_terminal_reservations s + 1\<rparr>"
      by (auto simp: registerRequest_def split: if_splits)
    note ok = egress_invD [OF inv]
    have "requests_ok s'"
      using ok(5) room frames_sum_exact(4) [OF ok(5) c]
      unfolding no_terminal_room_exact [OF ok(5) c]
      by (simp add: requests_ok_def s' total_update_new [OF none] algebra_simps)
    moreover have "schedule_ok s'"
      using ok(3) none by (auto simp: schedule_ok_def s' map_of_update_dict)
    ultimately show ?thesis
      using ok empty_queue_ok [OF c] Pair
      by (auto simp: egress_inv_def s' control_ok_def map_of_update_dict split: if_splits)
  qed
qed

lemma delete_queue_inv:
  assumes inv: "egress_inv s" and q: "map_of (eg_requests s) i = Some q"
    and s': "eg_requests s' = AList.delete i (eg_requests s)"
      "eg_config s' = eg_config s" "eg_control s' = eg_control s"
      "eg_control_frames s' = eg_control_frames s" "eg_control_bytes s' = eg_control_bytes s"
      "eg_request_frames s' = eg_request_frames s - word_of_nat (q_frames q)"
      "eg_request_bytes s' = eg_request_bytes s - rq_queued_bytes q"
      "eg_terminal_reservations s' = eg_terminal_reservations s - word_of_nat (reserve q)"
      "eg_round_robin s' = removeAll i (eg_round_robin s)"
    and c: "config_ok (eg_config s)"
  shows "egress_inv s'"
proof -
  note ok = egress_invD [OF inv]
  have t: "total f (eg_requests s) = f q + total f (AList.delete i (eg_requests s))" for f
    by (rule total_delete [OF ok(1) q])
  have fr: "unat (word_of_nat (q_frames q) :: 64 word) = q_frames q"
    and re: "unat (word_of_nat (reserve q) :: 64 word) = reserve q"
    using totals_bounded(1) [OF ok(5) c] t [of q_frames] t [of reserve] by (simp_all add: unat_of_nat)
  have "unat (rq_queued_bytes q) = q_bytes q"
    using ok(2) [OF q] by (simp add: queue_ok_def)
  then have "requests_ok s'"
    using ok(5) t [of q_frames] t [of reserve] t [of q_bytes] fr re
    by (simp add: requests_ok_def s' sub_exact algebra_simps)
  moreover have "schedule_ok s'"
    using ok(3) by (auto simp: schedule_ok_def s' map_of_delete_dict distinct_removeAll)
  ultimately show ?thesis
    using ok by (auto simp: egress_inv_def s' control_ok_def map_of_delete_dict split: if_splits)
qed

lemma abandon_inv:
  assumes inv: "egress_inv s" and c: "config_ok (eg_config s)"
  shows "egress_inv (snd (abandonRequest i s))"
proof (cases "map_of (eg_requests s) i")
  case None
  with inv show ?thesis by (simp add: abandonRequest_def)
next
  case (Some q)
  show ?thesis
    by (rule delete_queue_inv [OF inv Some _ _ _ _ _ _ _ _ _ c])
      (simp_all add: abandonRequest_def Some Let_def removeScheduledRequest_def size_of_def q_frames_def reserve_def)
qed

lemma sizeMessage_Some:
  assumes "sizeMessage dump epoch mx m = Some sized"
  shows "sm_message sized = m" "unat (sm_frame_bytes sized) < 2 ^ 33" "worker_message_valid epoch m"
proof -
  obtain payload frame where p: "encodePayload dump epoch m = Some payload" "encodeFrame payload mx = Inr frame"
    and sized: "sized = \<lparr>sm_message = m, sm_frame_bytes = word_of_nat (length frame)\<rparr>"
    using assms by (auto simp: sizeMessage_def split: option.splits sum.splits)
  have "length frame < 2 ^ 33"
    using p(2) by (auto simp: encodeFrame_def Let_def split: if_splits)
  then show "unat (sm_frame_bytes sized) < 2 ^ 33"
    by (simp add: sized unat_of_nat)
  show "sm_message sized = m" by (simp add: sized)
  show "worker_message_valid epoch m"
    using p(1) by (simp add: encodePayload_def split: if_splits)
qed

lemma watermarks_inv [simp]: "egress_inv (updateHighWatermarks s) \<longleftrightarrow> egress_inv s"
  by (simp add: updateHighWatermarks_def egress_inv_def schedule_ok_def control_ok_def requests_ok_def)

lemma control_inv:
  assumes inv: "egress_inv s" and c: "config_ok (eg_config s)"
  shows "egress_inv (snd (enqueueControl dump epoch m s))"
proof (cases "fst (enqueueControl dump epoch m s) = Enqueued")
  case False
  then have "snd (enqueueControl dump epoch m s) = s"
    by (auto simp: enqueueControl_def split: if_splits option.splits)
  with inv show ?thesis by simp
next
  case True
  then obtain sized where room: "\<not> eg_control_frames s + 1 > ucast (control_reserve_frames (eg_config s))"
      "\<not> sm_frame_bytes sized > control_reserve_bytes (eg_config s) - eg_control_bytes s"
    and s': "snd (enqueueControl dump epoch m s) = updateHighWatermarks
                  (s\<lparr>eg_control_bytes := eg_control_bytes s + sm_frame_bytes sized,
                     eg_control_frames := eg_control_frames s + 1,
                     eg_control := eg_control s @ [sized]\<rparr>)"
    by (auto simp: enqueueControl_def split: if_splits option.splits)
  note ok = egress_invD [OF inv]
  have ctl: "unat (eg_control_frames s) = length (eg_control s)"
    "length (eg_control s) \<le> unat (control_reserve_frames (eg_config s))"
    "unat (eg_control_bytes s) = bytes_of (eg_control s)"
    "bytes_of (eg_control s) \<le> unat (control_reserve_bytes (eg_config s))"
    using ok(4) by (simp_all add: control_ok_def)
  have f: "unat (eg_control_frames s + 1) = length (eg_control s) + 1"
    using ctl unat_bound32 [of "control_reserve_frames (eg_config s)"] by (subst add_exact) simp_all
  have b: "bytes_of (eg_control s) + unat (sm_frame_bytes sized) \<le> unat (control_reserve_bytes (eg_config s))"
    using room(2) budget_exact [OF ctl(3,4)] by simp
  have e: "unat (eg_control_bytes s + sm_frame_bytes sized) = bytes_of (eg_control s) + unat (sm_frame_bytes sized)"
    by (rule reserve_exact [OF ctl(3) b])
  show ?thesis
    unfolding s' watermarks_inv using ok room(1) f b e
    by (simp add: egress_inv_def schedule_ok_def requests_ok_def control_ok_def word_less_nat_alt unat_ucast64)
qed

text \<open>Appending a message to a queue, a terminal or not.\<close>

lemma append_inv:
  assumes inv: "egress_inv s" and c: "config_ok (eg_config s)"
    and q: "map_of (eg_requests s) i = Some q" "\<not> rq_terminal_enqueued q"
    and small: "unat (sm_frame_bytes sized) < 2 ^ 62"
    and t: "t \<longleftrightarrow> is_terminal (sm_message sized)"
    and s0: "s0 = (if t then s\<lparr>eg_terminal_reservations := eg_terminal_reservations s - 1\<rparr> else s)"
    and frames: "q_frames q + 1 + (if t then 0 else 1) \<le> unat (max_request_frames (eg_config s))"
    and bytes: "q_bytes q + unat (sm_frame_bytes sized) + (if t then 0 else unat (terminal_reserve_bytes (eg_config s)))
        \<le> unat (max_request_bytes (eg_config s))"
    and session_frames: "total q_frames (eg_requests s) + 1 + total reserve (eg_requests s)
        \<le> unat (requestFrameCapacity (eg_config s)) + (if t then 1 else 0)"
    and session_bytes: "total q_bytes (eg_requests s) + unat (sm_frame_bytes sized)
          + total reserve (eg_requests s) * unat (terminal_reserve_bytes (eg_config s))
        \<le> unat (requestByteCapacity (eg_config s)) + (if t then unat (terminal_reserve_bytes (eg_config s)) else 0)"
  shows "egress_inv (append_message i (q\<lparr>rq_terminal_enqueued := t\<rparr>) sized s0)"
proof -
  note ok = egress_invD [OF inv]
  define q1 where "q1 = q\<lparr>rq_terminal_enqueued := t, rq_queued_bytes := rq_queued_bytes q + sm_frame_bytes sized,
                 rq_messages := rq_messages q @ [sized], rq_scheduled := True\<rparr>"
  have qok: "queue_ok (eg_config s) q"
    by (rule ok(2) [OF q(1)])
  have ub: "unat (rq_queued_bytes q + sm_frame_bytes sized) = q_bytes q + unat (sm_frame_bytes sized)"
    using qok small totals_bounded(2) [OF ok(5) c] total_le [OF q(1), of q_bytes]
    by (subst add_exact) (simp_all add: queue_ok_def)
  have sums: "q_frames q1 = q_frames q + 1" "q_bytes q1 = q_bytes q + unat (sm_frame_bytes sized)"
    "reserve q1 = (if t then 0 else 1)" "reserve q = 1"
    using q(2) by (simp_all add: q_frames_def q_bytes_def reserve_def q1_def)
  have q1: "queue_ok (eg_config s) q1"
    using qok q(2) t frames bytes ub sums
    by (auto simp: queue_ok_def queue_shape_def q1_def split: if_splits)
  have tot: "total f (AList.update i q1 (eg_requests s)) + f q = total f (eg_requests s) + f q1" for f
    by (rule total_update [OF q(1)])
  have res: "unat (eg_terminal_reservations s0) = total reserve (AList.update i q1 (eg_requests s))"
    using ok(5) tot [of reserve] sums total_le [OF q(1), of reserve] unfolding s0
    by (auto simp: requests_ok_def sub_exact)
  let ?s1 = "s0\<lparr>eg_requests := AList.update i q1 (eg_requests s0),
              eg_request_frames := eg_request_frames s0 + 1,
              eg_request_bytes := eg_request_bytes s0 + sm_frame_bytes sized,
              eg_round_robin := (if \<not> rq_scheduled q then eg_round_robin s0 @ [i] else eg_round_robin s0)\<rparr>"
  have "total reserve (eg_requests s) = total reserve (AList.update i q1 (eg_requests s)) + (if t then 1 else 0)"
    using tot [of reserve] sums by (cases t) simp_all
  then have mult: "total reserve (eg_requests s) * k =
      total reserve (AList.update i q1 (eg_requests s)) * k + (if t then k else 0)" for k
    by simp
  let ?R = "AList.update i q1 (eg_requests s)"
  have f: "total q_frames ?R = total q_frames (eg_requests s) + 1"
    and b: "total q_bytes ?R = total q_bytes (eg_requests s) + unat (sm_frame_bytes sized)"
    using tot [of q_frames] tot [of q_bytes] sums by simp_all
  have "total q_frames ?R + total reserve ?R \<le> unat (requestFrameCapacity (eg_config s))"
    using f mult [of 1] session_frames by (cases t) simp_all
  moreover have "total q_bytes ?R + total reserve ?R * unat (terminal_reserve_bytes (eg_config s))
      \<le> unat (requestByteCapacity (eg_config s))"
    using session_bytes unfolding b mult by (cases t) simp_all
  ultimately have "requests_ok ?s1"
    using res f b frames_sum_exact(3) [OF ok(5) c] bytes_sum_exact(3) [OF ok(5) c small]
    by (simp add: requests_ok_def s0 split: if_splits)
  moreover have "schedule_ok ?s1"
    using ok(3) q(1) by (auto simp: schedule_ok_def s0 map_of_update_dict q1_def)
  moreover have "control_ok ?s1"
    using ok(4) by (simp add: control_ok_def s0)
  ultimately have "egress_inv ?s1"
    using ok q1 by (auto simp: egress_inv_def s0 map_of_update_dict split: if_splits)
  then show ?thesis
    by (simp add: append_message_def Let_def q1_def)
qed

lemma delta_inv:
  assumes inv: "egress_inv s" and c: "config_ok (eg_config s)"
  shows "egress_inv (snd (enqueueDelta dump epoch i m s))"
proof (cases "fst (enqueueDelta dump epoch i m s) = Enqueued")
  case False
  then have "snd (enqueueDelta dump epoch i m s) = s"
    by (auto simp: enqueueDelta_def split: if_splits option.splits)
  with inv show ?thesis by simp
next
  case True
  then obtain sized q where sized: "sizeMessage dump epoch (max_frame_payload_bytes (eg_config s)) m = Some sized"
    and q: "map_of (eg_requests s) i = Some q" "\<not> rq_terminal_enqueued q"
    and kind: "\<not> is_terminal m"
    and full: "\<not> size_of (rq_messages q) + 2 > ucast (max_request_frames (eg_config s))"
      "\<not> sm_frame_bytes sized + rq_queued_bytes q + terminal_reserve_bytes (eg_config s) > max_request_bytes (eg_config s)"
      "\<not> eg_request_frames s + 1 + eg_terminal_reservations s > requestFrameCapacity (eg_config s)"
      "\<not> sm_frame_bytes sized + eg_request_bytes s + eg_terminal_reservations s * terminal_reserve_bytes (eg_config s)
          > requestByteCapacity (eg_config s)"
    and s': "snd (enqueueDelta dump epoch i m s) = append_message i q sized s"
    by (auto simp: enqueueDelta_def split: if_splits option.splits ServerMessage.splits)
  note ok = egress_invD [OF inv] and z = sizeMessage_Some [OF sized]
  have small: "unat (sm_frame_bytes sized) < 2 ^ 62"
    using z(2) by simp
  have qok: "queue_ok (eg_config s) q" by (rule ok(2) [OF q(1)])
  have le: "q_frames q < 2 ^ 32" "q_bytes q < 2 ^ 62" "unat (terminal_reserve_bytes (eg_config s)) < 2 ^ 62"
    using totals_bounded [OF ok(5) c] total_le [OF q(1), of q_bytes] total_le [OF q(1), of q_frames] by linarith+
  have "unat (size_of (rq_messages q) + 2) = q_frames q + 2"
    using le(1) by (simp add: size_of_def q_frames_def add_exact unat_of_nat)
  moreover have "unat (sm_frame_bytes sized + rq_queued_bytes q + terminal_reserve_bytes (eg_config s)) =
      unat (sm_frame_bytes sized) + q_bytes q + unat (terminal_reserve_bytes (eg_config s))"
    using le small qok by (simp add: queue_ok_def add_exact)
  ultimately have room: "q_frames q + 2 \<le> unat (max_request_frames (eg_config s))"
    "unat (sm_frame_bytes sized) + q_bytes q + unat (terminal_reserve_bytes (eg_config s)) \<le> unat (max_request_bytes (eg_config s))"
    using full(1,2) by (simp_all add: word_less_nat_alt unat_ucast64)
  have session: "total q_frames (eg_requests s) + 1 + total reserve (eg_requests s) \<le> unat (requestFrameCapacity (eg_config s))"
    "unat (sm_frame_bytes sized) + total q_bytes (eg_requests s)
       + total reserve (eg_requests s) * unat (terminal_reserve_bytes (eg_config s)) \<le> unat (requestByteCapacity (eg_config s))"
    using full(3,4) unfolding word_less_nat_alt frames_sum_exact(2) [OF ok(5) c] bytes_sum_exact(2) [OF ok(5) c small]
    by simp_all
  have "egress_inv (append_message i (q\<lparr>rq_terminal_enqueued := False\<rparr>) sized s)"
    by (rule append_inv [OF inv c q small]) (use z(1) kind room session in simp_all)
  moreover have "q\<lparr>rq_terminal_enqueued := False\<rparr> = q"
    using q(2) by simp
  ultimately show ?thesis
    by (simp add: s')
qed

lemma terminal_inv:
  assumes inv: "egress_inv s" and c: "config_ok (eg_config s)"
  shows "egress_inv (snd (enqueueTerminal dump epoch i m s))"
proof (cases "fst (enqueueTerminal dump epoch i m s) = Enqueued")
  case False
  then have "snd (enqueueTerminal dump epoch i m s) = s"
    by (auto simp: enqueueTerminal_def split: if_splits option.splits)
  with inv show ?thesis by simp
next
  case True
  then obtain sized q where sized: "sizeMessage dump epoch (max_frame_payload_bytes (eg_config s)) m = Some sized"
    and q: "map_of (eg_requests s) i = Some q" "\<not> rq_terminal_enqueued q"
    and kind: "is_terminal m" and fits: "\<not> sm_frame_bytes sized > terminal_reserve_bytes (eg_config s)"
    and s': "snd (enqueueTerminal dump epoch i m s) =
        append_message i (q\<lparr>rq_terminal_enqueued := True\<rparr>) sized
          (s\<lparr>eg_terminal_reservations := eg_terminal_reservations s - 1\<rparr>)"
    by (auto simp: enqueueTerminal_def split: if_splits option.splits ServerMessage.splits)
  note ok = egress_invD [OF inv] and z = sizeMessage_Some [OF sized]
  have small: "unat (sm_frame_bytes sized) < 2 ^ 62"
    using z(2) by simp
  have r: "reserve q = 1" using q(2) by (simp add: reserve_def)
  have le: "unat (sm_frame_bytes sized) \<le> unat (terminal_reserve_bytes (eg_config s))"
    using fits by (simp add: word_less_nat_alt)
  show ?thesis
    unfolding s'
    by (rule append_inv [OF inv c q small, where t = True])
      (use z(1) kind le r ok(5) ok(2) [OF q(1)] in \<open>simp_all add: queue_ok_def requests_ok_def\<close>)
qed

text \<open>Taking the first message of a queue out, the queue staying registered.\<close>

lemma replace_queue_inv:
  assumes inv: "egress_inv s" and q: "map_of (eg_requests s) i = Some q" and q': "queue_ok (eg_config s) q'"
    and sums: "q_frames q = q_frames q' + 1" "q_bytes q = q_bytes q' + n" "reserve q' = reserve q"
    and s': "eg_requests s' = AList.update i q' (eg_requests s)" "eg_config s' = eg_config s"
      "eg_control s' = eg_control s" "eg_control_frames s' = eg_control_frames s"
      "eg_control_bytes s' = eg_control_bytes s" "eg_terminal_reservations s' = eg_terminal_reservations s"
    and counters: "unat (eg_request_frames s') + 1 = total q_frames (eg_requests s)"
      "unat (eg_request_bytes s') + n = total q_bytes (eg_requests s)"
    and rr: "distinct (eg_round_robin s')"
      "\<And>j. j \<in> set (eg_round_robin s') \<longleftrightarrow> (if j = i then rq_scheduled q' else j \<in> set (eg_round_robin s))"
  shows "egress_inv s'"
proof -
  note ok = egress_invD [OF inv]
  have tot: "total f (AList.update i q' (eg_requests s)) + f q = total f (eg_requests s) + f q'" for f
    by (rule total_update [OF q])
  have r: "total reserve (AList.update i q' (eg_requests s)) = total reserve (eg_requests s)"
    using tot [of reserve] sums by simp
  have "requests_ok s'"
    using ok(5) tot [of q_frames] tot [of q_bytes] sums counters by (simp add: requests_ok_def s' r)
  moreover have "schedule_ok s'"
    using ok(3) rr by (simp add: schedule_ok_def s' map_of_update_dict)
  ultimately show ?thesis
    using ok q' by (auto simp: egress_inv_def s' control_ok_def map_of_update_dict split: if_splits)
qed

text \<open>Under the invariant the round-robin loop takes a message from its first request.\<close>

lemma pop_first:
  assumes inv: "egress_inv s" and rr: "eg_round_robin s = i # rr"
  obtains q m rest where "map_of (eg_requests s) i = Some q" "rq_messages q = m # rest" "queue_ok (eg_config s) q"
proof -
  obtain q where q: "map_of (eg_requests s) i = Some q" "rq_scheduled q"
    using egress_invD(3) [OF inv] rr by (fastforce simp: schedule_ok_def)
  have ok: "queue_ok (eg_config s) q"
    by (rule egress_invD(2) [OF inv q(1)])
  with q(2) obtain m rest where "rq_messages q = m # rest"
    by (cases "rq_messages q") (auto simp: queue_ok_def)
  with that q ok show thesis by blast
qed

lemma shape_tail:
  assumes "queue_shape q" and "rq_messages q = m # rest" and "rest \<noteq> []"
  shows "queue_shape (q\<lparr>rq_messages := rest, rq_queued_bytes := b\<rparr>)" and "\<not> is_terminal (sm_message m)"
  using assms by (auto simp: queue_shape_def split: if_splits)

lemma shape_single:
  assumes "queue_shape q" and "rq_messages q = [m]"
  shows "rq_terminal_enqueued q \<longleftrightarrow> is_terminal (sm_message m)"
  using assms by (auto simp: queue_shape_def split: if_splits)

lemma pop_request_inv:
  assumes inv: "egress_inv s" and c: "config_ok (eg_config s)" and rr: "eg_round_robin s = i # rr"
  shows "egress_inv (snd (pop_request (i # rr) s))"
proof -
  note ok = egress_invD [OF inv]
  obtain q m rest where q: "map_of (eg_requests s) i = Some q" "rq_messages q = m # rest"
    and qok: "queue_ok (eg_config s) q"
    by (rule pop_first [OF inv rr])
  define q1 where "q1 = q\<lparr>rq_messages := rest, rq_queued_bytes := rq_queued_bytes q - sm_frame_bytes m\<rparr>"
  define s1 where "s1 = s\<lparr>eg_request_frames := eg_request_frames s - 1,
                          eg_request_bytes := eg_request_bytes s - sm_frame_bytes m\<rparr>"
  have sums: "q_frames q = q_frames q1 + 1" "q_bytes q = q_bytes q1 + unat (sm_frame_bytes m)" "reserve q1 = reserve q"
    using q(2) by (simp_all add: q_frames_def q_bytes_def reserve_def q1_def)
  have bytes: "unat (rq_queued_bytes q1) = q_bytes q1"
    using qok sums by (simp add: queue_ok_def q1_def sub_exact)
  have notin: "i \<notin> set rr" "distinct rr"
    using ok(3) rr by (simp_all add: schedule_ok_def)
  have counters: "unat (eg_request_frames s - 1) + 1 = total q_frames (eg_requests s)"
    "unat (eg_request_bytes s - sm_frame_bytes m) + unat (sm_frame_bytes m) = total q_bytes (eg_requests s)"
    using ok(5) sums total_le [OF q(1), of q_frames] total_le [OF q(1), of q_bytes]
    by (simp_all add: requests_ok_def sub_exact)
  consider "rest \<noteq> []" | "rest = []" "is_terminal (sm_message m)" | "rest = []" "\<not> is_terminal (sm_message m)"
    by blast
  then show ?thesis
  proof cases
    case 1
    have shape: "queue_shape q1"
      using shape_tail(1) [OF _ q(2) 1] qok by (simp add: queue_ok_def q1_def)
    have q1: "queue_ok (eg_config s) q1"
      using qok sums bytes shape 1 by (simp add: queue_ok_def) (simp add: q1_def q(2))
    have "egress_inv (s1\<lparr>eg_requests := AList.update i q1 (eg_requests s1), eg_round_robin := rr @ [i]\<rparr>)"
      by (rule replace_queue_inv [OF inv q(1) q1]) (use sums counters rr notin 1 qok q in
          \<open>auto simp: s1_def q1_def queue_ok_def\<close>)
    with 1 q show ?thesis by (simp add: Let_def q1_def s1_def)
  next
    case 2
    have t: "rq_terminal_enqueued q"
      using shape_single [of q m] qok q(2) 2 by (simp add: queue_ok_def)
    have single: "rq_queued_bytes q = sm_frame_bytes m"
      using qok 2 q(2) by (simp add: queue_ok_def q_bytes_def word_unat_eq_iff)
    have "egress_inv (s1\<lparr>eg_requests := AList.delete i (eg_requests s1), eg_round_robin := rr\<rparr>)"
      by (rule delete_queue_inv [OF inv q(1) _ _ _ _ _ _ _ _ _ c])
        (use t 2 q rr notin single in \<open>simp_all add: s1_def q_frames_def reserve_def\<close>)
    with 2 q show ?thesis by (simp add: Let_def s1_def)
  next
    case 3
    define q2 where "q2 = q1\<lparr>rq_scheduled := False\<rparr>"
    have "\<not> rq_terminal_enqueued q"
      using shape_single [of q m] qok q(2) 3 by (simp add: queue_ok_def)
    then have q2: "queue_ok (eg_config s) q2"
      using qok sums bytes 3 q(2)
      by (auto simp: queue_ok_def queue_shape_def q2_def q1_def q_frames_def q_bytes_def reserve_def)
    have "egress_inv (s1\<lparr>eg_requests := AList.update i q2 (eg_requests s1), eg_round_robin := rr\<rparr>)"
      by (rule replace_queue_inv [OF inv q(1) q2]) (use sums counters rr notin 3 in
          \<open>auto simp: s1_def q2_def q_frames_def q_bytes_def reserve_def\<close>)
    with 3 q show ?thesis by (simp add: Let_def q2_def q1_def s1_def)
  qed
qed

lemma wait_pop_inv:
  assumes inv: "egress_inv s" and c: "config_ok (eg_config s)"
  shows "egress_inv (snd (egress_waitPop timeout s))"
proof (cases "eg_control s")
  case (Cons m rest)
  have "egress_inv (s\<lparr>eg_control := rest, eg_control_frames := eg_control_frames s - 1,
             eg_control_bytes := eg_control_bytes s - sm_frame_bytes m\<rparr>)"
    using inv Cons
    by (simp add: egress_inv_def control_ok_def schedule_ok_def requests_ok_def sub_exact)
  with inv Cons show ?thesis by (simp add: egress_waitPop_def)
next
  case Nil
  show ?thesis
  proof (cases "eg_round_robin s")
    case rr: Nil
    have "egress_inv (s\<lparr>eg_round_robin := []\<rparr>)"
      using inv rr by (simp add: egress_inv_def schedule_ok_def control_ok_def requests_ok_def)
    with inv Nil rr show ?thesis by (simp add: egress_waitPop_def)
  next
    case (Cons i rr)
    with pop_request_inv [OF inv c Cons] inv Nil show ?thesis
      by (auto simp: egress_waitPop_def simp del: pop_request.simps split: prod.splits option.splits)
  qed
qed

lemma stop_inv: "egress_inv s \<Longrightarrow> egress_inv (egress_stop s)"
  by (simp add: egress_stop_def egress_inv_def schedule_ok_def control_ok_def requests_ok_def)

lemma pop_request_config: "eg_config (snd (pop_request rr s)) = eg_config s"
  by (induction rr s rule: pop_request.induct) (auto simp: Let_def split: option.splits list.splits)

lemma egress_step_config: "eg_config (egress_step dump epoch op s) = eg_config s"
proof (cases op)
  case Pop
  then show ?thesis
    using pop_request_config [of "eg_round_robin s" s]
    by (auto simp: egress_waitPop_def split: list.splits prod.splits option.splits)
qed (auto simp: registerRequest_def abandonRequest_def removeScheduledRequest_def enqueueControl_def enqueueDelta_def
    enqueueTerminal_def append_message_def updateHighWatermarks_def egress_stop_def Let_def
    split: if_splits option.splits ServerMessage.splits)

lemma egress_step_inv:
  "egress_inv s \<Longrightarrow> config_ok (eg_config s) \<Longrightarrow> egress_inv (egress_step dump epoch op s)"
  by (cases op) (simp_all add: register_inv abandon_inv control_inv delta_inv terminal_inv wait_pop_inv stop_inv)

lemma fresh_inv: "egress_inv (fresh_egress c)"
  by (simp add: fresh_egress_def egress_inv_def schedule_ok_def control_ok_def requests_ok_def)

lemma egress_fold_inv:
  "egress_inv s \<Longrightarrow> config_ok (eg_config s) \<Longrightarrow>
     egress_inv (fold (egress_step dump epoch) ops s) \<and> eg_config (fold (egress_step dump epoch) ops s) = eg_config s"
  by (induction ops arbitrary: s) (simp_all add: egress_step_inv egress_step_config)

lemma egress_run_inv:
  assumes "config_ok c"
  shows "egress_inv (egress_run dump epoch ops c)" "eg_config (egress_run dump epoch ops c) = c"
  using egress_fold_inv [of "fresh_egress c" dump epoch ops] fresh_inv assms
  by (simp_all add: egress_run_def fresh_egress_def)

text \<open>A terminal within its reserve always finds room.\<close>

lemma terminal_fits:
  assumes inv: "egress_inv s" and c: "config_ok (eg_config s)" and acc: "eg_accepting s"
    and q: "map_of (eg_requests s) i = Some q" "\<not> rq_terminal_enqueued q"
    and sized: "sizeMessage dump epoch (max_frame_payload_bytes (eg_config s)) (MTerminal t) = Some sized"
    and id: "tm_request_id t = uint i" and fits: "sm_frame_bytes sized \<le> terminal_reserve_bytes (eg_config s)"
  shows "fst (enqueueTerminal dump epoch i (MTerminal t) s) = Enqueued"
proof -
  have qok: "queue_ok (eg_config s) q"
    by (rule egress_invD(2) [OF inv q(1)])
  have n: "q_frames q + 1 \<le> unat (max_request_frames (eg_config s))"
    and b: "unat (rq_queued_bytes q) + unat (terminal_reserve_bytes (eg_config s)) \<le> unat (max_request_bytes (eg_config s))"
    using qok q(2) by (simp_all add: queue_ok_def reserve_def)
  have "unat (size_of (rq_messages q) + 1) = q_frames q + 1"
    using n unat_bound32 [of "max_request_frames (eg_config s)"]
    by (simp add: size_of_def q_frames_def add_exact unat_of_nat)
  then have "\<not> size_of (rq_messages q) + 1 > ucast (max_request_frames (eg_config s))"
    using n by (simp add: word_less_nat_alt unat_ucast64)
  moreover have "\<not> sm_frame_bytes sized > max_request_bytes (eg_config s) - rq_queued_bytes q"
    using b fits by (simp add: word_less_nat_alt word_le_nat_alt sub_exact)
  ultimately show ?thesis
    using acc q sized id fits by (simp add: enqueueTerminal_def)
qed

lemma session_within:
  assumes inv: "egress_inv s" and c: "config_ok (eg_config s)"
  shows "unat (es_queued_frames (egress_snapshot s)) = length (eg_control s) + total q_frames (eg_requests s)"
    and "unat (es_queued_bytes (egress_snapshot s)) = bytes_of (eg_control s) + total q_bytes (eg_requests s)"
    and "length (eg_control s) + total q_frames (eg_requests s) \<le> unat (max_session_frames (eg_config s))"
    and "bytes_of (eg_control s) + total q_bytes (eg_requests s) \<le> unat (max_session_bytes (eg_config s))"
proof -
  have ctl: "unat (eg_control_frames s) = length (eg_control s)"
    "unat (eg_control_bytes s) = bytes_of (eg_control s)"
    "length (eg_control s) \<le> unat (control_reserve_frames (eg_config s))"
    "bytes_of (eg_control s) \<le> unat (control_reserve_bytes (eg_config s))"
    using egress_invD(4) [OF inv] by (simp_all add: control_ok_def)
  have req: "unat (eg_request_frames s) = total q_frames (eg_requests s)"
    "unat (eg_request_bytes s) = total q_bytes (eg_requests s)"
    "total q_frames (eg_requests s) \<le> unat (requestFrameCapacity (eg_config s))"
    "total q_bytes (eg_requests s) \<le> unat (requestByteCapacity (eg_config s))"
    using egress_invD(5) [OF inv] by (simp_all add: requests_ok_def)
  note b = config_bounds [OF c]
  show f: "length (eg_control s) + total q_frames (eg_requests s) \<le> unat (max_session_frames (eg_config s))"
    using ctl(3) req(3) b(1) by linarith
  show g: "bytes_of (eg_control s) + total q_bytes (eg_requests s) \<le> unat (max_session_bytes (eg_config s))"
    using ctl(4) req(4) b(2) by linarith
  show "unat (es_queued_frames (egress_snapshot s)) = length (eg_control s) + total q_frames (eg_requests s)"
    using ctl(1) req(1) f b(7) by (simp add: egress_snapshot_def add_exact)
  show "unat (es_queued_bytes (egress_snapshot s)) = bytes_of (eg_control s) + total q_bytes (eg_requests s)"
    using ctl(2) req(2) g b(8) by (simp add: egress_snapshot_def add_exact)
qed

lemma total_zero_iff: "total f d = 0 \<longleftrightarrow> (\<forall>(k, q)\<in>set d. f q = 0)"
  by (induction d) auto

text \<open>The writer is served whenever something is queued.\<close>

lemma pop_served:
  assumes inv: "egress_inv s" and ne: "length (eg_control s) + total q_frames (eg_requests s) \<noteq> 0" and "0 \<le> timeout"
  shows "\<exists>m. fst (egress_waitPop timeout s) = WaitMessage m"
proof (cases "eg_control s")
  case (Cons m rest)
  with assms(3) show ?thesis by (simp add: egress_waitPop_def)
next
  case Nil
  with ne obtain i q where "(i, q) \<in> set (eg_requests s)" "q_frames q \<noteq> 0"
    by (auto simp: total_zero_iff)
  then have q: "map_of (eg_requests s) i = Some q" "rq_messages q \<noteq> []"
    using egress_invD(1) [OF inv] by (simp_all add: in_dict_iff q_frames_def)
  then have "i \<in> set (eg_round_robin s)"
    using egress_invD(2) [OF inv q(1)] egress_invD(3) [OF inv] by (auto simp: queue_ok_def schedule_ok_def)
  then obtain j rr where rr: "eg_round_robin s = j # rr"
    by (cases "eg_round_robin s") auto
  obtain q' m rest where "map_of (eg_requests s) j = Some q'" "rq_messages q' = m # rest"
    by (rule pop_first [OF inv rr])
  with Nil rr assms(3) show ?thesis
    by (simp add: egress_waitPop_def Let_def)
qed

section \<open>Properties\<close>

text \<open>
  C13. Whatever a session's request handlers, pumps and writer do, its outgoing queue keeps its
  promises: the frames and bytes queued, which the 64-bit counters of the snapshot give exactly, stay
  within the session's limits; a registered request can always enqueue its terminal, if the encoded
  terminal is within the reserve, however full the session is; and the writer gets a message whenever
  one is queued.
\<close>

theorem egress_keeps_reserve:
  assumes "validateConfiguration c = Inr ()" and "unat (max_session_bytes c) < 2 ^ 62"
    and "s = egress_run dump epoch ops c"
  shows "let frames = length (eg_control s) + total q_frames (eg_requests s);
             bytes = bytes_of (eg_control s) + total q_bytes (eg_requests s)
         in unat (es_queued_frames (egress_snapshot s)) = frames \<and> frames \<le> unat (max_session_frames c) \<and>
            unat (es_queued_bytes (egress_snapshot s)) = bytes \<and> bytes \<le> unat (max_session_bytes c) \<and>
            (\<forall>i q t sized. eg_accepting s \<and> map_of (eg_requests s) i = Some q \<and> \<not> rq_terminal_enqueued q \<and>
               tm_request_id t = uint i \<and>
               sizeMessage dump epoch (max_frame_payload_bytes c) (MTerminal t) = Some sized \<and>
               sm_frame_bytes sized \<le> terminal_reserve_bytes c
               \<longrightarrow> fst (enqueueTerminal dump epoch i (MTerminal t) s) = Enqueued) \<and>
            (frames \<noteq> 0 \<longrightarrow> (\<exists>m. fst (egress_waitPop 0 s) = WaitMessage m))"
proof -
  have c: "config_ok c"
    using assms(1,2) by (simp add: config_ok_def)
  have inv: "egress_inv s" and cfg: "eg_config s = c"
    using egress_run_inv [OF c] assms(3) by simp_all
  note w = session_within [OF inv, unfolded cfg, OF c]
  have t: "fst (enqueueTerminal dump epoch i (MTerminal t) s) = Enqueued"
    if "eg_accepting s" "map_of (eg_requests s) i = Some q" "\<not> rq_terminal_enqueued q" "tm_request_id t = uint i"
      "sizeMessage dump epoch (max_frame_payload_bytes c) (MTerminal t) = Some sized"
      "sm_frame_bytes sized \<le> terminal_reserve_bytes c" for i q t sized
    by (rule terminal_fits [OF inv]) (use that c cfg in simp_all)
  have p: "\<exists>m. fst (egress_waitPop 0 s) = WaitMessage m"
    if "length (eg_control s) + total q_frames (eg_requests s) \<noteq> 0"
    using pop_served [OF inv that, of 0] by simp
  show ?thesis
    unfolding Let_def using w t p by blast
qed

definition sample_egress_config :: SessionEgressConfig where
  "sample_egress_config =
     \<lparr>max_frame_payload_bytes = 1048576, max_session_frames = 4, max_session_bytes = 100,
      max_request_frames = 2, max_request_bytes = 40, control_reserve_frames = 1, control_reserve_bytes = 20,
      terminal_reserve_bytes = 20\<rparr>"

definition sample_dump :: "json \<Rightarrow> bytes option" where
  "sample_dump _ = Some (replicate 10 0)"

definition sample_delta :: "int \<Rightarrow> ServerMessage" where
  "sample_delta n = MTokenDelta \<lparr>td_request_id = 5, td_sequence_no = n, td_token_ids = [7]\<rparr>"

definition sample_terminal :: Terminal where
  "sample_terminal =
     \<lparr>tm_request_id = 5, tm_status = Status_make ''ok'' [], tm_finish_reason = Some ''eos'',
      tm_usage = \<lparr>us_prompt_tokens = 1, us_completion_tokens = 1\<rparr>\<rparr>"

text \<open>The second delta is refused, the terminal is not.\<close>

definition sample_egress_ops :: "egress_op list" where
  "sample_egress_ops = [Register 5, Delta 5 (sample_delta 0), Delta 5 (sample_delta 1)]"

theorem egress_keeps_reserve_witness:
  "fst (enqueueTerminal sample_dump 1 5 (MTerminal sample_terminal)
      (egress_run sample_dump 1 sample_egress_ops sample_egress_config)) = Enqueued"
proof -
  let ?s = "egress_run sample_dump 1 sample_egress_ops sample_egress_config"
  have v: "validateConfiguration sample_egress_config = Inr ()"
    by code_simp
  have b: "unat (max_session_bytes sample_egress_config) < 2 ^ 62"
    by (simp add: sample_egress_config_def)
  have a: "eg_accepting ?s" by code_simp
  have q: "map_of (eg_requests ?s) 5 = Some \<lparr>rq_messages = [\<lparr>sm_message = sample_delta 0, sm_frame_bytes = 14\<rparr>],
      rq_queued_bytes = 14, rq_scheduled = True, rq_terminal_enqueued = False\<rparr>"
    by code_simp
  have z: "sizeMessage sample_dump 1 (max_frame_payload_bytes sample_egress_config) (MTerminal sample_terminal)
      = Some \<lparr>sm_message = MTerminal sample_terminal, sm_frame_bytes = 14\<rparr>"
    by code_simp
  have i: "tm_request_id sample_terminal = uint (5 :: 64 word)"
    "(14 :: 64 word) \<le> terminal_reserve_bytes sample_egress_config"
    by (simp_all add: sample_terminal_def sample_egress_config_def)
  show ?thesis
    using egress_keeps_reserve [OF v b refl, of sample_dump 1 sample_egress_ops] a q z i
    unfolding Let_def by fastforce
qed

end
