(* ===== verification/Worker_Request.thy ===== *)
theory Worker_Request
  imports Worker_Admission Py_Values
begin

text \<open>
  One request inside the Worker's runtime: the bounded mailbox between the backend and the session
  (\<open>src/runtime/generation_mailbox.cpp\<close>) and the state machine that numbers the deltas and commits
  the terminal (\<open>src/runtime/request_state.cpp\<close>). Mutexes make every operation one step. A wait is
  the check made when it ends: either something is ready then, or it has timed out. Exceptions of
  allocation and of the mutex itself are not modelled.
\<close>

section \<open>Data\<close>

datatype FinishReason = Eos | Length | Stop | Cancelled | Timeout | Backpressure

record TokenDelta =
  dl_request_id :: size_t
  dl_sequence_no :: size_t
  dl_token_ids :: "32 word list"

record TerminalEvent =
  te_request_id :: size_t
  te_status :: Status
  te_finish_reason :: "FinishReason option"
  te_prompt_tokens :: size_t
  te_completion_tokens :: size_t

datatype GenerationEvent = DeltaEvent TokenDelta | TerminalEvent TerminalEvent

datatype MailboxWaitResult = Event GenerationEvent | WaitTimeout | Closed

record GenerationMailbox =
  max_queued_deltas :: size_t
  max_queued_tokens :: size_t
  mb_lease :: AdmissionLease
  mb_deltas :: "TokenDelta list"
  mb_terminal :: "TerminalEvent option"
  mb_queuedTokens :: size_t
  mb_terminalCommitted :: bool
  mb_closed :: bool

section \<open>The mailbox\<close>

definition vector_size :: "'a list \<Rightarrow> size_t" where
  "vector_size xs = word_of_nat (length xs)"

definition GenerationMailbox_init :: "size_t \<Rightarrow> size_t \<Rightarrow> AdmissionLease \<Rightarrow> string + GenerationMailbox" where
  "GenerationMailbox_init deltas tokens lease =
     (if deltas = 0 \<or> tokens = 0 then Inl ''GenerationMailbox capacity must be greater than zero''
      else Inr \<lparr>max_queued_deltas = deltas, max_queued_tokens = tokens, mb_lease = lease, mb_deltas = [],
                mb_terminal = None, mb_queuedTokens = 0, mb_terminalCommitted = False, mb_closed = False\<rparr>)"

definition tryPushDelta :: "TokenDelta \<Rightarrow> GenerationMailbox \<Rightarrow> bool \<times> GenerationMailbox" where
  "tryPushDelta delta m =
     (if dl_token_ids delta = [] then (False, m)
      else if mb_closed m \<or> mb_terminalCommitted m then (False, m)
      else if vector_size (mb_deltas m) \<ge> max_queued_deltas m then (False, m)
      else if vector_size (dl_token_ids delta) > max_queued_tokens m - mb_queuedTokens m then (False, m)
      else (True, m\<lparr>mb_deltas := mb_deltas m @ [delta],
                    mb_queuedTokens := mb_queuedTokens m + vector_size (dl_token_ids delta)\<rparr>))"

definition pushTerminal ::
  "TerminalEvent \<Rightarrow> GenerationMailbox \<Rightarrow> AdmissionState \<Rightarrow> bool \<times> GenerationMailbox \<times> AdmissionState" where
  "pushTerminal terminal m a =
     (if mb_closed m \<or> mb_terminalCommitted m then (False, m, a)
      else case lease_release (mb_lease m) a of (lease, a') \<Rightarrow>
        (True, m\<lparr>mb_terminal := Some terminal, mb_terminalCommitted := True, mb_lease := lease\<rparr>, a'))"

definition mailbox_waitPop :: "GenerationMailbox \<Rightarrow> MailboxWaitResult \<times> GenerationMailbox" where
  "mailbox_waitPop m =
     (case mb_deltas m of
        delta # rest \<Rightarrow>
          (Event (DeltaEvent delta),
           m\<lparr>mb_deltas := rest, mb_queuedTokens := mb_queuedTokens m - vector_size (dl_token_ids delta)\<rparr>)
      | [] \<Rightarrow>
          (case mb_terminal m of
             Some terminal \<Rightarrow> (Event (TerminalEvent terminal), m\<lparr>mb_terminal := None, mb_closed := True\<rparr>)
           | None \<Rightarrow> if mb_closed m then (Closed, m) else (WaitTimeout, m)))"

definition mailbox_close :: "GenerationMailbox \<Rightarrow> GenerationMailbox" where
  "mailbox_close m = m\<lparr>mb_closed := True\<rparr>"

section \<open>The request state\<close>

datatype RequestPhase = AcceptedPhase | RunningPhase | CancellingPhase | TerminalPhase

datatype DeltaCommitResult = DeltaCommitted | DeltaEmpty | DeltaBackpressure | DeltaCancelling | DeltaTerminal

datatype TerminalCommitResult = TerminalCommitted | AlreadyCommitted | MailboxRejected

record RequestState =
  rq_externalId :: size_t
  rq_executorId :: size_t
  rq_promptTokens :: size_t
  rq_deadline :: int
  rq_phase :: RequestPhase
  rq_completionTokens :: size_t
  rq_nextSequenceNo :: size_t

definition RequestState_init :: "size_t \<Rightarrow> size_t \<Rightarrow> size_t \<Rightarrow> int \<Rightarrow> bool \<Rightarrow> string + RequestState" where
  "RequestState_init externalId executorId promptTokens deadline has_mailbox =
     (if externalId = 0 then Inl ''RequestState external request id must not be zero''
      else if \<not> has_mailbox then Inl ''RequestState requires a GenerationMailbox''
      else Inr \<lparr>rq_externalId = externalId, rq_executorId = executorId, rq_promptTokens = promptTokens,
                rq_deadline = deadline, rq_phase = AcceptedPhase, rq_completionTokens = 0, rq_nextSequenceNo = 0\<rparr>)"

definition markRunning :: "RequestState \<Rightarrow> bool \<times> RequestState" where
  "markRunning r =
     (if rq_phase r = AcceptedPhase then (True, r\<lparr>rq_phase := RunningPhase\<rparr>)
      else (rq_phase r = RunningPhase, r))"

definition markCancelling :: "RequestState \<Rightarrow> bool \<times> RequestState" where
  "markCancelling r =
     (if rq_phase r \<noteq> AcceptedPhase \<and> rq_phase r \<noteq> RunningPhase then (False, r)
      else (True, r\<lparr>rq_phase := CancellingPhase\<rparr>))"

text \<open>A request with its mailbox and the admission state its lease belongs to.\<close>

record Generation =
  gn_request :: RequestState
  gn_mailbox :: GenerationMailbox
  gn_admission :: AdmissionState

definition tryCommitDelta :: "32 word list \<Rightarrow> Generation \<Rightarrow> DeltaCommitResult \<times> Generation" where
  "tryCommitDelta tokenIds g =
     (let r = gn_request g in
      if rq_phase r = TerminalPhase then (DeltaTerminal, g)
      else if rq_phase r = CancellingPhase then (DeltaCancelling, g)
      else if tokenIds = [] then (DeltaEmpty, g)
      else
        case tryPushDelta
               \<lparr>dl_request_id = rq_externalId r, dl_sequence_no = rq_nextSequenceNo r, dl_token_ids = tokenIds\<rparr>
               (gn_mailbox g) of
          (False, m) \<Rightarrow> (DeltaBackpressure, g\<lparr>gn_mailbox := m\<rparr>)
        | (True, m) \<Rightarrow>
            (DeltaCommitted,
             g\<lparr>gn_mailbox := m,
               gn_request :=
                 r\<lparr>rq_nextSequenceNo := rq_nextSequenceNo r + 1,
                   rq_completionTokens := rq_completionTokens r + vector_size tokenIds,
                   rq_phase := (if rq_phase r = AcceptedPhase then RunningPhase else rq_phase r)\<rparr>\<rparr>))"

definition finalize_request ::
  "Status \<Rightarrow> FinishReason option \<Rightarrow> Generation \<Rightarrow> TerminalCommitResult \<times> Generation" where
  "finalize_request status finishreason g =
     (let r = gn_request g in
      if rq_phase r = TerminalPhase then (AlreadyCommitted, g)
      else
        case pushTerminal
               \<lparr>te_request_id = rq_externalId r, te_status = status, te_finish_reason = finishreason,
                te_prompt_tokens = rq_promptTokens r, te_completion_tokens = rq_completionTokens r\<rparr>
               (gn_mailbox g) (gn_admission g) of
          (False, m, a) \<Rightarrow> (MailboxRejected, g\<lparr>gn_mailbox := m, gn_admission := a\<rparr>)
        | (True, m, a) \<Rightarrow>
            (TerminalCommitted,
             g\<lparr>gn_mailbox := m, gn_admission := a, gn_request := r\<lparr>rq_phase := TerminalPhase\<rparr>\<rparr>))"

section \<open>Runs of one request\<close>

text \<open>
  The steps that the backend (running, deltas, terminal), the canceller, the session's pump (pop) and
  the owner (close) take, in any order; \<open>Others a\<close> is any activity of other requests on the shared
  admission state. A run returns the popped events.
\<close>

datatype generation_op =
    MarkRunning
  | MarkCancelling
  | CommitDelta "32 word list"
  | Finalize Status "FinishReason option"
  | Pop
  | CloseMailbox
  | Others AdmissionState

fun generation_step :: "generation_op \<Rightarrow> Generation \<Rightarrow> GenerationEvent list \<times> Generation" where
  "generation_step MarkRunning g = ([], g\<lparr>gn_request := snd (markRunning (gn_request g))\<rparr>)"
| "generation_step MarkCancelling g = ([], g\<lparr>gn_request := snd (markCancelling (gn_request g))\<rparr>)"
| "generation_step (CommitDelta tokens) g = ([], snd (tryCommitDelta tokens g))"
| "generation_step (Finalize status reason) g = ([], snd (finalize_request status reason g))"
| "generation_step Pop g =
     (case mailbox_waitPop (gn_mailbox g) of
        (Event e, m) \<Rightarrow> ([e], g\<lparr>gn_mailbox := m\<rparr>)
      | (_, m) \<Rightarrow> ([], g\<lparr>gn_mailbox := m\<rparr>))"
| "generation_step CloseMailbox g = ([], g\<lparr>gn_mailbox := mailbox_close (gn_mailbox g)\<rparr>)"
| "generation_step (Others a) g = ([], g\<lparr>gn_admission := a\<rparr>)"

fun generation_run :: "generation_op list \<Rightarrow> Generation \<Rightarrow> GenerationEvent list \<times> Generation" where
  "generation_run [] g = ([], g)"
| "generation_run (op # ops) g =
     (case generation_step op g of (es, g1) \<Rightarrow>
        case generation_run ops g1 of (es', g2) \<Rightarrow> (es @ es', g2))"

definition generation_start :: "RequestState \<Rightarrow> GenerationMailbox \<Rightarrow> AdmissionState \<Rightarrow> Generation" where
  "generation_start r m a = \<lparr>gn_request = r, gn_mailbox = m, gn_admission = a\<rparr>"

section \<open>The stream of a request\<close>

text \<open>Deltas numbered from zero under one request id, none empty.\<close>

definition numbered :: "size_t \<Rightarrow> TokenDelta list \<Rightarrow> bool" where
  "numbered rid ds \<longleftrightarrow>
     map dl_sequence_no ds = map word_of_nat [0..<length ds] \<and>
     (\<forall>d\<in>set ds. dl_request_id d = rid \<and> dl_token_ids d \<noteq> [])"

definition token_total :: "TokenDelta list \<Rightarrow> nat" where
  "token_total ds = (\<Sum>d\<leftarrow>ds. length (dl_token_ids d))"

text \<open>What a committed terminal says of the request and of the deltas before it.\<close>

definition closes_stream :: "size_t \<Rightarrow> size_t \<Rightarrow> TokenDelta list \<Rightarrow> TerminalEvent \<Rightarrow> bool" where
  "closes_stream rid prompt ds t \<longleftrightarrow>
     te_request_id t = rid \<and> te_prompt_tokens t = prompt \<and>
     te_completion_tokens t = word_of_nat (token_total ds)"

definition mailbox_events :: "GenerationMailbox \<Rightarrow> GenerationEvent list" where
  "mailbox_events m = map DeltaEvent (mb_deltas m) @ map TerminalEvent (option_list (mb_terminal m))"

text \<open>The events popped so far, with those still queued, are the numbered deltas \<open>ds\<close> and then \<open>term\<close>.\<close>

definition stream_of :: "GenerationEvent list \<Rightarrow> Generation \<Rightarrow> TokenDelta list \<Rightarrow> TerminalEvent option \<Rightarrow> bool" where
  "stream_of es g ds final \<longleftrightarrow>
     es @ mailbox_events (gn_mailbox g) = map DeltaEvent ds @ map TerminalEvent (option_list final)"

definition request_inv ::
  "AdmissionLease \<Rightarrow> GenerationEvent list \<Rightarrow> Generation \<Rightarrow> TokenDelta list \<Rightarrow> TerminalEvent option \<Rightarrow> bool" where
  "request_inv lease es g ds final \<longleftrightarrow>
     (let r = gn_request g; m = gn_mailbox g in
      stream_of es g ds final \<and> numbered (rq_externalId r) ds \<and>
      rq_nextSequenceNo r = word_of_nat (length ds) \<and>
      rq_completionTokens r = word_of_nat (token_total ds) \<and>
      (final = None \<longleftrightarrow> \<not> mb_terminalCommitted m) \<and>
      (rq_phase r = TerminalPhase \<longleftrightarrow> mb_terminalCommitted m) \<and>
      (\<not> mb_terminalCommitted m \<longrightarrow> mb_terminal m = None \<and> mb_lease m = lease) \<and>
      (mb_terminalCommitted m \<longrightarrow> \<not> lease_valid (mb_lease m)) \<and>
      (\<forall>t. final = Some t \<longrightarrow> closes_stream (rq_externalId r) (rq_promptTokens r) ds t) \<and>
      length (mb_deltas m) \<le> unat (max_queued_deltas m) \<and>
      unat (mb_queuedTokens m) = token_total (mb_deltas m) \<and>
      token_total (mb_deltas m) \<le> unat (max_queued_tokens m))"

text \<open>A vector has fewer than \<open>2^64\<close> elements.\<close>

fun op_fits :: "generation_op \<Rightarrow> bool" where
  "op_fits (CommitDelta tokens) \<longleftrightarrow> length tokens < 2 ^ 64"
| "op_fits _ \<longleftrightarrow> True"

lemma vector_size_exact: "length xs < 2 ^ 64 \<Longrightarrow> unat (vector_size xs) = length xs"
  by (simp add: vector_size_def unat_of_nat)

lemma token_total_simps [simp]:
  "token_total [] = 0" "token_total (d # ds) = length (dl_token_ids d) + token_total ds"
  "token_total (ds @ ds') = token_total ds + token_total ds'"
  by (simp_all add: token_total_def)

lemma numbered_snoc:
  "numbered rid ds \<Longrightarrow> ts \<noteq> [] \<Longrightarrow>
     numbered rid (ds @ [\<lparr>dl_request_id = rid, dl_sequence_no = word_of_nat (length ds), dl_token_ids = ts\<rparr>])"
  by (simp add: numbered_def)

text \<open>A push that succeeds: the queue had room, and the counter is exact.\<close>

lemma tryPushDelta_stored:
  assumes "tryPushDelta d m = (True, m')" and "length (dl_token_ids d) < 2 ^ 64"
    and "length (mb_deltas m) \<le> unat (max_queued_deltas m)"
    and "unat (mb_queuedTokens m) = token_total (mb_deltas m)"
    and "token_total (mb_deltas m) \<le> unat (max_queued_tokens m)"
  shows "m' = m\<lparr>mb_deltas := mb_deltas m @ [d],
                mb_queuedTokens := mb_queuedTokens m + vector_size (dl_token_ids d)\<rparr>"
    and "\<not> mb_closed m" "\<not> mb_terminalCommitted m" "dl_token_ids d \<noteq> []"
    and "length (mb_deltas m') \<le> unat (max_queued_deltas m)"
    and "unat (mb_queuedTokens m') = token_total (mb_deltas m')"
    and "token_total (mb_deltas m') \<le> unat (max_queued_tokens m)"
proof -
  have c: "\<not> (mb_closed m \<or> mb_terminalCommitted m)" "dl_token_ids d \<noteq> []"
    "\<not> vector_size (mb_deltas m) \<ge> max_queued_deltas m"
    "\<not> vector_size (dl_token_ids d) > max_queued_tokens m - mb_queuedTokens m"
    and m': "m' = m\<lparr>mb_deltas := mb_deltas m @ [d],
                mb_queuedTokens := mb_queuedTokens m + vector_size (dl_token_ids d)\<rparr>"
    using assms(1) unfolding tryPushDelta_def by (auto split: if_splits)
  have size: "unat (vector_size (dl_token_ids d)) = length (dl_token_ids d)"
    by (rule vector_size_exact [OF assms(2)])
  have "length (mb_deltas m) < 2 ^ 64"
    using assms(3) unat_bound [of "max_queued_deltas m"] by linarith
  then have "length (mb_deltas m) < unat (max_queued_deltas m)"
    using c(3) vector_size_exact [of "mb_deltas m"] by (simp add: word_le_nat_alt)
  moreover have room: "token_total (mb_deltas m) + length (dl_token_ids d) \<le> unat (max_queued_tokens m)"
    using c(4) budget_exact [OF assms(4,5), of "vector_size (dl_token_ids d)"] size by simp
  moreover have "unat (mb_queuedTokens m + vector_size (dl_token_ids d))
      = token_total (mb_deltas m) + length (dl_token_ids d)"
    using reserve_exact [OF assms(4), of "vector_size (dl_token_ids d)" "max_queued_tokens m"] room size
    by simp
  ultimately show "length (mb_deltas m') \<le> unat (max_queued_deltas m)"
    and "unat (mb_queuedTokens m') = token_total (mb_deltas m')"
    and "token_total (mb_deltas m') \<le> unat (max_queued_tokens m)"
    by (simp_all add: m')
  show "m' = m\<lparr>mb_deltas := mb_deltas m @ [d],
                mb_queuedTokens := mb_queuedTokens m + vector_size (dl_token_ids d)\<rparr>"
    by (rule m')
  show "\<not> mb_closed m" "\<not> mb_terminalCommitted m" "dl_token_ids d \<noteq> []"
    using c by simp_all
qed

lemma tryPushDelta_refused: "tryPushDelta d m = (False, m') \<Longrightarrow> m' = m"
  by (auto simp: tryPushDelta_def split: if_splits)

lemma commit_inv:
  assumes inv: "request_inv lease es g ds final" and fits: "length ts < 2 ^ 64"
    and run: "tryCommitDelta ts g = (res, g')"
  shows "\<exists>ds'. request_inv lease es g' ds' final"
proof (cases "res = DeltaCommitted")
  case True
  let ?r = "gn_request g"
  let ?d = "\<lparr>dl_request_id = rq_externalId ?r, dl_sequence_no = rq_nextSequenceNo ?r, dl_token_ids = ts\<rparr>"
  obtain m where push: "tryPushDelta ?d (gn_mailbox g) = (True, m)"
    and g': "g' = g\<lparr>gn_mailbox := m, gn_request := ?r\<lparr>rq_nextSequenceNo := rq_nextSequenceNo ?r + 1,
        rq_completionTokens := rq_completionTokens ?r + vector_size ts,
        rq_phase := (if rq_phase ?r = AcceptedPhase then RunningPhase else rq_phase ?r)\<rparr>\<rparr>"
    and phase: "rq_phase ?r \<noteq> TerminalPhase"
    using run True by (auto simp: tryCommitDelta_def Let_def split: if_splits prod.splits bool.splits)
  note stored = tryPushDelta_stored [OF push]
  have "request_inv lease es g' (ds @ [?d]) final"
    using inv fits stored numbered_snoc [of "rq_externalId ?r" ds ts] phase
    by (auto simp: request_inv_def Let_def g' stream_of_def mailbox_events_def vector_size_def add.commute)
  then show ?thesis by blast
next
  case False
  then have "g' = g"
    using run tryPushDelta_refused
    by (auto simp: tryCommitDelta_def Let_def split: if_splits prod.splits bool.splits)
  with inv show ?thesis by blast
qed

lemma finalize_inv:
  assumes inv: "request_inv lease es g ds final" and run: "finalize_request st reason g = (res, g')"
  shows "\<exists>final'. request_inv lease es g' ds final'"
proof (cases "res = TerminalCommitted")
  case True
  let ?t = "\<lparr>te_request_id = rq_externalId (gn_request g), te_status = st, te_finish_reason = reason,
    te_prompt_tokens = rq_promptTokens (gn_request g),
    te_completion_tokens = rq_completionTokens (gn_request g)\<rparr>"
  have "request_inv lease es g' ds (Some ?t)"
    using inv run True
    by (auto simp: request_inv_def Let_def finalize_request_def pushTerminal_def lease_release_def
        stream_of_def mailbox_events_def closes_stream_def split: if_splits prod.splits bool.splits)
  then show ?thesis by blast
next
  case False
  then have "g' = g"
    using run
    by (auto simp: finalize_request_def pushTerminal_def Let_def split: if_splits prod.splits bool.splits)
  with inv show ?thesis by blast
qed

lemma pop_inv:
  assumes inv: "request_inv lease es g ds final" and run: "generation_step Pop g = (es', g')"
  shows "request_inv lease (es @ es') g' ds final"
proof (cases "mb_deltas (gn_mailbox g)")
  case (Cons d rest)
  let ?m = "gn_mailbox g"
  have "token_total (mb_deltas ?m) \<le> unat (max_queued_tokens ?m)"
    using inv by (simp add: request_inv_def Let_def)
  then have "length (dl_token_ids d) < 2 ^ 64"
    using Cons unat_bound [of "max_queued_tokens ?m"] by simp
  then have "unat (mb_queuedTokens ?m - vector_size (dl_token_ids d)) = token_total rest"
    using inv Cons vector_size_exact [of "dl_token_ids d"] by (intro return_exact) (simp add: request_inv_def Let_def)
  with inv run Cons show ?thesis
    by (auto simp: request_inv_def Let_def mailbox_waitPop_def stream_of_def mailbox_events_def)
next
  case Nil
  with inv run show ?thesis
    by (cases "mb_terminal (gn_mailbox g)")
      (auto simp: request_inv_def Let_def mailbox_waitPop_def stream_of_def mailbox_events_def
        split: if_splits)
qed

text \<open>A step that touches neither the queue nor the numbering keeps the stream.\<close>

lemma silent_inv:
  assumes "request_inv lease es g ds final"
    and "\<exists>p. gn_request g' = gn_request g\<lparr>rq_phase := p\<rparr> \<and>
             (p = TerminalPhase \<longleftrightarrow> rq_phase (gn_request g) = TerminalPhase)"
    and "\<exists>b. gn_mailbox g' = gn_mailbox g\<lparr>mb_closed := b\<rparr>"
  shows "request_inv lease es g' ds final"
  using assms by (auto simp: request_inv_def Let_def stream_of_def mailbox_events_def)

lemma unchanged_request: "\<exists>p. r = r\<lparr>rq_phase := p\<rparr> \<and> (p = TerminalPhase \<longleftrightarrow> rq_phase r = TerminalPhase)"
  by (rule exI [of _ "rq_phase r"]) simp

lemma unchanged_mailbox: "\<exists>b. m = m\<lparr>mb_closed := b\<rparr>"
  by (rule exI [of _ "mb_closed m"]) simp

lemma mark_phase:
  "\<exists>p. snd (markRunning r) = r\<lparr>rq_phase := p\<rparr> \<and> (p = TerminalPhase \<longleftrightarrow> rq_phase r = TerminalPhase)"
  "\<exists>p. snd (markCancelling r) = r\<lparr>rq_phase := p\<rparr> \<and> (p = TerminalPhase \<longleftrightarrow> rq_phase r = TerminalPhase)"
  using unchanged_request [of r] by (auto simp: markRunning_def markCancelling_def)

lemma generation_step_inv:
  assumes inv: "request_inv lease es g ds final" and fits: "op_fits op"
    and run: "generation_step op g = (es', g')"
  shows "\<exists>ds' final'. request_inv lease (es @ es') g' ds' final'"
proof (cases op)
  case (CommitDelta ts)
  with commit_inv [OF inv, of ts "fst (tryCommitDelta ts g)" g'] fits run show ?thesis
    by (auto simp: prod_eq_iff)
next
  case (Finalize st reason)
  with finalize_inv [OF inv, of st reason "fst (finalize_request st reason g)" g'] run show ?thesis
    by (auto simp: prod_eq_iff)
next
  case Pop
  with pop_inv [OF inv, of es' g'] run show ?thesis by blast
next
  case MarkRunning
  with run have "es' = []" and "request_inv lease es g' ds final"
    by (auto intro!: silent_inv [OF inv] mark_phase unchanged_mailbox)
  then show ?thesis by auto
next
  case MarkCancelling
  with run have "es' = []" and "request_inv lease es g' ds final"
    by (auto intro!: silent_inv [OF inv] mark_phase unchanged_mailbox)
  then show ?thesis by auto
next
  case CloseMailbox
  with run have "es' = []" and "request_inv lease es g' ds final"
    by (auto simp: mailbox_close_def intro!: silent_inv [OF inv] unchanged_request)
  then show ?thesis by auto
next
  case (Others a)
  with run have "es' = []" and "request_inv lease es g' ds final"
    by (auto intro!: silent_inv [OF inv] unchanged_request unchanged_mailbox)
  then show ?thesis by auto
qed

lemma generation_run_inv:
  assumes "request_inv lease es g ds final" and "list_all op_fits ops"
    and "generation_run ops g = (es', g')"
  shows "\<exists>ds' final'. request_inv lease (es @ es') g' ds' final'"
  using assms
proof (induction ops arbitrary: es g ds final es')
  case Nil
  then show ?case by auto
next
  case (Cons op ops)
  obtain e1 g1 e2 where s: "generation_step op g = (e1, g1)" "generation_run ops g1 = (e2, g')" "es' = e1 @ e2"
    using Cons.prems(3) by (auto split: prod.splits)
  obtain ds1 f1 where "request_inv lease (es @ e1) g1 ds1 f1"
    using generation_step_inv [OF Cons.prems(1) _ s(1)] Cons.prems(2) by auto
  from Cons.IH [OF this _ s(2)] Cons.prems(2) s(3) show ?case by auto
qed

lemma generation_step_ids:
  assumes "generation_step op g = (es, g')"
  shows "rq_externalId (gn_request g') = rq_externalId (gn_request g) \<and>
         rq_promptTokens (gn_request g') = rq_promptTokens (gn_request g) \<and>
         max_queued_deltas (gn_mailbox g') = max_queued_deltas (gn_mailbox g) \<and>
         max_queued_tokens (gn_mailbox g') = max_queued_tokens (gn_mailbox g)"
  using assms
  by (cases op)
    (auto simp: markRunning_def markCancelling_def mailbox_close_def tryCommitDelta_def tryPushDelta_def
      finalize_request_def pushTerminal_def mailbox_waitPop_def Let_def
      split: if_splits prod.splits bool.splits list.splits option.splits MailboxWaitResult.splits)

lemma generation_run_ids:
  "generation_run ops g = (es, g') \<Longrightarrow>
     rq_externalId (gn_request g') = rq_externalId (gn_request g) \<and>
     rq_promptTokens (gn_request g') = rq_promptTokens (gn_request g) \<and>
     max_queued_deltas (gn_mailbox g') = max_queued_deltas (gn_mailbox g) \<and>
     max_queued_tokens (gn_mailbox g') = max_queued_tokens (gn_mailbox g)"
proof (induction ops arbitrary: g es)
  case (Cons op ops)
  then show ?case
    by (auto split: prod.splits dest!: generation_step_ids)
qed simp

section \<open>Properties\<close>

lemma start_inv:
  assumes "RequestState_init ext exec prompt deadline True = Inr r"
    and "GenerationMailbox_init dmax tmax lease = Inr m"
  shows "request_inv lease [] (generation_start r m a) [] None"
  using assms
  by (auto simp: RequestState_init_def GenerationMailbox_init_def generation_start_def request_inv_def Let_def
      stream_of_def mailbox_events_def numbered_def split: if_splits)

text \<open>
  C11. However the backend, a canceller, the pump and the owner of one request interleave, the events
  taken out of the mailbox, followed by those still in it, are non-empty deltas of that request
  numbered 0, 1, 2, ... without a gap, then at most one terminal, there exactly when the request is
  in its terminal phase, whose usage is the prompt length and the number of tokens delivered before
  it; the admission lease is kept until the terminal is committed and is released by it; and the
  queue stays within its two capacities, its token counter exact.
\<close>

theorem request_stream:
  assumes "RequestState_init ext exec prompt deadline True = Inr r"
    and "GenerationMailbox_init dmax tmax lease = Inr m"
    and "list_all op_fits ops"
    and "generation_run ops (generation_start r m a) = (es, g)"
  shows "\<exists>ds final.
     es @ mailbox_events (gn_mailbox g) = map DeltaEvent ds @ map TerminalEvent (option_list final) \<and>
     numbered ext ds \<and>
     (case final of
        None \<Rightarrow> rq_phase (gn_request g) \<noteq> TerminalPhase \<and> mb_lease (gn_mailbox g) = lease
      | Some t \<Rightarrow> rq_phase (gn_request g) = TerminalPhase \<and> \<not> lease_valid (mb_lease (gn_mailbox g)) \<and>
                  closes_stream ext prompt ds t) \<and>
     length (mb_deltas (gn_mailbox g)) \<le> unat dmax \<and>
     unat (mb_queuedTokens (gn_mailbox g)) = token_total (mb_deltas (gn_mailbox g)) \<and>
     token_total (mb_deltas (gn_mailbox g)) \<le> unat tmax"
proof -
  obtain ds final where inv: "request_inv lease es g ds final"
    using generation_run_inv [OF start_inv [OF assms(1,2)] assms(3,4)] by auto
  have ids: "rq_externalId (gn_request g) = ext" "rq_promptTokens (gn_request g) = prompt"
    "max_queued_deltas (gn_mailbox g) = dmax" "max_queued_tokens (gn_mailbox g) = tmax"
    using generation_run_ids [OF assms(4)] assms(1,2)
    by (auto simp: generation_start_def RequestState_init_def GenerationMailbox_init_def split: if_splits)
  show ?thesis
    using inv by (intro exI [of _ ds] exI [of _ final])
      (auto simp: request_inv_def Let_def stream_of_def ids split: option.splits)
qed

definition sample_request_state :: RequestState where
  "sample_request_state =
     \<lparr>rq_externalId = 1, rq_executorId = 7, rq_promptTokens = 5, rq_deadline = 0, rq_phase = AcceptedPhase,
      rq_completionTokens = 0, rq_nextSequenceNo = 0\<rparr>"

definition sample_lease :: AdmissionLease where
  "sample_lease = AdmissionLease_make \<lparr>aq_request_id = 1, aq_input_tokens = 5, aq_reserved_output_tokens = 9\<rparr>"

definition sample_mailbox :: GenerationMailbox where
  "sample_mailbox =
     \<lparr>max_queued_deltas = 2, max_queued_tokens = 3, mb_lease = sample_lease,
      mb_deltas = [], mb_terminal = None, mb_queuedTokens = 0, mb_terminalCommitted = False, mb_closed = False\<rparr>"

text \<open>The second delta does not fit the token budget and is refused; after a pop it does.\<close>

definition sample_generation_ops :: "generation_op list" where
  "sample_generation_ops = [MarkRunning, CommitDelta [10, 11], CommitDelta [12, 13], Pop, CommitDelta [12, 13],
     Finalize (Status_make ''ok'' []) (Some Eos), CommitDelta [14], Pop, Pop]"

theorem request_stream_witness:
  "fst (generation_run sample_generation_ops (generation_start sample_request_state sample_mailbox sample_admission)) =
     [DeltaEvent \<lparr>dl_request_id = 1, dl_sequence_no = 0, dl_token_ids = [10, 11]\<rparr>,
      DeltaEvent \<lparr>dl_request_id = 1, dl_sequence_no = 1, dl_token_ids = [12, 13]\<rparr>,
      TerminalEvent \<lparr>te_request_id = 1, te_status = Status_make ''ok'' [], te_finish_reason = Some Eos,
        te_prompt_tokens = 5, te_completion_tokens = 4\<rparr>] \<and>
   (\<exists>ds final. numbered 1 ds \<and> closes_stream 1 5 ds final)"
proof -
  have r: "RequestState_init 1 7 5 0 True = Inr sample_request_state"
    by (simp add: RequestState_init_def sample_request_state_def)
  have m: "GenerationMailbox_init 2 3 sample_lease = Inr sample_mailbox"
    by (simp add: GenerationMailbox_init_def sample_mailbox_def)
  have fits: "list_all op_fits sample_generation_ops"
    by (simp add: sample_generation_ops_def)
  let ?run = "generation_run sample_generation_ops (generation_start sample_request_state sample_mailbox sample_admission)"
  have es: "fst ?run =
     [DeltaEvent \<lparr>dl_request_id = 1, dl_sequence_no = 0, dl_token_ids = [10, 11]\<rparr>,
      DeltaEvent \<lparr>dl_request_id = 1, dl_sequence_no = 1, dl_token_ids = [12, 13]\<rparr>,
      TerminalEvent \<lparr>te_request_id = 1, te_status = Status_make ''ok'' [], te_finish_reason = Some Eos,
        te_prompt_tokens = 5, te_completion_tokens = 4\<rparr>]"
    by code_simp
  have phase: "rq_phase (gn_request (snd ?run)) = TerminalPhase"
    by code_simp
  obtain ds final where "numbered 1 ds" and
    "case final of
        None \<Rightarrow> rq_phase (gn_request (snd ?run)) \<noteq> TerminalPhase \<and> mb_lease (gn_mailbox (snd ?run)) = sample_lease
      | Some t \<Rightarrow> rq_phase (gn_request (snd ?run)) = TerminalPhase \<and>
          \<not> lease_valid (mb_lease (gn_mailbox (snd ?run))) \<and> closes_stream 1 5 ds t"
    using request_stream [OF r m fits surjective_pairing] by blast
  with phase have "\<exists>ds final. numbered 1 ds \<and> closes_stream 1 5 ds final"
    by (cases final) auto
  with es show ?thesis by blast
qed

end
