(* ===== verification/Worker_Bridge.thy ===== *)
theory Worker_Bridge
  imports Worker_Egress Worker_Request Client_Samples "HOL-Library.Sublist"
begin

text \<open>
  The pump of a request in \<open>src/worker/runtime_bridge.cpp\<close>, between the request's mailbox
  (\<open>Worker_Request\<close>) and the session's outgoing queue (\<open>Worker_Egress\<close>), and the path of a request's
  events through all three to the Python client's dispatcher. The pump's loop is two steps, so that
  other threads run between taking an event out of the mailbox and forwarding it.
\<close>

section \<open>Order of a request's messages in the egress\<close>

fun message_request :: "ServerMessage \<Rightarrow> int option" where
  "message_request (MTokenDelta d) = Some (td_request_id d)"
| "message_request (MTerminal t) = Some (tm_request_id t)"
| "message_request _ = None"

definition queued_for :: "size_t \<Rightarrow> SessionEgress \<Rightarrow> ServerMessage list" where
  "queued_for i s =
     (case map_of (eg_requests s) i of None \<Rightarrow> [] | Some q \<Rightarrow> map sm_message (rq_messages q))"

definition popped :: "SessionEgressWaitResult \<Rightarrow> ServerMessage list" where
  "popped r = (case r of WaitMessage m \<Rightarrow> [m] | _ \<Rightarrow> [])"

definition of_request :: "size_t \<Rightarrow> ServerMessage list \<Rightarrow> ServerMessage list" where
  "of_request i ms = filter (\<lambda>m. message_request m = Some (uint i)) ms"

text \<open>Every queued message carries the id of its queue, and the control messages carry none.\<close>

definition ids_ok :: "SessionEgress \<Rightarrow> bool" where
  "ids_ok s \<longleftrightarrow>
     (\<forall>i. \<forall>m\<in>set (queued_for i s). message_request m = Some (uint i)) \<and>
     (\<forall>m\<in>set (eg_control s). message_request (sm_message m) = None)"

lemma of_request_simps [simp]: "of_request i [] = []" "of_request i (xs @ ys) = of_request i xs @ of_request i ys"
  by (simp_all add: of_request_def)

lemma of_request_length: "length (of_request i ms) \<le> length ms"
  by (simp add: of_request_def)

lemma queued_update:
  "eg_requests s' = AList.update j q (eg_requests s) \<Longrightarrow>
     queued_for i s' = (if i = j then map sm_message (rq_messages q) else queued_for i s)"
  by (simp add: queued_for_def map_of_update_dict)

lemma queued_delete:
  "eg_requests s' = AList.delete j (eg_requests s) \<Longrightarrow> queued_for i s' = (if i = j then [] else queued_for i s)"
  by (simp add: queued_for_def map_of_delete_dict)

lemma queued_same: "eg_requests s' = eg_requests s \<Longrightarrow> queued_for i s' = queued_for i s"
  by (simp add: queued_for_def)

lemma append_queued:
  assumes "map_of (eg_requests s) j = Some q" and "eg_requests s0 = eg_requests s"
  shows "queued_for i (append_message j (q\<lparr>rq_terminal_enqueued := t\<rparr>) sized s0) =
           queued_for i s @ (if i = j then [sm_message sized] else [])"
    and "queued_for i (append_message j q sized s0) = queued_for i s @ (if i = j then [sm_message sized] else [])"
    and "eg_control (append_message j (q\<lparr>rq_terminal_enqueued := t\<rparr>) sized s0) = eg_control s0"
    and "eg_control (append_message j q sized s0) = eg_control s0"
  using assms
  by (auto simp: append_message_def updateHighWatermarks_def Let_def queued_for_def map_of_update_dict)

lemma delta_fifo:
  "queued_for i (snd (enqueueDelta dump epoch j m s)) =
     queued_for i s @ (if i = j \<and> fst (enqueueDelta dump epoch j m s) = Enqueued then [m] else [])"
  "eg_control (snd (enqueueDelta dump epoch j m s)) = eg_control s"
  "fst (enqueueDelta dump epoch j m s) = Enqueued \<Longrightarrow> message_request m = Some (uint j)"
  "fst (enqueueDelta dump epoch j m s) = Enqueued \<Longrightarrow> eg_accepting s"
  "eg_accepting (snd (enqueueDelta dump epoch j m s)) = eg_accepting s"
  using append_queued [of s j _ s] sizeMessage_Some(1)
  by (auto simp: enqueueDelta_def append_message_def updateHighWatermarks_def Let_def
      split: if_splits option.splits ServerMessage.splits)

lemma terminal_fifo:
  "queued_for i (snd (enqueueTerminal dump epoch j m s)) =
     queued_for i s @ (if i = j \<and> fst (enqueueTerminal dump epoch j m s) = Enqueued then [m] else [])"
  "eg_control (snd (enqueueTerminal dump epoch j m s)) = eg_control s"
  "fst (enqueueTerminal dump epoch j m s) = Enqueued \<Longrightarrow> message_request m = Some (uint j)"
  "fst (enqueueTerminal dump epoch j m s) = Enqueued \<Longrightarrow> eg_accepting s"
  "eg_accepting (snd (enqueueTerminal dump epoch j m s)) = eg_accepting s"
  using append_queued [of s j _ "s\<lparr>eg_terminal_reservations := eg_terminal_reservations s - 1\<rparr>"] sizeMessage_Some(1)
  by (auto simp: enqueueTerminal_def append_message_def updateHighWatermarks_def Let_def
      split: if_splits option.splits ServerMessage.splits)

text \<open>What the writer's pop takes for a request is the head of its queue.\<close>

lemma pop_fifo:
  assumes inv: "egress_inv s" and ids: "ids_ok s"
  shows "of_request i (popped (fst (egress_waitPop timeout s))) @ queued_for i (snd (egress_waitPop timeout s))
           = queued_for i s"
    and "set (eg_control (snd (egress_waitPop timeout s))) \<subseteq> set (eg_control s)"
    and "eg_accepting (snd (egress_waitPop timeout s)) = eg_accepting s"
proof -
  have "(of_request i (popped (fst (egress_waitPop timeout s))) @ queued_for i (snd (egress_waitPop timeout s))
           = queued_for i s) \<and>
        set (eg_control (snd (egress_waitPop timeout s))) \<subseteq> set (eg_control s) \<and>
        eg_accepting (snd (egress_waitPop timeout s)) = eg_accepting s"
  proof (cases "eg_control s")
    case (Cons m rest)
    with ids have "message_request (sm_message m) = None"
      by (simp add: ids_ok_def)
    with Cons show ?thesis
      by (auto simp: egress_waitPop_def popped_def of_request_def queued_for_def)
  next
    case control: Nil
    show ?thesis
    proof (cases "eg_round_robin s")
      case Nil
      with control show ?thesis
        by (auto simp: egress_waitPop_def popped_def queued_for_def)
    next
      case (Cons j rr)
      obtain q m rest where q: "map_of (eg_requests s) j = Some q" "rq_messages q = m # rest"
        by (rule pop_first [OF inv Cons])
      have j: "message_request (sm_message m) = Some (uint j)"
        using ids q by (auto simp: ids_ok_def queued_for_def dest: spec [of _ j])
      show ?thesis
        using q control Cons j
        by (auto simp: egress_waitPop_def popped_def of_request_def queued_for_def Let_def map_of_update_dict
            map_of_delete_dict word_uint_eq_iff [symmetric])
    qed
  qed
  then show "of_request i (popped (fst (egress_waitPop timeout s))) @ queued_for i (snd (egress_waitPop timeout s))
           = queued_for i s"
    and "set (eg_control (snd (egress_waitPop timeout s))) \<subseteq> set (eg_control s)"
    and "eg_accepting (snd (egress_waitPop timeout s)) = eg_accepting s"
    by blast+
qed

section \<open>The pump\<close>

text \<open>The flags of a request's record, with the event its pump holds between two steps.\<close>

record RequestRecord =
  br_cancel_requested :: bool
  br_backpressure_requested :: bool
  br_terminal_enqueued :: bool
  br_pump_finished :: bool
  br_event :: "Worker_Request.GenerationEvent option"

record Bridge =
  bg_epoch :: size_t
  bg_max_status_message_bytes :: nat
  bg_request_id :: size_t
  bg_generation :: Generation
  bg_record :: RequestRecord
  bg_egress :: SessionEgress
  bg_stop_requested :: bool

definition fresh_record :: RequestRecord where
  "fresh_record =
     \<lparr>br_cancel_requested = False, br_backpressure_requested = False, br_terminal_enqueued = False,
      br_pump_finished = False, br_event = None\<rparr>"

text \<open>\<open>runtime.cancel\<close> is the backend's: what it does to the request are steps of the request.\<close>

definition cancelRecord :: "RequestRecord \<Rightarrow> RequestRecord" where
  "cancelRecord r = (if br_terminal_enqueued r then r else r\<lparr>br_cancel_requested := True\<rparr>)"

definition beginShutdown :: "Bridge \<Rightarrow> Bridge" where
  "beginShutdown b =
     (if bg_stop_requested b then b
      else b\<lparr>bg_stop_requested := True, bg_egress := egress_stop (bg_egress b), bg_record := cancelRecord (bg_record b)\<rparr>)"

definition finish_pump :: "Bridge \<Rightarrow> Bridge" where
  "finish_pump b = b\<lparr>bg_record := (bg_record b)\<lparr>br_pump_finished := True, br_event := None\<rparr>\<rparr>"

definition boundedStatus :: "nat \<Rightarrow> Status \<Rightarrow> Status" where
  "boundedStatus n st = (if length (st_message st) > n then st\<lparr>st_message := take n (st_message st)\<rparr> else st)"

fun wireFinishReason :: "FinishReason \<Rightarrow> string" where
  "wireFinishReason Eos = ''eos''"
| "wireFinishReason Length = ''length''"
| "wireFinishReason Stop = ''stop''"
| "wireFinishReason Cancelled = ''cancelled''"
| "wireFinishReason Timeout = ''timeout''"
| "wireFinishReason Backpressure = ''backpressure''"

definition wire_delta :: "Worker_Request.TokenDelta \<Rightarrow> Protocol.TokenDelta" where
  "wire_delta d =
     \<lparr>td_request_id = uint (dl_request_id d), td_sequence_no = uint (dl_sequence_no d),
      td_token_ids = map sint (dl_token_ids d)\<rparr>"

definition wire_terminal :: "nat \<Rightarrow> bool \<Rightarrow> TerminalEvent \<Rightarrow> Terminal" where
  "wire_terminal max_status backpressure t =
     \<lparr>tm_request_id = uint (te_request_id t),
      tm_status = (if backpressure then Status_make ''queue_full'' ''request cancelled because IPC egress was full''
                   else boundedStatus max_status (te_status t)),
      tm_finish_reason = (if backpressure then Some (wireFinishReason Backpressure)
                          else map_option wireFinishReason (te_finish_reason t)),
      tm_usage = \<lparr>us_prompt_tokens = uint (te_prompt_tokens t), us_completion_tokens = uint (te_completion_tokens t)\<rparr>\<rparr>"

definition pump_pop :: "Bridge \<Rightarrow> Bridge" where
  "pump_pop b =
     (if br_pump_finished (bg_record b) \<or> br_event (bg_record b) \<noteq> None then b
      else if bg_stop_requested b then finish_pump b
      else case mailbox_waitPop (gn_mailbox (bg_generation b)) of (res, m) \<Rightarrow>
        let b1 = b\<lparr>bg_generation := (bg_generation b)\<lparr>gn_mailbox := m\<rparr>\<rparr> in
        case res of
          MailboxWaitResult.WaitTimeout \<Rightarrow> b1
        | Closed \<Rightarrow> finish_pump (beginShutdown b1)
        | Event e \<Rightarrow> b1\<lparr>bg_record := (bg_record b)\<lparr>br_event := Some e\<rparr>\<rparr>)"

definition forward_delta :: "(json \<Rightarrow> bytes option) \<Rightarrow> Worker_Request.TokenDelta \<Rightarrow> Bridge \<Rightarrow> Bridge" where
  "forward_delta dump d b =
     (let r = (bg_record b)\<lparr>br_event := None\<rparr> in
      if br_cancel_requested r then b\<lparr>bg_record := r\<rparr>
      else
        case enqueueDelta dump (uint (bg_epoch b)) (bg_request_id b) (MTokenDelta (wire_delta d)) (bg_egress b) of
          (code, s) \<Rightarrow>
            let b1 = b\<lparr>bg_egress := s, bg_record := r\<rparr> in
            if code = Enqueued then b1
            else if code = RequestFull \<or> code = SessionFull
            then b1\<lparr>bg_record := cancelRecord (r\<lparr>br_backpressure_requested := True\<rparr>)\<rparr>
            else if code = Stopped then finish_pump b1
            else finish_pump (beginShutdown b1))"

definition forward_terminal :: "(json \<Rightarrow> bytes option) \<Rightarrow> TerminalEvent \<Rightarrow> Bridge \<Rightarrow> Bridge" where
  "forward_terminal dump t b =
     (case enqueueTerminal dump (uint (bg_epoch b)) (bg_request_id b)
             (MTerminal (wire_terminal (bg_max_status_message_bytes b) (br_backpressure_requested (bg_record b)) t))
             (bg_egress b) of
        (code, s) \<Rightarrow>
          let b1 = b\<lparr>bg_egress := s\<rparr> in
          if code = Enqueued then finish_pump (b1\<lparr>bg_record := (bg_record b1)\<lparr>br_terminal_enqueued := True\<rparr>\<rparr>)
          else if code = Stopped then finish_pump b1
          else finish_pump (beginShutdown b1))"

definition pump_forward :: "(json \<Rightarrow> bytes option) \<Rightarrow> Bridge \<Rightarrow> Bridge" where
  "pump_forward dump b =
     (case br_event (bg_record b) of
        None \<Rightarrow> b
      | Some (DeltaEvent d) \<Rightarrow> forward_delta dump d b
      | Some (Worker_Request.GenerationEvent.TerminalEvent t) \<Rightarrow> forward_terminal dump t b)"

text \<open>
  The steps of one request's path: the backend and the runtime on the request (\<open>Backend\<close>), the two
  steps of its pump, a cancel from the client, everything else that happens to the session's queue
  (\<open>Session\<close>, with the writer's \<open>Pop\<close>), and a shutdown. A step returns what the writer took out.
\<close>

datatype bridge_op =
    Backend generation_op
  | PumpPop
  | PumpForward
  | ClientCancel
  | Session egress_op
  | Shutdown

fun bridge_step :: "(json \<Rightarrow> bytes option) \<Rightarrow> bridge_op \<Rightarrow> Bridge \<Rightarrow> ServerMessage list \<times> Bridge" where
  "bridge_step dump (Backend op) b = ([], b\<lparr>bg_generation := snd (generation_step op (bg_generation b))\<rparr>)"
| "bridge_step dump PumpPop b = ([], pump_pop b)"
| "bridge_step dump PumpForward b = ([], pump_forward dump b)"
| "bridge_step dump ClientCancel b = ([], b\<lparr>bg_record := cancelRecord (bg_record b)\<rparr>)"
| "bridge_step dump (Session op) b =
     (case op of egress_op.Pop \<Rightarrow> popped (fst (egress_waitPop 0 (bg_egress b))) | _ \<Rightarrow> [],
      b\<lparr>bg_egress := egress_step dump (uint (bg_epoch b)) op (bg_egress b)\<rparr>)"
| "bridge_step dump Shutdown b = ([], beginShutdown b)"

fun bridge_run :: "(json \<Rightarrow> bytes option) \<Rightarrow> bridge_op list \<Rightarrow> Bridge \<Rightarrow> ServerMessage list \<times> Bridge" where
  "bridge_run dump [] b = ([], b)"
| "bridge_run dump (op # ops) b =
     (case bridge_step dump op b of (ms, b1) \<Rightarrow>
        case bridge_run dump ops b1 of (ms', b2) \<Rightarrow> (ms @ ms', b2))"

text \<open>The request once its \<open>Accepted\<close> has been enqueued and its pump let go.\<close>

definition bridge_start ::
  "size_t \<Rightarrow> nat \<Rightarrow> size_t \<Rightarrow> Worker_Request.RequestState \<Rightarrow> GenerationMailbox \<Rightarrow> AdmissionState \<Rightarrow> SessionEgress \<Rightarrow> Bridge"
where
  "bridge_start epoch max_status i r m a s =
     \<lparr>bg_epoch = epoch, bg_max_status_message_bytes = max_status, bg_request_id = i,
      bg_generation = generation_start r m a, bg_record = fresh_record, bg_egress = s, bg_stop_requested = False\<rparr>"

section \<open>The invariant of the path\<close>

text \<open>Steps of the session's queue that leave the queue of request \<open>i\<close> to its pump.\<close>

fun foreign :: "size_t \<Rightarrow> egress_op \<Rightarrow> bool" where
  "foreign i (Abandon j) \<longleftrightarrow> j \<noteq> i"
| "foreign i (Delta j _) \<longleftrightarrow> j \<noteq> i"
| "foreign i (Final j _) \<longleftrightarrow> j \<noteq> i"
| "foreign i _ \<longleftrightarrow> True"

fun bridge_op_ok :: "size_t \<Rightarrow> bridge_op \<Rightarrow> bool" where
  "bridge_op_ok i (Backend op) \<longleftrightarrow> op_fits op \<and> op \<noteq> generation_op.Pop"
| "bridge_op_ok i (Session op) \<longleftrightarrow> foreign i op"
| "bridge_op_ok i _ \<longleftrightarrow> True"

lemma ids_okI:
  assumes "ids_ok s" and "\<And>i m. m \<in> set (queued_for i s') \<Longrightarrow> m \<in> set (queued_for i s) \<or> message_request m = Some (uint i)"
    and "\<And>m. m \<in> set (eg_control s') \<Longrightarrow> m \<in> set (eg_control s) \<or> message_request (sm_message m) = None"
  shows "ids_ok s'"
  using assms unfolding ids_ok_def by metis

lemma register_queued:
  "queued_for i (snd (registerRequest j s)) = queued_for i s"
  "eg_control (snd (registerRequest j s)) = eg_control s"
  "eg_accepting (snd (registerRequest j s)) = eg_accepting s"
  by (auto simp: registerRequest_def queued_for_def RequestQueue_empty_def map_of_update_dict split: option.splits)

lemma abandon_queued:
  "queued_for i (snd (abandonRequest j s)) = (if i = j then [] else queued_for i s)"
  "eg_control (snd (abandonRequest j s)) = eg_control s"
  "eg_accepting (snd (abandonRequest j s)) = eg_accepting s"
  by (auto simp: abandonRequest_def removeScheduledRequest_def queued_for_def Let_def map_of_delete_dict
      split: option.splits)

lemma control_queued:
  "queued_for i (snd (enqueueControl dump epoch m s)) = queued_for i s"
  "x \<in> set (eg_control (snd (enqueueControl dump epoch m s))) \<Longrightarrow> x \<in> set (eg_control s) \<or> message_request (sm_message x) = None"
  "eg_accepting (snd (enqueueControl dump epoch m s)) = eg_accepting s"
  using sizeMessage_Some(1)
  by (cases m; fastforce simp: enqueueControl_def updateHighWatermarks_def queued_for_def split: if_splits option.splits)+

lemma stop_queued: "queued_for i (egress_stop s) = (if eg_accepting s then [] else queued_for i s)"
  "set (eg_control (egress_stop s)) \<subseteq> set (eg_control s)" "\<not> eg_accepting (egress_stop s)"
  by (auto simp: egress_stop_def queued_for_def)

lemma pop_ids:
  assumes "egress_inv s" and "ids_ok s"
  shows "ids_ok (snd (egress_waitPop timeout s))"
proof (rule ids_okI [OF assms(2)])
  fix i m
  assume "m \<in> set (queued_for i (snd (egress_waitPop timeout s)))"
  then show "m \<in> set (queued_for i s) \<or> message_request m = Some (uint i)"
    using pop_fifo(1) [OF assms, of i timeout] by (metis Un_iff set_append)
qed (use pop_fifo(2) [OF assms] in blast)

lemma egress_step_ids:
  assumes "egress_inv s" and "ids_ok s"
  shows "ids_ok (egress_step dump epoch op s)"
proof (cases op)
  case Pop
  with pop_ids [OF assms] show ?thesis by simp
next
  case (Register j)
  with assms(2) show ?thesis by (auto intro: ids_okI simp: register_queued)
next
  case (Abandon j)
  with assms(2) show ?thesis by (auto intro: ids_okI simp: abandon_queued split: if_splits)
next
  case (Control m)
  show ?thesis
    by (rule ids_okI [OF assms(2)]) (use Control control_queued(2) in \<open>simp add: control_queued(1)\<close>, metis Control control_queued(2) egress_step.simps(3))
next
  case (Delta j m)
  with assms(2) delta_fifo(3) show ?thesis
    by (auto intro!: ids_okI [OF assms(2)] simp: delta_fifo(1,2) split: if_splits)
next
  case (Final j m)
  with assms(2) terminal_fifo(3) show ?thesis
    by (auto intro!: ids_okI [OF assms(2)] simp: terminal_fifo(1,2) split: if_splits)
next
  case StopEgress
  with assms(2) stop_queued show ?thesis
    by (auto intro!: ids_okI [OF assms(2)] simp: stop_queued(1) split: if_splits)
qed

definition written :: "egress_op \<Rightarrow> SessionEgress \<Rightarrow> ServerMessage list" where
  "written op s = (case op of egress_op.Pop \<Rightarrow> popped (fst (egress_waitPop 0 s)) | _ \<Rightarrow> [])"

lemma foreign_fifo:
  assumes inv: "egress_inv s" and ids: "ids_ok s" and "foreign i op"
  shows "prefix (of_request i (written op s) @ queued_for i (egress_step dump epoch op s)) (queued_for i s) \<and>
    (eg_accepting (egress_step dump epoch op s) \<longrightarrow>
       eg_accepting s \<and> of_request i (written op s) @ queued_for i (egress_step dump epoch op s) = queued_for i s)"
proof (cases op)
  case Pop
  with pop_fifo(1) [OF inv ids, of i 0] pop_fifo(3) [OF inv ids, of 0] show ?thesis by (simp add: written_def)
next
  case StopEgress
  then show ?thesis
    using stop_queued(1) [of i s] stop_queued(3) [of s] by (auto simp: written_def)
qed (use assms(3) in \<open>auto simp: written_def register_queued abandon_queued control_queued delta_fifo(1,5) terminal_fifo(1,5)\<close>)

text \<open>
  The queue and the wire hold, in order, what the pump has enqueued (\<open>enq\<close>); a stop may drop the rest.
\<close>

definition wire_inv :: "ServerMessage list \<Rightarrow> ServerMessage list \<Rightarrow> Bridge \<Rightarrow> bool" where
  "wire_inv out enq b \<longleftrightarrow>
     (let i = bg_request_id b; s = bg_egress b in
      egress_inv s \<and> config_ok (eg_config s) \<and> ids_ok s \<and>
      prefix (of_request i out @ queued_for i s) enq \<and>
      (eg_accepting s \<longrightarrow> of_request i out @ queued_for i s = enq))"

text \<open>
  The pump has taken \<open>es\<close> out of the mailbox and enqueued the deltas \<open>ds\<close> and the terminal \<open>tail\<close> of it:
  all of it until a cancel, a prefix afterwards.
\<close>

definition pump_inv :: "GenerationEvent list \<Rightarrow> Worker_Request.TokenDelta list \<Rightarrow> Terminal option \<Rightarrow> Bridge \<Rightarrow> bool" where
  "pump_inv es ds tail b \<longleftrightarrow>
     (let r = bg_record b in
      prefix (map DeltaEvent ds) es \<and>
      (\<not> br_cancel_requested r \<and> \<not> br_pump_finished r \<longrightarrow> es = map DeltaEvent ds) \<and>
      (br_pump_finished r \<longrightarrow> br_event r = None) \<and> (br_terminal_enqueued r \<longrightarrow> br_pump_finished r) \<and>
      (tail \<noteq> None \<longrightarrow> br_pump_finished r \<and>
         (\<exists>t bp. tail = Some (wire_terminal (bg_max_status_message_bytes b) bp t) \<and>
                 Worker_Request.GenerationEvent.TerminalEvent t \<in> set es)))"

definition sent_stream :: "Worker_Request.TokenDelta list \<Rightarrow> Terminal option \<Rightarrow> ServerMessage list" where
  "sent_stream ds tail = map (\<lambda>d. MTokenDelta (wire_delta d)) ds @ map MTerminal (option_list tail)"

definition path_inv :: "AdmissionLease \<Rightarrow> size_t \<Rightarrow> ServerMessage list \<Rightarrow> Bridge \<Rightarrow> bool" where
  "path_inv lease i out b \<longleftrightarrow>
     bg_request_id b = i \<and> rq_externalId (gn_request (bg_generation b)) = i \<and>
     (\<exists>es all final ds tail.
        request_inv lease (es @ option_list (br_event (bg_record b))) (bg_generation b) all final \<and>
        pump_inv es ds tail b \<and> wire_inv out (sent_stream ds tail) b)"

lemma silent_backend: "op \<noteq> generation_op.Pop \<Longrightarrow> fst (generation_step op g) = []"
  by (cases op) simp_all

lemma wire_inv_egress:
  assumes w: "wire_inv out enq b" and op: "foreign (bg_request_id b) op"
    and b': "bg_egress b' = egress_step dump epoch op (bg_egress b)" "bg_request_id b' = bg_request_id b"
  shows "wire_inv (out @ written op (bg_egress b)) enq b'"
proof -
  let ?i = "bg_request_id b" and ?s = "bg_egress b"
  have s: "egress_inv ?s" "config_ok (eg_config ?s)" "ids_ok ?s"
    using w by (simp_all add: wire_inv_def Let_def)
  note f = foreign_fifo [OF s(1,3) op, of dump epoch]
  obtain lost where l: "queued_for ?i ?s =
      (of_request ?i (written op ?s) @ queued_for ?i (egress_step dump epoch op ?s)) @ lost"
    using f by (auto simp: prefix_def)
  have "prefix (of_request ?i (out @ written op ?s) @ queued_for ?i (egress_step dump epoch op ?s)) enq"
    using w l by (auto simp: wire_inv_def Let_def prefix_def)
  moreover have "eg_accepting (egress_step dump epoch op ?s) \<longrightarrow>
      of_request ?i (out @ written op ?s) @ queued_for ?i (egress_step dump epoch op ?s) = enq"
    using w f by (auto simp: wire_inv_def Let_def)
  ultimately show ?thesis
    using egress_step_inv [OF s(1,2)] egress_step_ids [OF s(1,3)] s(2)
    by (simp add: wire_inv_def Let_def b' egress_step_config)
qed

lemma wire_inv_same:
  "wire_inv out enq b \<Longrightarrow> bg_egress b' = bg_egress b \<Longrightarrow> bg_request_id b' = bg_request_id b \<Longrightarrow> wire_inv out enq b'"
  by (simp add: wire_inv_def)

lemma wire_inv_stop:
  assumes "wire_inv out enq b" and "bg_egress b' = egress_stop (bg_egress b)" "bg_request_id b' = bg_request_id b"
  shows "wire_inv out enq b'"
  using wire_inv_egress [OF assms(1), of StopEgress b'] assms(2,3) by (simp add: written_def)

lemma wire_inv_shutdown: "wire_inv out enq b \<Longrightarrow> wire_inv out enq (beginShutdown b)"
  by (auto simp: beginShutdown_def intro: wire_inv_stop)

text \<open>An enqueue by the pump itself.\<close>

lemma wire_inv_enqueue:
  assumes w: "wire_inv out enq b" and acc: "eg_accepting (bg_egress b)"
    and step: "s = egress_step dump epoch op (bg_egress b)"
    and q: "queued_for (bg_request_id b) s = queued_for (bg_request_id b) (bg_egress b) @ [m]"
    and b': "bg_egress b' = s" "bg_request_id b' = bg_request_id b"
  shows "wire_inv out (enq @ [m]) b'"
proof -
  have s: "egress_inv (bg_egress b)" "config_ok (eg_config (bg_egress b))" "ids_ok (bg_egress b)"
    "of_request (bg_request_id b) out @ queued_for (bg_request_id b) (bg_egress b) = enq"
    using w acc by (simp_all add: wire_inv_def Let_def)
  have "egress_inv s" "ids_ok s" "eg_config s = eg_config (bg_egress b)"
    using egress_step_inv [OF s(1,2)] egress_step_ids [OF s(1,3)] by (simp_all add: step egress_step_config)
  with s q show ?thesis
    by (auto simp: wire_inv_def Let_def b')
qed

lemma wire_delta_step:
  assumes w: "wire_inv out enq b"
    and run: "enqueueDelta dump epoch (bg_request_id b) m (bg_egress b) = (code, s)"
    and b': "bg_egress b' = s" "bg_request_id b' = bg_request_id b"
  shows "wire_inv out (enq @ (if code = Enqueued then [m] else [])) b'"
proof (cases "code = Enqueued")
  case True
  have "eg_accepting (bg_egress b)"
    using delta_fifo(4) [of dump epoch "bg_request_id b" m "bg_egress b"] run True by simp
  moreover have "queued_for (bg_request_id b) s = queued_for (bg_request_id b) (bg_egress b) @ [m]"
    using delta_fifo(1) [of "bg_request_id b" dump epoch "bg_request_id b" m "bg_egress b"] run True by simp
  ultimately show ?thesis
    using wire_inv_enqueue [OF w, of s dump epoch "Delta (bg_request_id b) m" m b'] run True b' by simp
next
  case False
  have "s = bg_egress b"
    using run False by (auto simp: enqueueDelta_def split: if_splits option.splits)
  with False wire_inv_same [OF w, of b'] b' show ?thesis by simp
qed

lemma wire_terminal_step:
  assumes w: "wire_inv out enq b"
    and run: "enqueueTerminal dump epoch (bg_request_id b) m (bg_egress b) = (code, s)"
    and b': "bg_egress b' = s" "bg_request_id b' = bg_request_id b"
  shows "wire_inv out (enq @ (if code = Enqueued then [m] else [])) b'"
proof (cases "code = Enqueued")
  case True
  have "eg_accepting (bg_egress b)"
    using terminal_fifo(4) [of dump epoch "bg_request_id b" m "bg_egress b"] run True by simp
  moreover have "queued_for (bg_request_id b) s = queued_for (bg_request_id b) (bg_egress b) @ [m]"
    using terminal_fifo(1) [of "bg_request_id b" dump epoch "bg_request_id b" m "bg_egress b"] run True by simp
  ultimately show ?thesis
    using wire_inv_enqueue [OF w, of s dump epoch "Final (bg_request_id b) m" m b'] run True b' by simp
next
  case False
  have "s = bg_egress b"
    using run False by (auto simp: enqueueTerminal_def split: if_splits option.splits)
  with False wire_inv_same [OF w, of b'] b' show ?thesis by simp
qed

section \<open>Preservation by the steps\<close>

lemma pump_inv_record:
  assumes "pump_inv es ds tail b" and "bg_max_status_message_bytes b' = bg_max_status_message_bytes b"
    and "br_event (bg_record b') = br_event (bg_record b)"
    and "br_pump_finished (bg_record b') = br_pump_finished (bg_record b)"
    and "br_terminal_enqueued (bg_record b') = br_terminal_enqueued (bg_record b)"
    and "br_cancel_requested (bg_record b) \<longrightarrow> br_cancel_requested (bg_record b')"
  shows "pump_inv es ds tail b'"
  using assms by (auto simp: pump_inv_def Let_def)

lemma cancelRecord_flags:
  "br_event (cancelRecord r) = br_event r" "br_pump_finished (cancelRecord r) = br_pump_finished r"
  "br_terminal_enqueued (cancelRecord r) = br_terminal_enqueued r"
  "br_cancel_requested r \<longrightarrow> br_cancel_requested (cancelRecord r)"
  by (simp_all add: cancelRecord_def)

lemma pump_inv_finish:
  assumes "pump_inv es ds tail b" and "bg_max_status_message_bytes b' = bg_max_status_message_bytes b"
    and "br_pump_finished (bg_record b')" "br_event (bg_record b') = None"
  shows "pump_inv (es @ rest) ds tail b'"
  using assms by (auto simp: pump_inv_def Let_def)

lemma beginShutdown_fields [simp]:
  "bg_request_id (beginShutdown b) = bg_request_id b" "bg_generation (beginShutdown b) = bg_generation b"
  "bg_max_status_message_bytes (beginShutdown b) = bg_max_status_message_bytes b"
  "br_event (bg_record (beginShutdown b)) = br_event (bg_record b)"
  "br_pump_finished (bg_record (beginShutdown b)) = br_pump_finished (bg_record b)"
  "br_terminal_enqueued (bg_record (beginShutdown b)) = br_terminal_enqueued (bg_record b)"
  "br_cancel_requested (bg_record b) \<longrightarrow> br_cancel_requested (bg_record (beginShutdown b))"
  by (simp_all add: beginShutdown_def cancelRecord_flags)

lemma finish_pump_fields [simp]:
  "bg_request_id (finish_pump b) = bg_request_id b" "bg_generation (finish_pump b) = bg_generation b"
  "bg_egress (finish_pump b) = bg_egress b"
  "bg_max_status_message_bytes (finish_pump b) = bg_max_status_message_bytes b"
  "br_terminal_enqueued (bg_record (finish_pump b)) = br_terminal_enqueued (bg_record b)"
  "br_event (bg_record (finish_pump b)) = None" "br_pump_finished (bg_record (finish_pump b))"
  by (simp_all add: finish_pump_def)

lemma path_invI:
  assumes "bg_request_id b = i" "rq_externalId (gn_request (bg_generation b)) = i"
    and "request_inv lease (es @ option_list (br_event (bg_record b))) (bg_generation b) all final"
    and "pump_inv es ds tail b" and "wire_inv out (sent_stream ds tail) b"
  shows "path_inv lease i out b"
  using assms by (auto simp: path_inv_def)

lemma path_invE:
  assumes "path_inv lease i out b"
  obtains es all final ds tail where "bg_request_id b = i" "rq_externalId (gn_request (bg_generation b)) = i"
    "request_inv lease (es @ option_list (br_event (bg_record b))) (bg_generation b) all final"
    "pump_inv es ds tail b" "wire_inv out (sent_stream ds tail) b"
  using assms by (auto simp: path_inv_def)

lemma pump_pop_inv:
  assumes "path_inv lease i out b"
  shows "path_inv lease i out (pump_pop b)"
proof -
  obtain es all final ds tail where p: "bg_request_id b = i" "rq_externalId (gn_request (bg_generation b)) = i"
    "request_inv lease (es @ option_list (br_event (bg_record b))) (bg_generation b) all final"
    "pump_inv es ds tail b" "wire_inv out (sent_stream ds tail) b"
    by (rule path_invE [OF assms])
  show ?thesis
  proof (cases "br_pump_finished (bg_record b) \<or> br_event (bg_record b) \<noteq> None")
    case True
    with assms show ?thesis by (auto simp: pump_pop_def)
  next
    case False
    then have e: "br_event (bg_record b) = None" "\<not> br_pump_finished (bg_record b)" by simp_all
    show ?thesis
    proof (cases "bg_stop_requested b")
      case True
      have "path_inv lease i out (finish_pump b)"
        by (rule path_invI [where es = es and tail = tail and ds = ds and all = all and final = final])
          (use p e pump_inv_finish [OF p(4), of "finish_pump b" "[]"] wire_inv_same [OF p(5)] in simp_all)
      with True e show ?thesis by (simp add: pump_pop_def)
    next
      case stop: False
      obtain res m where pop: "mailbox_waitPop (gn_mailbox (bg_generation b)) = (res, m)" by force
      let ?g = "(bg_generation b)\<lparr>gn_mailbox := m\<rparr>"
      let ?b1 = "b\<lparr>bg_generation := ?g\<rparr>"
      have inv: "request_inv lease (es @ (case res of Event e \<Rightarrow> [e] | _ \<Rightarrow> [])) ?g all final"
        using pop_inv [of lease es "bg_generation b" all final "case res of Event e \<Rightarrow> [e] | _ \<Rightarrow> []" ?g] p(3) e pop
        by (auto split: MailboxWaitResult.splits)
      have pump: "pump_inv es ds tail ?b1" and wire: "wire_inv out (sent_stream ds tail) ?b1"
        using p(4,5) by (auto intro: wire_inv_same simp: pump_inv_def Let_def)
      show ?thesis
      proof (cases res)
        case (Event ev)
        have "path_inv lease i out (?b1\<lparr>bg_record := (bg_record b)\<lparr>br_event := Some ev\<rparr>\<rparr>)"
          by (rule path_invI [where es = es and tail = tail and ds = ds and all = all and final = final])
            (use p e inv Event pump wire_inv_same [OF wire] in \<open>auto simp: pump_inv_def Let_def\<close>)
        with e stop pop Event show ?thesis by (simp add: pump_pop_def Let_def)
      next
        case WaitTimeout
        have "path_inv lease i out ?b1"
          by (rule path_invI [where es = es and tail = tail and ds = ds and all = all and final = final])
            (use p e inv WaitTimeout pump wire in simp_all)
        with e stop pop WaitTimeout show ?thesis by (simp add: pump_pop_def Let_def)
      next
        case Closed
        have "path_inv lease i out (finish_pump (beginShutdown ?b1))"
          by (rule path_invI [where es = es and tail = tail and ds = ds and all = all and final = final])
            (use p e inv Closed pump_inv_finish [OF pump, of "finish_pump (beginShutdown ?b1)" "[]"]
              wire_inv_same [OF wire_inv_shutdown [OF wire]] in simp_all)
        with e stop pop Closed show ?thesis by (simp add: pump_pop_def Let_def)
      qed
    qed
  qed
qed

lemma forward_delta_inv:
  assumes "path_inv lease i out b" and held: "br_event (bg_record b) = Some (DeltaEvent d)"
  shows "path_inv lease i out (forward_delta dump d b)"
proof -
  obtain es all final ds tail where p: "bg_request_id b = i" "rq_externalId (gn_request (bg_generation b)) = i"
    "request_inv lease (es @ option_list (br_event (bg_record b))) (bg_generation b) all final"
    "pump_inv es ds tail b" "wire_inv out (sent_stream ds tail) b"
    by (rule path_invE [OF assms(1)])
  have active: "\<not> br_pump_finished (bg_record b)" "\<not> br_terminal_enqueued (bg_record b)" and tail: "tail = None"
    using p(4) held by (auto simp: pump_inv_def Let_def)
  let ?es = "es @ [DeltaEvent d]"
  let ?r = "(bg_record b)\<lparr>br_event := None\<rparr>"
  have dropped: "pump_inv ?es ds tail b'"
    if "br_cancel_requested (bg_record b') \<or> br_pump_finished (bg_record b')" "br_event (bg_record b') = None"
      "\<not> br_terminal_enqueued (bg_record b')" for b'
    using p(4) that tail by (auto simp: pump_inv_def Let_def)
  show ?thesis
  proof (cases "br_cancel_requested (bg_record b)")
    case True
    have "path_inv lease i out (b\<lparr>bg_record := ?r\<rparr>)"
      by (rule path_invI [where es = ?es and tail = tail and ds = ds and all = all and final = final])
        (use p held True active dropped wire_inv_same [OF p(5)] in simp_all)
    with True show ?thesis by (simp add: forward_delta_def Let_def)
  next
    case False
    then have es: "es = map DeltaEvent ds"
      using p(4) active by (simp add: pump_inv_def Let_def)
    obtain code s where run:
      "enqueueDelta dump (uint (bg_epoch b)) (bg_request_id b) (MTokenDelta (wire_delta d)) (bg_egress b) = (code, s)"
      by force
    let ?b1 = "b\<lparr>bg_egress := s, bg_record := ?r\<rparr>"
    have wire: "wire_inv out (sent_stream ds tail @ (if code = Enqueued then [MTokenDelta (wire_delta d)] else [])) b'"
      if "bg_egress b' = s" "bg_request_id b' = bg_request_id b" for b'
      by (rule wire_delta_step [OF p(5) run that])
    have refused: "path_inv lease i out b'"
      if "code \<noteq> Enqueued" "bg_egress b' = s \<or> wire_inv out (sent_stream ds tail) b'" "bg_request_id b' = bg_request_id b"
        "bg_generation b' = bg_generation b" "br_event (bg_record b') = None"
        "br_cancel_requested (bg_record b') \<or> br_pump_finished (bg_record b')"
        "\<not> br_terminal_enqueued (bg_record b')" for b'
      by (rule path_invI [where es = ?es and tail = tail and ds = ds and all = all and final = final])
        (use p held that dropped [OF that(6,5,7)] wire [of b'] in auto)
    consider "code = Enqueued" | "code = RequestFull \<or> code = SessionFull" | "code = Stopped"
      | "code \<noteq> Enqueued" "code \<noteq> RequestFull" "code \<noteq> SessionFull" "code \<noteq> Stopped" by blast
    then show ?thesis
    proof cases
      case 1
      have "path_inv lease i out ?b1"
        by (rule path_invI [where es = ?es and tail = tail and ds = "ds @ [d]" and all = all and final = final])
          (use p held 1 es tail active wire [of ?b1] in \<open>simp_all add: pump_inv_def Let_def sent_stream_def\<close>)
      with 1 False run show ?thesis by (simp add: forward_delta_def Let_def)
    next
      case 2
      have "path_inv lease i out (?b1\<lparr>bg_record := cancelRecord (?r\<lparr>br_backpressure_requested := True\<rparr>)\<rparr>)"
        using 2 active by (intro refused) (auto simp: cancelRecord_def)
      with 2 False run show ?thesis by (auto simp: forward_delta_def Let_def)
    next
      case 3
      have "path_inv lease i out (finish_pump ?b1)"
        using 3 active by (intro refused) simp_all
      with 3 False run show ?thesis by (simp add: forward_delta_def Let_def)
    next
      case 4
      have "path_inv lease i out (finish_pump (beginShutdown ?b1))"
        using 4 active wire [of ?b1] wire_inv_same [OF wire_inv_shutdown, of out _ ?b1] by (intro refused) simp_all
      with 4 False run show ?thesis by (simp add: forward_delta_def Let_def)
    qed
  qed
qed

lemma forward_terminal_inv:
  assumes "path_inv lease i out b"
    and held: "br_event (bg_record b) = Some (Worker_Request.GenerationEvent.TerminalEvent t)"
  shows "path_inv lease i out (forward_terminal dump t b)"
proof -
  obtain es all final ds tail where p: "bg_request_id b = i" "rq_externalId (gn_request (bg_generation b)) = i"
    "request_inv lease (es @ option_list (br_event (bg_record b))) (bg_generation b) all final"
    "pump_inv es ds tail b" "wire_inv out (sent_stream ds tail) b"
    by (rule path_invE [OF assms(1)])
  have tail: "tail = None"
    using p(4) held by (auto simp: pump_inv_def Let_def)
  let ?es = "es @ [Worker_Request.GenerationEvent.TerminalEvent t]"
  let ?w = "wire_terminal (bg_max_status_message_bytes b) (br_backpressure_requested (bg_record b)) t"
  obtain code s where run:
    "enqueueTerminal dump (uint (bg_epoch b)) (bg_request_id b) (MTerminal ?w) (bg_egress b) = (code, s)"
    by force
  let ?b1 = "b\<lparr>bg_egress := s\<rparr>"
  have wire: "wire_inv out (sent_stream ds tail @ (if code = Enqueued then [MTerminal ?w] else [])) b'"
    if "bg_egress b' = s" "bg_request_id b' = bg_request_id b" for b'
    by (rule wire_terminal_step [OF p(5) run that])
  have refused: "path_inv lease i out b'"
    if "code \<noteq> Enqueued" "bg_egress b' = s \<or> wire_inv out (sent_stream ds tail) b'" "bg_request_id b' = bg_request_id b"
      "bg_generation b' = bg_generation b" "br_event (bg_record b') = None" "br_pump_finished (bg_record b')"
      "bg_max_status_message_bytes b' = bg_max_status_message_bytes b" for b'
    by (rule path_invI [where es = ?es and tail = tail and ds = ds and all = all and final = final])
      (use p held that pump_inv_finish [OF p(4), of b' "[Worker_Request.GenerationEvent.TerminalEvent t]"] wire [of b'] in auto)
  consider "code = Enqueued" | "code = Stopped" | "code \<noteq> Enqueued" "code \<noteq> Stopped" by blast
  then show ?thesis
  proof cases
    case 1
    let ?b2 = "finish_pump (?b1\<lparr>bg_record := (bg_record ?b1)\<lparr>br_terminal_enqueued := True\<rparr>\<rparr>)"
    have "pump_inv ?es ds (Some ?w) ?b2"
      using p(4) by (auto simp: pump_inv_def Let_def)
    moreover have "wire_inv out (sent_stream ds (Some ?w)) ?b2"
      using wire [of ?b2] 1 tail by (simp add: sent_stream_def)
    ultimately have "path_inv lease i out ?b2"
      using p held by (intro path_invI [where es = ?es and tail = "Some ?w" and ds = ds and all = all and final = final]) simp_all
    with 1 run show ?thesis by (simp add: forward_terminal_def Let_def)
  next
    case 2
    have "path_inv lease i out (finish_pump ?b1)"
      using 2 by (intro refused) simp_all
    with 2 run show ?thesis by (simp add: forward_terminal_def Let_def)
  next
    case 3
    have "path_inv lease i out (finish_pump (beginShutdown ?b1))"
      using 3 wire [of ?b1] wire_inv_same [OF wire_inv_shutdown, of out _ ?b1] by (intro refused) simp_all
    with 3 run show ?thesis by (simp add: forward_terminal_def Let_def)
  qed
qed

lemma bridge_step_inv:
  assumes inv: "path_inv lease i out b" and ok: "bridge_op_ok i op"
    and run: "bridge_step dump op b = (ms, b')"
  shows "path_inv lease i (out @ ms) b'"
proof -
  obtain es all final ds tail where p: "bg_request_id b = i" "rq_externalId (gn_request (bg_generation b)) = i"
    "request_inv lease (es @ option_list (br_event (bg_record b))) (bg_generation b) all final"
    "pump_inv es ds tail b" "wire_inv out (sent_stream ds tail) b"
    by (rule path_invE [OF inv])
  note I = path_invI [where es = es and tail = tail and ds = ds]
  show ?thesis
  proof (cases op)
    case (Backend gop)
    let ?g = "snd (generation_step gop (bg_generation b))"
    have step: "generation_step gop (bg_generation b) = ([], ?g)" and fits: "op_fits gop"
      using silent_backend [of gop "bg_generation b"] ok Backend by (simp_all add: prod_eq_iff)
    obtain all' final' where
      "request_inv lease (es @ option_list (br_event (bg_record b))) ?g all' final'"
      using generation_step_inv [OF p(3) fits step] by auto
    with p generation_step_ids [OF step] run Backend show ?thesis
      by (auto intro!: I [where all = all' and final = final'] simp: wire_inv_def pump_inv_def)
  next
    case PumpPop
    with run pump_pop_inv [OF inv] show ?thesis by auto
  next
    case PumpForward
    with run forward_delta_inv [OF inv] forward_terminal_inv [OF inv] inv show ?thesis
      by (auto simp: pump_forward_def split: option.splits Worker_Request.GenerationEvent.splits)
  next
    case ClientCancel
    with p run show ?thesis
      by (auto intro!: I [where all = all and final = final] pump_inv_record [OF p(4)] wire_inv_same [OF p(5)]
          simp: cancelRecord_flags)
  next
    case (Session eop)
    then have b': "b' = b\<lparr>bg_egress := egress_step dump (uint (bg_epoch b)) eop (bg_egress b)\<rparr>"
      and ms: "ms = written eop (bg_egress b)"
      using run by (auto simp: written_def)
    have "wire_inv (out @ ms) (sent_stream ds tail) b'"
      unfolding ms using Session ok p(1) by (intro wire_inv_egress [OF p(5)]) (simp_all add: b')
    moreover have "pump_inv es ds tail b'"
      using p(4) by (simp add: b' pump_inv_def)
    ultimately show ?thesis
      using p by (intro I [where all = all and final = final]) (simp_all add: b')
  next
    case Shutdown
    with p run show ?thesis
      by (auto intro!: I [where all = all and final = final] pump_inv_record [OF p(4)] wire_inv_shutdown [OF p(5)])
  qed
qed

lemma bridge_run_inv:
  "path_inv lease i out b \<Longrightarrow> list_all (bridge_op_ok i) ops \<Longrightarrow> bridge_run dump ops b = (ms, b') \<Longrightarrow>
     path_inv lease i (out @ ms) b'"
proof (induction ops arbitrary: out b ms)
  case (Cons op ops)
  obtain m1 b1 m2 where s: "bridge_step dump op b = (m1, b1)" "bridge_run dump ops b1 = (m2, b')" "ms = m1 @ m2"
    using Cons.prems(3) by (auto split: prod.splits)
  have "path_inv lease i (out @ m1) b1"
    using bridge_step_inv [OF Cons.prems(1) _ s(1)] Cons.prems(2) by simp
  from Cons.IH [OF this _ s(2)] Cons.prems(2) s(3) show ?case by simp
qed simp

section \<open>What reaches the wire\<close>

lemma bridge_run_length: "bridge_run dump ops b = (ms, b') \<Longrightarrow> length ms \<le> length ops"
proof (induction ops arbitrary: b ms)
  case (Cons op ops)
  obtain m1 b1 m2 where s: "bridge_step dump op b = (m1, b1)" "bridge_run dump ops b1 = (m2, b')" "ms = m1 @ m2"
    using Cons.prems by (auto split: prod.splits)
  have "length m1 \<le> 1"
    using s(1) by (cases op) (auto simp: popped_def split: egress_op.splits SessionEgressWaitResult.splits)
  with Cons.IH [OF s(2)] s(3) show ?case by simp
qed simp

lemma numbered_prefix: "numbered i ds \<Longrightarrow> prefix ds' ds \<Longrightarrow> numbered i ds'"
  by (auto simp: numbered_def prefix_def upt_add_eq_append [of 0])

lemma prefix_map_DeltaEvent:
  assumes "prefix (map DeltaEvent ds) (map DeltaEvent all @ map Worker_Request.GenerationEvent.TerminalEvent ts)"
  shows "prefix ds all"
  using assms
proof (induction ds arbitrary: all)
  case (Cons d ds)
  then show ?case by (cases all; cases ts) auto
qed simp

lemma sent_stream_prefix:
  assumes "prefix ms (sent_stream ds tail)"
  shows "\<exists>ds' tail'. ms = sent_stream ds' tail' \<and> prefix ds' ds \<and> (tail' = None \<or> tail' = tail)"
proof (cases "prefix ms (map (\<lambda>d. MTokenDelta (wire_delta d)) ds)")
  case True
  then obtain k where "ms = map (\<lambda>d. MTokenDelta (wire_delta d)) (take k ds)"
    by (metis prefix_def append_eq_conv_conj take_map)
  then show ?thesis
    by (intro exI [of _ "take k ds"] exI [of _ None]) (simp add: sent_stream_def take_is_prefix)
next
  case False
  with assms obtain rest where "ms = map (\<lambda>d. MTokenDelta (wire_delta d)) ds @ rest"
    "prefix rest (map MTerminal (option_list tail))" "rest \<noteq> []"
    by (auto simp: sent_stream_def prefix_append)
  then show ?thesis
    by (intro exI [of _ ds] exI [of _ tail]) (cases tail; auto simp: sent_stream_def prefix_Cons)
qed

text \<open>What the writer has taken for a request: its first deltas and, at most, its terminal.\<close>

lemma path_wire:
  assumes "path_inv lease i out b"
  shows "\<exists>ds all tail final. of_request i out = sent_stream ds tail \<and> prefix ds all \<and> numbered i all \<and>
     (\<forall>w. tail = Some w \<longrightarrow> (\<exists>t bp. final = Some t \<and> w = wire_terminal (bg_max_status_message_bytes b) bp t \<and>
            closes_stream i (rq_promptTokens (gn_request (bg_generation b))) all t))"
proof -
  obtain es all final ds tail where p: "bg_request_id b = i" "rq_externalId (gn_request (bg_generation b)) = i"
    "request_inv lease (es @ option_list (br_event (bg_record b))) (bg_generation b) all final"
    "pump_inv es ds tail b" "wire_inv out (sent_stream ds tail) b"
    by (rule path_invE [OF assms])
  let ?T = "Worker_Request.GenerationEvent.TerminalEvent"
  have "es @ (option_list (br_event (bg_record b)) @ mailbox_events (gn_mailbox (bg_generation b)))
      = map DeltaEvent all @ map ?T (option_list final)"
    using p(3) by (simp add: request_inv_def Let_def stream_of_def)
  then have stream: "prefix es (map DeltaEvent all @ map ?T (option_list final))"
    by (metis prefixI)
  have "prefix (map DeltaEvent ds) es"
    using p(4) by (simp add: pump_inv_def Let_def)
  with stream have ds: "prefix ds all"
    using prefix_map_DeltaEvent prefix_order.trans by blast
  have num: "numbered i all" and closes: "\<forall>t. final = Some t \<longrightarrow>
      closes_stream i (rq_promptTokens (gn_request (bg_generation b))) all t"
    using p(2,3) by (simp_all add: request_inv_def Let_def)
  have tail: "\<exists>t bp. final = Some t \<and> w = wire_terminal (bg_max_status_message_bytes b) bp t"
    if w: "tail = Some w" for w
  proof -
    obtain t bp where t: "w = wire_terminal (bg_max_status_message_bytes b) bp t" "?T t \<in> set es"
      using p(4) w by (auto simp: pump_inv_def Let_def)
    then have "final = Some t"
      using set_mono_prefix [OF stream] by (cases final) auto
    with t show ?thesis by blast
  qed
  have "prefix (of_request i out) (sent_stream ds tail)"
    using p(1,5) by (auto simp: wire_inv_def Let_def dest: append_prefixD)
  then obtain ds' tail' where out: "of_request i out = sent_stream ds' tail'" and ds': "prefix ds' ds"
    and tail': "tail' = None \<or> tail' = tail"
    using sent_stream_prefix by blast
  have "prefix ds' all"
    using ds' ds by (rule prefix_order.trans)
  moreover have "\<forall>w. tail' = Some w \<longrightarrow> (\<exists>t bp. final = Some t \<and>
      w = wire_terminal (bg_max_status_message_bytes b) bp t \<and>
      closes_stream i (rq_promptTokens (gn_request (bg_generation b))) all t)"
    using tail' tail closes by blast
  ultimately show ?thesis
    using out num by blast
qed

section \<open>The Python client at the other end\<close>

text \<open>The dispatcher on a sequence of messages, until it raises.\<close>

fun dispatch_all :: "(rat \<Rightarrow> string) \<Rightarrow> sendall_fun \<Rightarrow> ServerMessage list \<Rightarrow> Client \<Rightarrow> unit result \<times> Client" where
  "dispatch_all frepr sendall [] c = (Inr (), c)"
| "dispatch_all frepr sendall (m # ms) c =
     (case dispatch frepr sendall m c of
        (Inl e, c1) \<Rightarrow> (Inl e, c1)
      | (Inr _, c1) \<Rightarrow> dispatch_all frepr sendall ms c1)"

text \<open>A connected client with request \<open>i\<close> accepted, \<open>n\<close> of its deltas received and no terminal yet.\<close>

definition awaiting :: "HelloAck \<Rightarrow> int \<Rightarrow> nat \<Rightarrow> int \<Rightarrow> Client \<Rightarrow> bool" where
  "awaiting h i r n c \<longleftrightarrow>
     cl_connected c \<and> cl_socket c \<noteq> None \<and> cl_hello_ack c = Some h \<and>
     map_of (cl_requests c) i = Some r \<and> r < length (cl_states c) \<and>
     (let s = cl_states c ! r in
      rs_accepted s \<and> \<not> rs_terminal_received s \<and> rs_next_sequence_no s = n \<and> eb_terminal (rs_events s) = None)"

definition cancel_error :: "(rat \<Rightarrow> string) \<Rightarrow> sendall_fun \<Rightarrow> int \<Rightarrow> HelloAck \<Rightarrow> exn \<Rightarrow> bool" where
  "cancel_error frepr sendall i h e \<longleftrightarrow>
     (\<exists>c. fst (send_encoded sendall (encode_cancel frepr i (ha_worker_epoch h)) c) = Inl e)"

lemma send_encoded_awaiting:
  assumes "awaiting h i r n c" and "send_encoded sendall x c = (Inr u, c')"
  shows "awaiting h i r n c'"
  using assms
  by (auto simp: awaiting_def send_encoded_def send_payload_def send_write_def send_prepare_def Let_def
      split: sum.splits option.splits prod.splits)

lemma dispatch_delta_awaiting:
  assumes a: "awaiting h i r n c" and d: "td_request_id d = i" "td_sequence_no d = n"
    and run: "dispatch frepr sendall (MTokenDelta d) c = (res, c')"
  shows "case res of Inr _ \<Rightarrow> awaiting h i r (n + 1) c' | Inl e \<Rightarrow> cancel_error frepr sendall i h e"
proof -
  obtain stored b where put: "eb_put_delta d (rs_events (cl_states c ! r)) = (stored, b)" by force
  have b: "eb_terminal b = None"
    using a put by (auto simp: awaiting_def Let_def eb_put_delta_def split: if_splits)
  obtain rest c1 where l: "dispatch_locked (MTokenDelta d) c = (Inr rest, c1)" "terminal_to_deliver rest = None"
    and cancel: "send_cancel rest = None \<or> send_cancel rest = Some (i, ha_worker_epoch h)"
    and c1: "awaiting h i r (n + 1) c1"
    using a d put b
    by (cases "\<not> stored \<and> \<not> rs_cancel_sent (cl_states c ! r)")
      (auto simp: awaiting_def Let_def dispatch_locked_def require_connected_locked_def with_request_def
        dispatch_delta_def dispatch_event_check_def upd_state_def nothing_left_def)
  show ?thesis
  proof (cases "send_cancel rest")
    case None
    with l c1 run show ?thesis by (auto simp: dispatch_def)
  next
    case (Some x)
    with cancel have x: "x = (i, ha_worker_epoch h)" by simp
    with Some l run have s: "send_encoded sendall (encode_cancel frepr i (ha_worker_epoch h)) c1 = (res, c')"
      by (simp add: dispatch_def)
    show ?thesis
      using s send_encoded_awaiting [OF c1]
      by (cases res) (auto simp: cancel_error_def intro!: exI [of _ c1])
  qed
qed

lemma dispatch_terminal_awaiting:
  assumes a: "awaiting h i r n c" and t: "tm_request_id t = i"
  obtains c' where "dispatch frepr sendall (MTerminal t) c = (Inr (), c')"
    "eb_terminal (rs_events (cl_states c' ! r)) = Some t" "map_of (cl_requests c') i = None"
    "rs_next_sequence_no (cl_states c' ! r) = n"
  using a t that
  by (auto simp: awaiting_def Let_def dispatch_def dispatch_locked_def require_connected_locked_def with_request_def
      dispatch_terminal_def dispatch_event_check_def upd_state_def nothing_left_def deliver_terminal_def
      upd_events_def eb_put_terminal_def map_of_delete_dict)

lemma all_less_Suc_split: "(\<forall>k<Suc n. P k) \<longleftrightarrow> P 0 \<and> (\<forall>k<n. P (Suc k))"
  by (auto simp: less_Suc_eq_0_disj)

lemma dispatch_all_deltas:
  assumes "awaiting h (uint i) r n c"
    and "\<forall>k<length ds. td_request_id (ds ! k) = uint i \<and> td_sequence_no (ds ! k) = n + int k"
    and "dispatch_all frepr sendall (map MTokenDelta ds) c = (res, c')"
  shows "case res of Inr _ \<Rightarrow> awaiting h (uint i) r (n + int (length ds)) c'
                   | Inl e \<Rightarrow> cancel_error frepr sendall (uint i) h e"
  using assms
proof (induction ds arbitrary: n c)
  case Nil
  then show ?case by auto
next
  case (Cons d ds)
  obtain res1 c1 where d1: "dispatch frepr sendall (MTokenDelta d) c = (res1, c1)" by force
  have d: "td_request_id d = uint i" "td_sequence_no d = n"
    using Cons.prems(2) by (auto dest: spec [of _ 0])
  note step = dispatch_delta_awaiting [OF Cons.prems(1) d d1]
  show ?case
  proof (cases res1)
    case (Inl e)
    with step Cons.prems(3) d1 show ?thesis by auto
  next
    case (Inr u)
    have rest: "\<forall>k<length ds. td_request_id (ds ! k) = uint i \<and> td_sequence_no (ds ! k) = (n + 1) + int k"
      using Cons.prems(2) by (auto simp: all_less_Suc_split)
    have "dispatch_all frepr sendall (map MTokenDelta ds) c1 = (res, c')"
      using Cons.prems(3) d1 Inr by simp
    from Cons.IH [OF _ rest this] step Inr show ?thesis
      by (auto simp: algebra_simps split: sum.splits)
  qed
qed

lemma dispatch_all_append:
  "dispatch_all frepr sendall (xs @ ys) c =
     (case dispatch_all frepr sendall xs c of
        (Inl e, c1) \<Rightarrow> (Inl e, c1)
      | (Inr _, c1) \<Rightarrow> dispatch_all frepr sendall ys c1)"
  by (induction xs arbitrary: c) (auto split: prod.splits sum.splits)

text \<open>The stream that the Worker sends is dispatched to its end, unless a cancel cannot be sent.\<close>

lemma dispatch_stream:
  assumes a: "awaiting h (uint i) r 0 c" and num: "numbered i ds" "length ds < 2 ^ 64"
    and w: "\<forall>w. tail = Some w \<longrightarrow> tm_request_id w = uint i"
    and run: "dispatch_all frepr sendall (sent_stream ds tail) c = (res, c')"
  shows "case res of
      Inl e \<Rightarrow> cancel_error frepr sendall (uint i) h e
    | Inr _ \<Rightarrow> rs_next_sequence_no (cl_states c' ! r) = int (length ds) \<and>
              eb_terminal (rs_events (cl_states c' ! r)) = tail"
proof -
  let ?ws = "map wire_delta ds"
  have "map dl_sequence_no ds ! k = map word_of_nat [0..<length ds] ! k" if "k < length ds" for k
    using num(1) by (simp add: numbered_def)
  then have seq: "dl_sequence_no (ds ! k) = word_of_nat k" if "k < length ds" for k
    using that by simp
  have "uint (word_of_nat k :: 64 word) = int k" if "k < length ds" for k
    using that num(2) by (simp add: uint_nat unat_of_nat)
  then have ok: "\<forall>k<length ?ws. td_request_id (?ws ! k) = uint i \<and> td_sequence_no (?ws ! k) = 0 + int k"
    using seq num(1) by (auto simp: wire_delta_def numbered_def)
  obtain res1 c1 where d: "dispatch_all frepr sendall (map MTokenDelta ?ws) c = (res1, c1)" by force
  note deltas = dispatch_all_deltas [OF a ok d]
  have run': "dispatch_all frepr sendall (map MTokenDelta ?ws @ map MTerminal (option_list tail)) c = (res, c')"
    using run by (simp add: sent_stream_def comp_def)
  show ?thesis
  proof (cases res1)
    case (Inl e)
    with deltas d run' show ?thesis by (auto simp: dispatch_all_append)
  next
    case (Inr u)
    with deltas have c1: "awaiting h (uint i) r (int (length ds)) c1" by simp
    have end_run: "dispatch_all frepr sendall (map MTerminal (option_list tail)) c1 = (res, c')"
      using run' d Inr by (simp add: dispatch_all_append)
    show ?thesis
    proof (cases tail)
      case None
      with end_run c1 show ?thesis by (auto simp: awaiting_def Let_def)
    next
      case (Some t)
      obtain c2 where "dispatch frepr sendall (MTerminal t) c1 = (Inr (), c2)"
        "eb_terminal (rs_events (cl_states c2 ! r)) = Some t" "rs_next_sequence_no (cl_states c2 ! r) = int (length ds)"
        by (rule dispatch_terminal_awaiting [OF c1, of t]) (use w Some in auto)
      with end_run Some show ?thesis by auto
    qed
  qed
qed

section \<open>Properties\<close>

lemma egress_run_ids: "config_ok cfg \<Longrightarrow> ids_ok (egress_run dump epoch ops cfg)"
proof (induction ops rule: rev_induct)
  case Nil
  show ?case by (simp add: egress_run_def fresh_egress_def ids_ok_def queued_for_def)
next
  case (snoc op ops)
  then show ?case
    using egress_step_ids [of "egress_run dump epoch ops cfg"] egress_run_inv [of cfg dump epoch ops]
    by (simp add: egress_run_def)
qed

lemma start_path:
  assumes r: "Worker_Request.RequestState_init i exec prompt deadline True = Inr r" and m: "GenerationMailbox_init dmax tmax lease = Inr m"
    and c: "config_ok cfg" and s: "s = egress_run dump epoch' pre cfg" "queued_for i s = []"
  shows "path_inv lease i [] (bridge_start epoch n i r m a s)"
proof (rule path_invI [where es = "[]" and ds = "[]" and tail = None and all = "[]" and final = None])
  show "rq_externalId (gn_request (bg_generation (bridge_start epoch n i r m a s))) = i"
    using r by (auto simp: bridge_start_def generation_start_def Worker_Request.RequestState_init_def split: if_splits)
  show "request_inv lease ([] @ option_list (br_event (bg_record (bridge_start epoch n i r m a s))))
      (bg_generation (bridge_start epoch n i r m a s)) [] None"
    using start_inv [OF r m] by (simp add: bridge_start_def fresh_record_def)
  show "wire_inv [] (sent_stream [] None) (bridge_start epoch n i r m a s)"
    using egress_run_inv [OF c] egress_run_ids [OF c] s c
    by (simp add: wire_inv_def bridge_start_def sent_stream_def)
qed (simp_all add: bridge_start_def pump_inv_def fresh_record_def)

text \<open>
  C10. From the backend to the Python client. However the backend, the request's pump, cancels, the
  other requests of the session, its writer and a shutdown interleave, what is written on the
  connection for an accepted request is its numbered deltas from 0 on without a gap and then at most
  one terminal, the last of the request; a backend that produced more, a full queue or a shutdown only
  cut this off. The Python client that awaits the request accepts all of it: its dispatcher never
  answers with a protocol error, unless the cancel it sends for an overflown buffer cannot be sent,
  and ends with every delta counted and the terminal in the handle's buffer.
\<close>

theorem worker_stream_accepted:
  assumes "Worker_Request.RequestState_init i exec prompt deadline True = Inr r"
    and "GenerationMailbox_init dmax tmax lease = Inr m"
    and "validateConfiguration cfg = Inr ()" and "unat (max_session_bytes cfg) < 2 ^ 62"
    and "s = egress_run dump (uint epoch) pre cfg" and "queued_for i s = []"
    and "list_all (bridge_op_ok i) ops"
    and "bridge_run dump ops (bridge_start epoch n i r m a s) = (out, b)" and "length ops < 2 ^ 64"
    and "awaiting h (uint i) k 0 c"
  shows "\<exists>ds all tail final.
     of_request i out = sent_stream ds tail \<and> prefix ds all \<and> numbered i all \<and>
     (\<forall>w. tail = Some w \<longrightarrow> (\<exists>t bp. final = Some t \<and> w = wire_terminal (bg_max_status_message_bytes b) bp t \<and>
            closes_stream i (rq_promptTokens (gn_request (bg_generation b))) all t)) \<and>
     (case dispatch_all frepr sendall (of_request i out) c of
        (Inl e, _) \<Rightarrow> cancel_error frepr sendall (uint i) h e
      | (Inr _, c') \<Rightarrow> rs_next_sequence_no (cl_states c' ! k) = int (length ds) \<and>
                       eb_terminal (rs_events (cl_states c' ! k)) = tail)"
proof -
  have cfg: "config_ok cfg"
    using assms(3,4) by (simp add: config_ok_def)
  have "path_inv lease i ([] @ out) b"
    by (rule bridge_run_inv [OF start_path [OF assms(1,2) cfg assms(5,6)] assms(7,8)])
  then obtain ds all tail final where st: "of_request i out = sent_stream ds tail" "prefix ds all" "numbered i all"
    and tail: "\<forall>w. tail = Some w \<longrightarrow> (\<exists>t bp. final = Some t \<and> w = wire_terminal (bg_max_status_message_bytes b) bp t \<and>
            closes_stream i (rq_promptTokens (gn_request (bg_generation b))) all t)"
    using path_wire [of lease i out b] by auto
  have "length ds \<le> length (of_request i out)"
    unfolding st(1) by (simp add: sent_stream_def)
  then have len: "length ds < 2 ^ 64"
    using assms(9) of_request_length [of i out] bridge_run_length [OF assms(8)] by linarith
  have id: "\<forall>w. tail = Some w \<longrightarrow> tm_request_id w = uint i"
    using tail by (auto simp: wire_terminal_def closes_stream_def)
  obtain res c' where d: "dispatch_all frepr sendall (of_request i out) c = (res, c')" by force
  have "case res of
      Inl e \<Rightarrow> cancel_error frepr sendall (uint i) h e
    | Inr _ \<Rightarrow> rs_next_sequence_no (cl_states c' ! k) = int (length ds) \<and>
              eb_terminal (rs_events (cl_states c' ! k)) = tail"
    by (rule dispatch_stream [OF assms(10) numbered_prefix [OF st(3,2)] len id d [unfolded st(1)]])
  then have "case dispatch_all frepr sendall (of_request i out) c of
        (Inl e, _) \<Rightarrow> cancel_error frepr sendall (uint i) h e
      | (Inr _, c') \<Rightarrow> rs_next_sequence_no (cl_states c' ! k) = int (length ds) \<and>
                       eb_terminal (rs_events (cl_states c' ! k)) = tail"
    unfolding d by (cases res) simp_all
  then show ?thesis
    by - (rule exI [of _ ds], rule exI [of _ all], rule exI [of _ tail], rule exI [of _ final], intro conjI st tail)
qed

definition sample_bridge :: Bridge where
  "sample_bridge =
     bridge_start 7 100 5 (sample_request_state\<lparr>rq_externalId := 5\<rparr>) sample_mailbox sample_admission
       (egress_run sample_dump 7 [Register 5] sample_egress_config)"

definition sample_bridge_ops :: "bridge_op list" where
  "sample_bridge_ops =
     [Backend (CommitDelta [10, 11]), PumpPop, PumpForward, Session egress_op.Pop]"

theorem worker_stream_accepted_witness:
  "length (of_request 5 (fst (bridge_run sample_dump sample_bridge_ops sample_bridge))) = 1 \<and>
   (\<exists>ds tail. of_request 5 (fst (bridge_run sample_dump sample_bridge_ops sample_bridge)) = sent_stream ds tail)"
proof -
  let ?run = "bridge_run sample_dump sample_bridge_ops sample_bridge"
  have r: "Worker_Request.RequestState_init 5 7 5 0 True = Inr (sample_request_state\<lparr>rq_externalId := 5\<rparr>)"
    by (simp add: Worker_Request.RequestState_init_def sample_request_state_def)
  have m: "GenerationMailbox_init 2 3 sample_lease = Inr sample_mailbox"
    by (simp add: GenerationMailbox_init_def sample_mailbox_def)
  have v: "validateConfiguration sample_egress_config = Inr ()"
    by code_simp
  have b: "unat (max_session_bytes sample_egress_config) < 2 ^ 62"
    by (simp add: sample_egress_config_def)
  let ?s = "egress_run sample_dump (uint (7 :: 64 word)) [Register 5] sample_egress_config"
  have q: "queued_for 5 ?s = []"
    by code_simp
  have ok: "list_all (bridge_op_ok 5) sample_bridge_ops"
    by (simp add: sample_bridge_ops_def)
  have run: "bridge_run sample_dump sample_bridge_ops (bridge_start 7 100 5 (sample_request_state\<lparr>rq_externalId := 5\<rparr>)
      sample_mailbox sample_admission ?s) = (fst ?run, snd ?run)"
    by (simp add: sample_bridge_def)
  have len: "length (of_request 5 (fst ?run)) = 1"
    by code_simp
  have short: "length sample_bridge_ops < 2 ^ 64"
    by (simp add: sample_bridge_ops_def)
  have "cl_connected sample_client" "cl_socket sample_client = Some 0" "cl_hello_ack sample_client = Some sample_hello"
    "map_of (cl_requests sample_client) 5 = Some 0" "length (cl_states sample_client) = 1"
    "rs_accepted (cl_states sample_client ! 0)" "\<not> rs_terminal_received (cl_states sample_client ! 0)"
    "rs_next_sequence_no (cl_states sample_client ! 0) = 0"
    "eb_terminal (rs_events (cl_states sample_client ! 0)) = None"
    by code_simp+
  then have "awaiting sample_hello (uint (5 :: 64 word)) 0 0 sample_client"
    by (simp add: awaiting_def)
  from worker_stream_accepted [OF r m v b refl q ok run short this, of "\<lambda>_. []" "\<lambda>_. None"]
  obtain ds tail where "of_request 5 (fst ?run) = sent_stream ds tail"
    by (elim exE conjE)
  with len show ?thesis by auto
qed

end
