(* ===== verification/Worker_Runtime.thy ===== *)
theory Worker_Runtime
  imports Worker_Request
begin

text \<open>
  The Worker's \<open>GenerationRuntime\<close> (\<open>src/runtime/generation_runtime.cpp\<close>) with its SLO policy
  (\<open>src/runtime/slo_admission_policy.cpp\<close>): validation, the soft and the hard admission of a request,
  the mailbox that carries its lease, and starting and stopping around a backend. The backend is an
  interface; what a call of it returns or throws is an argument of the operation, and what it does to
  the mailboxes it holds are steps of their own. Starting and stopping exclude each other and
  submissions by the lifecycle mutex; submissions run side by side. The clock is an argument.
\<close>

section \<open>The SLO policy\<close>

record SloProfileEntry =
  pe_max_input_tokens :: size_t
  pe_active_requests :: size_t
  pe_predicted_ttft_p95_ms :: pyfloat

record SloAdmissionPolicyConfig =
  sl_model_id :: string
  sl_revision :: string
  sl_engine_fingerprint :: string
  sl_ttft_slo_ms :: pyfloat
  sl_safety_margin_ms :: pyfloat
  sl_entries :: "SloProfileEntry list"

text \<open>The order of \<open>std::tie\<close> on the two bucket bounds, and the sort by it.\<close>

definition bucket_less :: "SloProfileEntry \<Rightarrow> SloProfileEntry \<Rightarrow> bool" where
  "bucket_less l r \<longleftrightarrow>
     pe_max_input_tokens l < pe_max_input_tokens r \<or>
     pe_max_input_tokens l = pe_max_input_tokens r \<and> pe_active_requests l < pe_active_requests r"

fun bucket_insert :: "SloProfileEntry \<Rightarrow> SloProfileEntry list \<Rightarrow> SloProfileEntry list" where
  "bucket_insert e [] = [e]"
| "bucket_insert e (x # xs) = (if bucket_less x e then x # bucket_insert e xs else e # x # xs)"

definition bucket_sort :: "SloProfileEntry list \<Rightarrow> SloProfileEntry list" where
  "bucket_sort es = foldr bucket_insert es []"

definition same_bucket :: "SloProfileEntry \<Rightarrow> SloProfileEntry \<Rightarrow> bool" where
  "same_bucket l r \<longleftrightarrow>
     pe_max_input_tokens l = pe_max_input_tokens r \<and> pe_active_requests l = pe_active_requests r"

fun adjacent_same :: "SloProfileEntry list \<Rightarrow> bool" where
  "adjacent_same (x # y # zs) \<longleftrightarrow> same_bucket x y \<or> adjacent_same (y # zs)"
| "adjacent_same _ \<longleftrightarrow> False"

definition SloAdmissionPolicy_init :: "SloAdmissionPolicyConfig \<Rightarrow> string + SloAdmissionPolicyConfig" where
  "SloAdmissionPolicy_init c =
     rbind (guard (\<not> (sl_model_id c = [] \<or> sl_revision c = [] \<or> sl_engine_fingerprint c = [] \<or>
                      \<not> isfinite (sl_ttft_slo_ms c) \<or> float_le (sl_ttft_slo_ms c) (Fin 0) \<or>
                      \<not> isfinite (sl_safety_margin_ms c) \<or> float_lt (sl_safety_margin_ms c) (Fin 0) \<or>
                      sl_entries c = []))
              ''invalid SLO Admission policy configuration'') (\<lambda>_.
     rbind (guard (list_all (\<lambda>e. \<not> (pe_max_input_tokens e = 0 \<or> pe_active_requests e = 0 \<or>
                                     \<not> isfinite (pe_predicted_ttft_p95_ms e) \<or>
                                     float_le (pe_predicted_ttft_p95_ms e) (Fin 0))) (sl_entries c))
              ''invalid SLO profile entry'') (\<lambda>_.
     let sorted_config = c\<lparr>sl_entries := bucket_sort (sl_entries c)\<rparr> in
     rbind (guard (\<not> adjacent_same (sl_entries sorted_config)) ''duplicate SLO profile bucket'') (\<lambda>_.
     Inr sorted_config)))"

text \<open>The sum of two doubles.\<close>

fun double_add :: "pyfloat \<Rightarrow> pyfloat \<Rightarrow> pyfloat" where
  "double_add (Fin a) (Fin b) = float_of_rat (a + b)"
| "double_add NaN _ = NaN"
| "double_add _ NaN = NaN"
| "double_add (Infinite s) (Infinite t) = (if s = t then Infinite s else NaN)"
| "double_add (Infinite s) _ = Infinite s"
| "double_add _ (Infinite s) = Infinite s"

definition covers :: "size_t \<Rightarrow> size_t \<Rightarrow> SloProfileEntry \<Rightarrow> bool" where
  "covers input_tokens prospective_active e \<longleftrightarrow>
     input_tokens \<le> pe_max_input_tokens e \<and> prospective_active \<le> pe_active_requests e"

definition slo_evaluate :: "SloAdmissionPolicyConfig \<Rightarrow> size_t \<Rightarrow> AdmissionSnapshot \<Rightarrow> bool \<times> pyfloat" where
  "slo_evaluate c input_tokens a =
     (if input_tokens = 0 \<or> \<not> as_accepting a then (False, Fin 0)
      else if as_active_requests a \<ge> as_max_active_requests a then (True, Fin 0)
      else case find (covers input_tokens (as_active_requests a + 1)) (sl_entries c) of
        None \<Rightarrow> (False, Fin 0)
      | Some e \<Rightarrow>
          (float_le (double_add (pe_predicted_ttft_p95_ms e) (sl_safety_margin_ms c)) (sl_ttft_slo_ms c),
           pe_predicted_ttft_p95_ms e))"

section \<open>The runtime\<close>

datatype LifecycleState = RuntimeStopped | RuntimeRunning | RuntimeFailed

record RuntimeConfig =
  rc_admission :: AdmissionConfig
  rc_max_queued_deltas :: size_t
  rc_max_queued_tokens :: size_t
  rc_slo_policy :: "SloAdmissionPolicyConfig option"

text \<open>\<open>rt_mailboxes\<close> are the mailboxes that are alive, each with the lease of its request.\<close>

record Runtime =
  rt_state :: LifecycleState
  rt_admission :: AdmissionState
  rt_max_queued_deltas :: size_t
  rt_max_queued_tokens :: size_t
  rt_slo_policy :: "SloAdmissionPolicyConfig option"
  rt_mailboxes :: "GenerationMailbox list"

text \<open>What the runtime reads of a request; the rest is handed to the backend as it is.\<close>

record RuntimeRequest =
  rr_request_id :: size_t
  rr_deadline :: "int option"
  rr_input_token_ids :: "32 word list"
  rr_max_new_tokens :: size_t

datatype backend_result = BackendStatus Status | BackendThrows "string option"

definition failure :: "string \<Rightarrow> string \<Rightarrow> Status" where
  "failure code message = Status_make code message"

definition success :: Status where
  "success = Status_make ''ok'' []"

definition GenerationRuntime_init :: "bool \<Rightarrow> RuntimeConfig \<Rightarrow> string + Runtime" where
  "GenerationRuntime_init has_backend c =
     rbind (AdmissionController_init (rc_admission c)) (\<lambda>a.
     rbind (guard has_backend ''GenerationRuntime requires a Backend'') (\<lambda>_.
     rbind (guard (\<not> (rc_max_queued_deltas c = 0 \<or> rc_max_queued_tokens c = 0))
              ''GenerationRuntime Mailbox capacity must be positive'') (\<lambda>_.
     rbind (case rc_slo_policy c of
              None \<Rightarrow> Inr None
            | Some p \<Rightarrow> rbind (SloAdmissionPolicy_init p) (\<lambda>q. Inr (Some q))) (\<lambda>policy.
     Inr \<lparr>rt_state = RuntimeStopped, rt_admission = a, rt_max_queued_deltas = rc_max_queued_deltas c,
          rt_max_queued_tokens = rc_max_queued_tokens c, rt_slo_policy = policy, rt_mailboxes = []\<rparr>))))"

definition validateRequestForAdmission :: "int \<Rightarrow> RuntimeRequest \<Rightarrow> Status" where
  "validateRequestForAdmission now request =
     (if rr_request_id request = 0 then failure ''invalid_input'' ''request id must be greater than zero''
      else if rr_input_token_ids request = [] then failure ''invalid_input'' ''input tokens must not be empty''
      else if rr_max_new_tokens request = 0
      then failure ''invalid_input'' ''max_new_tokens must be greater than zero''
      else if (case rr_deadline request of None \<Rightarrow> False | Some d \<Rightarrow> d \<le> now)
      then failure ''timeout'' ''request deadline has expired''
      else success)"

fun admissionFailure :: "AdmissionCode \<Rightarrow> Status" where
  "admissionFailure InvalidRequest = failure ''invalid_input'' ''invalid Admission request''"
| "admissionFailure NotAccepting = failure ''not_ready'' ''Generation Runtime is not accepting requests''"
| "admissionFailure DuplicateRequestId = failure ''already_exists'' ''request id is already active''"
| "admissionFailure ActiveRequestLimit = failure ''resource_exhausted'' ''active request capacity is exhausted''"
| "admissionFailure InputTokenLimit = failure ''resource_exhausted'' ''input token capacity is exhausted''"
| "admissionFailure OutputTokenLimit =
     failure ''resource_exhausted'' ''reserved output token capacity is exhausted''"
| "admissionFailure Admitted = failure ''internal_error'' ''admitted request did not contain a valid lease''"

definition sloPolicyFailure :: "(pyfloat \<Rightarrow> string) \<Rightarrow> pyfloat \<Rightarrow> Status" where
  "sloPolicyFailure to_string predicted =
     failure ''slo_predicted_miss'' (''SLO policy predicted TTFT P95 '' @ to_string predicted @ '' ms'')"

definition hasOutstandingResources :: "AdmissionSnapshot \<Rightarrow> bool" where
  "hasOutstandingResources s \<longleftrightarrow>
     as_active_requests s \<noteq> 0 \<or> as_reserved_input_tokens s \<noteq> 0 \<or> as_reserved_output_tokens s \<noteq> 0"

definition backend_failure :: "string \<Rightarrow> backend_result \<Rightarrow> Status" where
  "backend_failure call res =
     (case res of
        BackendStatus st \<Rightarrow> st
      | BackendThrows (Some what) \<Rightarrow> failure ''internal_error'' (''Backend '' @ call @ '' threw an exception: '' @ what)
      | BackendThrows None \<Rightarrow> failure ''internal_error'' (''Backend '' @ call @ '' threw an unknown exception''))"

definition runtime_start :: "backend_result \<Rightarrow> Runtime \<Rightarrow> Status \<times> Runtime" where
  "runtime_start backend rt =
     (if rt_state rt = RuntimeRunning then (success, rt)
      else if rt_state rt = RuntimeFailed
      then (failure ''not_ready'' ''failed GenerationRuntime must be stopped before restart'', rt)
      else if \<not> status_ok (backend_failure ''start'' backend) then (backend_failure ''start'' backend, rt)
      else case admission_open (rt_admission rt) of
        (False, a) \<Rightarrow>
          (failure ''internal_error'' ''Admission could not open after Backend start'',
           rt\<lparr>rt_admission := a, rt_state := RuntimeFailed\<rparr>)
      | (True, a) \<Rightarrow> (success, rt\<lparr>rt_admission := a, rt_state := RuntimeRunning\<rparr>))"

text \<open>The SLO policy judges a snapshot of the admission taken before the reservation.\<close>

definition soft_admission ::
  "(pyfloat \<Rightarrow> string) \<Rightarrow> AdmissionSnapshot \<Rightarrow> RuntimeRequest \<Rightarrow> Runtime \<Rightarrow> Status" where
  "soft_admission to_string snapshot request rt =
     (case rt_slo_policy rt of
        None \<Rightarrow> success
      | Some policy \<Rightarrow>
          (case slo_evaluate policy (vector_size (rr_input_token_ids request)) snapshot of
             (ok, predicted) \<Rightarrow> if ok then success else sloPolicyFailure to_string predicted))"

definition admission_request :: "RuntimeRequest \<Rightarrow> AdmissionRequest" where
  "admission_request request =
     \<lparr>aq_request_id = rr_request_id request, aq_input_tokens = vector_size (rr_input_token_ids request),
      aq_reserved_output_tokens = rr_max_new_tokens request\<rparr>"

text \<open>A mailbox that is destroyed gives back what its lease still holds.\<close>

definition destroy_mailbox :: "GenerationMailbox \<Rightarrow> AdmissionState \<Rightarrow> AdmissionState" where
  "destroy_mailbox m a = snd (lease_release (mb_lease m) a)"

text \<open>
  \<open>submit\<close> up to the call of the backend. Submissions share the lifecycle lock, so between the snapshot
  and this step, and between this step and the backend's answer, other submissions may run.
\<close>

definition submit_acquire ::
  "(pyfloat \<Rightarrow> string) \<Rightarrow> int \<Rightarrow> AdmissionSnapshot \<Rightarrow> RuntimeRequest \<Rightarrow> Runtime
     \<Rightarrow> (Status \<times> GenerationMailbox option) \<times> Runtime"
where
  "submit_acquire to_string now snapshot request rt =
     (let invalid = validateRequestForAdmission now request; soft = soft_admission to_string snapshot request rt in
      if \<not> status_ok invalid then ((invalid, None), rt)
      else if rt_state rt \<noteq> RuntimeRunning
      then ((failure ''not_ready'' ''GenerationRuntime is not running'', None), rt)
      else if \<not> status_ok soft then ((soft, None), rt)
      else case tryAcquire (admission_request request) (rt_admission rt) of (decision, a) \<Rightarrow>
        if \<not> admitted decision then ((admissionFailure (fst decision), None), rt\<lparr>rt_admission := a\<rparr>)
        else case GenerationMailbox_init (rt_max_queued_deltas rt) (rt_max_queued_tokens rt) (snd decision) of
          Inl what \<Rightarrow>
            ((failure ''internal_error'' (''failed to create Mailbox: '' @ what), None),
             rt\<lparr>rt_admission := snd (lease_release (snd decision) a)\<rparr>)
        | Inr m \<Rightarrow> ((success, Some m), rt\<lparr>rt_admission := a, rt_mailboxes := rt_mailboxes rt @ [m]\<rparr>))"

text \<open>A submission that is not interrupted; the mailbox does not outlive a failure of the backend.\<close>

definition runtime_submit ::
  "(pyfloat \<Rightarrow> string) \<Rightarrow> int \<Rightarrow> backend_result \<Rightarrow> RuntimeRequest \<Rightarrow> Runtime \<Rightarrow> (Status \<times> GenerationMailbox option) \<times> Runtime"
where
  "runtime_submit to_string now backend request rt =
     (case submit_acquire to_string now (admission_snapshot (rt_admission rt)) request rt of
        ((st, None), rt1) \<Rightarrow> ((st, None), rt1)
      | ((st, Some m), rt1) \<Rightarrow>
          if \<not> status_ok (backend_failure ''submit'' backend)
          then ((backend_failure ''submit'' backend, None),
                rt1\<lparr>rt_mailboxes := rt_mailboxes rt, rt_admission := destroy_mailbox m (rt_admission rt1)\<rparr>)
          else ((success, Some m), rt1))"

text \<open>Whether \<open>cancel\<close> reaches the backend.\<close>

definition runtime_cancel :: "size_t \<Rightarrow> Runtime \<Rightarrow> bool" where
  "runtime_cancel request_id rt \<longleftrightarrow> request_id \<noteq> 0 \<and> rt_state rt = RuntimeRunning"

text \<open>Steps on the mailboxes by those who hold them: a terminal is pushed, or the mailbox is destroyed.\<close>

definition mailbox_terminal :: "nat \<Rightarrow> TerminalEvent \<Rightarrow> Runtime \<Rightarrow> Runtime" where
  "mailbox_terminal k t rt =
     (if k < length (rt_mailboxes rt)
      then case pushTerminal t (rt_mailboxes rt ! k) (rt_admission rt) of (b, m, a) \<Rightarrow>
             rt\<lparr>rt_mailboxes := (rt_mailboxes rt)[k := m], rt_admission := a\<rparr>
      else rt)"

definition mailbox_destroyed :: "nat \<Rightarrow> Runtime \<Rightarrow> Runtime" where
  "mailbox_destroyed k rt =
     (if k < length (rt_mailboxes rt)
      then rt\<lparr>rt_mailboxes := take k (rt_mailboxes rt) @ drop (Suc k) (rt_mailboxes rt),
              rt_admission := destroy_mailbox (rt_mailboxes rt ! k) (rt_admission rt)\<rparr>
      else rt)"

text \<open>\<open>stop\<close>: \<open>finals\<close> are the terminals that the backend commits while it stops.\<close>

definition runtime_stop :: "bool \<Rightarrow> (nat \<times> TerminalEvent) list \<Rightarrow> Runtime \<Rightarrow> Status \<times> Runtime" where
  "runtime_stop throws finals rt =
     (if rt_state rt = RuntimeStopped then (success, rt)
      else
        let rt1 = rt\<lparr>rt_admission := admission_close (rt_admission rt)\<rparr>;
            rt2 = fold (\<lambda>(k, t). mailbox_terminal k t) finals rt1
        in if throws
           then (failure ''internal_error'' ''Backend stop threw an exception'', rt2\<lparr>rt_state := RuntimeFailed\<rparr>)
           else if hasOutstandingResources (admission_snapshot (rt_admission rt2))
           then (failure ''internal_error'' ''Backend stopped with outstanding Admission resources'',
                 rt2\<lparr>rt_state := RuntimeFailed\<rparr>)
           else (success, rt2\<lparr>rt_state := RuntimeStopped\<rparr>))"

section \<open>Runs\<close>

text \<open>A backend that fails in an interrupted submission is the destruction of its mailbox.\<close>

datatype runtime_op =
    StartRuntime backend_result
  | SubmitRuntime int backend_result RuntimeRequest
  | SubmitAcquire int AdmissionSnapshot RuntimeRequest
  | StopRuntime bool "(nat \<times> TerminalEvent) list"
  | MailboxTerminal nat TerminalEvent
  | MailboxDestroyed nat

fun runtime_step :: "(pyfloat \<Rightarrow> string) \<Rightarrow> runtime_op \<Rightarrow> Runtime \<Rightarrow> Runtime" where
  "runtime_step to_string (StartRuntime b) rt = snd (runtime_start b rt)"
| "runtime_step to_string (SubmitRuntime now b request) rt = snd (runtime_submit to_string now b request rt)"
| "runtime_step to_string (SubmitAcquire now snapshot request) rt = snd (submit_acquire to_string now snapshot request rt)"
| "runtime_step to_string (StopRuntime throws finals) rt = snd (runtime_stop throws finals rt)"
| "runtime_step to_string (MailboxTerminal k t) rt = mailbox_terminal k t rt"
| "runtime_step to_string (MailboxDestroyed k) rt = mailbox_destroyed k rt"

definition runtime_run :: "(pyfloat \<Rightarrow> string) \<Rightarrow> runtime_op list \<Rightarrow> Runtime \<Rightarrow> Runtime" where
  "runtime_run to_string ops rt = fold (runtime_step to_string) ops rt"

section \<open>The invariant\<close>

definition leases_of :: "GenerationMailbox list \<Rightarrow> AdmissionRequest multiset" where
  "leases_of ms = held (map mb_lease ms)"

definition runtime_inv :: "Runtime \<Rightarrow> bool" where
  "runtime_inv rt \<longleftrightarrow>
     accounts (rt_admission rt) (leases_of (rt_mailboxes rt)) \<and>
     (rt_state rt = RuntimeRunning \<longleftrightarrow> ad_accepting (rt_admission rt)) \<and>
     (rt_state rt = RuntimeStopped \<longrightarrow> leases_of (rt_mailboxes rt) = {#}) \<and>
     rt_max_queued_deltas rt \<noteq> 0 \<and> rt_max_queued_tokens rt \<noteq> 0"

subsection \<open>Mailboxes and their leases\<close>

lemma leases_of_snoc:
  "leases_of (ms @ [m]) = (if lease_valid (mb_lease m) then add_mset (al_request (mb_lease m)) (leases_of ms) else leases_of ms)"
  by (simp add: leases_of_def)

lemma release_shrinks:
  assumes "i < length ls" and "lease_release (ls ! i) s = (l, s')"
  shows "held (ls[i := l]) \<subseteq># held ls"
  using assms held_emptied [OF assms(1), of "ls ! i"]
  by (cases "lease_valid (ls ! i)") (auto simp: lease_release_def)

lemma release_admission:
  "lease_release l s = (l', s') \<Longrightarrow> ad_accepting s' = ad_accepting s \<and> ad_config s' = ad_config s"
  by (auto simp: lease_release_def return_budget_def split: if_splits)

lemma held_removed:
  assumes "k < length ls" and "\<not> lease_valid e"
  shows "held (take k ls @ drop (Suc k) ls) = held (ls[k := e])"
  using assms by (simp add: upd_conv_take_nth_drop held_def)

lemma mailbox_terminal_inv:
  assumes "accounts (rt_admission rt) (leases_of (rt_mailboxes rt))"
  shows "accounts (rt_admission (mailbox_terminal k t rt)) (leases_of (rt_mailboxes (mailbox_terminal k t rt))) \<and>
    leases_of (rt_mailboxes (mailbox_terminal k t rt)) \<subseteq># leases_of (rt_mailboxes rt) \<and>
    ad_accepting (rt_admission (mailbox_terminal k t rt)) = ad_accepting (rt_admission rt)"
proof (cases "k < length (rt_mailboxes rt) \<and>
    \<not> (mb_closed (rt_mailboxes rt ! k) \<or> mb_terminalCommitted (rt_mailboxes rt ! k))")
  case True
  let ?ls = "map mb_lease (rt_mailboxes rt)"
  have k: "k < length ?ls" using True by simp
  obtain l a where r: "lease_release (?ls ! k) (rt_admission rt) = (l, a)" by force
  have "mailbox_terminal k t rt = rt\<lparr>rt_mailboxes := (rt_mailboxes rt)[k := (rt_mailboxes rt ! k)
      \<lparr>mb_terminal := Some t, mb_terminalCommitted := True, mb_lease := l\<rparr>], rt_admission := a\<rparr>"
    using True r by (simp add: mailbox_terminal_def pushTerminal_def)
  with release_accounts(1) [OF _ k r] release_shrinks [OF k r] release_admission [OF r] assms show ?thesis
    by (simp add: leases_of_def map_update)
next
  case False
  then have "mailbox_terminal k t rt = rt"
    by (auto simp: mailbox_terminal_def pushTerminal_def)
  with assms show ?thesis by simp
qed

lemma mailbox_terminal_fields [simp]:
  "rt_state (mailbox_terminal k t rt) = rt_state rt" "rt_max_queued_deltas (mailbox_terminal k t rt) = rt_max_queued_deltas rt"
  "rt_max_queued_tokens (mailbox_terminal k t rt) = rt_max_queued_tokens rt"
  "ad_config (rt_admission (mailbox_terminal k t rt)) = ad_config (rt_admission rt)"
  using release_admission
  by (auto simp: mailbox_terminal_def pushTerminal_def split: prod.splits if_splits)

lemma mailbox_destroyed_inv:
  assumes "accounts (rt_admission rt) (leases_of (rt_mailboxes rt))"
  shows "accounts (rt_admission (mailbox_destroyed k rt)) (leases_of (rt_mailboxes (mailbox_destroyed k rt))) \<and>
    leases_of (rt_mailboxes (mailbox_destroyed k rt)) \<subseteq># leases_of (rt_mailboxes rt) \<and>
    ad_accepting (rt_admission (mailbox_destroyed k rt)) = ad_accepting (rt_admission rt)"
proof (cases "k < length (rt_mailboxes rt)")
  case True
  let ?ls = "map mb_lease (rt_mailboxes rt)"
  have k: "k < length ?ls" using True by simp
  obtain l a where r: "lease_release (?ls ! k) (rt_admission rt) = (l, a)" by force
  have inv: "accounts a (held (?ls[k := l]))" and l: "\<not> lease_valid l"
    using release_accounts [OF _ k r] assms by (simp_all add: leases_of_def)
  have "leases_of (rt_mailboxes (mailbox_destroyed k rt)) = held (?ls[k := l])"
    using True held_removed [OF k l] by (simp add: mailbox_destroyed_def leases_of_def take_map drop_map)
  moreover have "rt_admission (mailbox_destroyed k rt) = a"
    using True r by (simp add: mailbox_destroyed_def destroy_mailbox_def)
  ultimately show ?thesis
    using inv release_shrinks [OF k r] release_admission [OF r] by (simp add: leases_of_def)
qed (use assms in \<open>simp add: mailbox_destroyed_def\<close>)

lemma mailbox_destroyed_fields [simp]:
  "rt_state (mailbox_destroyed k rt) = rt_state rt"
  "rt_max_queued_deltas (mailbox_destroyed k rt) = rt_max_queued_deltas rt"
  "rt_max_queued_tokens (mailbox_destroyed k rt) = rt_max_queued_tokens rt"
  "ad_config (rt_admission (mailbox_destroyed k rt)) = ad_config (rt_admission rt)"
  by (auto simp: mailbox_destroyed_def destroy_mailbox_def lease_release_def return_budget_def)

subsection \<open>Submitting\<close>

lemma failure_not_ok [simp]: "status_ok (failure c m) \<longleftrightarrow> c = ''ok''" "status_ok success"
  by (simp_all add: status_ok_def failure_def success_def Status_make_def)

lemma admissionFailure_not_ok [simp]: "\<not> status_ok (admissionFailure code)"
  by (cases code) simp_all

text \<open>Reserving and giving back is the identity on the admission state, in wrapping arithmetic too.\<close>

lemma reserve_return:
  "aq_request_id r \<notin> active_request_ids a \<Longrightarrow> return_budget r (reserve_budget r a) = a"
  by (simp add: return_budget_def reserve_budget_def)

lemma tryAcquire_admitted:
  assumes "tryAcquire r a = (d, a')" and "admitted d"
  shows "d = (Admitted, AdmissionLease_make r)" "a' = reserve_budget r a" "aq_request_id r \<notin> active_request_ids a"
    "active_size a < max_active_requests (ad_config a)" "ad_accepting a" "aq_input_tokens r \<noteq> 0"
  using assms by (auto simp: tryAcquire_def Let_def admitted_def split: if_splits)

lemma tryAcquire_refused: "tryAcquire r a = (d, a') \<Longrightarrow> \<not> admitted d \<Longrightarrow> a' = a"
  by (auto simp: tryAcquire_def Let_def admitted_def split: if_splits)

lemma acquire_refused:
  assumes "submit_acquire to_string now snap request rt = ((st, None), rt')"
  shows "rt' = rt" and "\<not> status_ok st"
proof -
  obtain d a where acq: "tryAcquire (admission_request request) (rt_admission rt) = (d, a)" by (rule prod.exhaust)
  have undo: "snd (lease_release (snd d) a) = rt_admission rt" if "admitted d"
    using tryAcquire_admitted [OF acq that] by (simp add: lease_release_def reserve_return)
  have "rt' = rt \<and> \<not> status_ok st"
    using assms acq undo tryAcquire_refused [OF acq]
    by (auto simp: submit_acquire_def Let_def GenerationMailbox_init_def split: if_splits sum.splits)
  then show "rt' = rt" and "\<not> status_ok st" by blast+
qed

lemma acquire_accepted:
  assumes "submit_acquire to_string now snap request rt = ((st, Some m), rt')"
  shows "st = success" "rt_state rt = RuntimeRunning" "status_ok (soft_admission to_string snap request rt)"
    "GenerationMailbox_init (rt_max_queued_deltas rt) (rt_max_queued_tokens rt)
       (AdmissionLease_make (admission_request request)) = Inr m"
    "tryAcquire (admission_request request) (rt_admission rt) =
       ((Admitted, AdmissionLease_make (admission_request request)), rt_admission rt')"
    "rt_mailboxes rt' = rt_mailboxes rt @ [m]" "rt_state rt' = rt_state rt"
    "rt_max_queued_deltas rt' = rt_max_queued_deltas rt" "rt_max_queued_tokens rt' = rt_max_queued_tokens rt"
    "rt'\<lparr>rt_mailboxes := rt_mailboxes rt, rt_admission := rt_admission rt\<rparr> = rt"
proof -
  obtain d a where acq: "tryAcquire (admission_request request) (rt_admission rt) = (d, a)" by (rule prod.exhaust)
  have a: "admitted d" "GenerationMailbox_init (rt_max_queued_deltas rt) (rt_max_queued_tokens rt) (snd d) = Inr m"
    "rt' = rt\<lparr>rt_admission := a, rt_mailboxes := rt_mailboxes rt @ [m]\<rparr>" "st = success"
    "rt_state rt = RuntimeRunning" "status_ok (soft_admission to_string snap request rt)"
    using assms acq by (auto simp: submit_acquire_def Let_def split: if_splits sum.splits)
  have d: "d = (Admitted, AdmissionLease_make (admission_request request))"
    by (rule tryAcquire_admitted(1) [OF acq a(1)])
  show "st = success" "rt_state rt = RuntimeRunning" "status_ok (soft_admission to_string snap request rt)"
    by (fact a)+
  show "GenerationMailbox_init (rt_max_queued_deltas rt) (rt_max_queued_tokens rt)
       (AdmissionLease_make (admission_request request)) = Inr m"
    using a(2) d by simp
  show "tryAcquire (admission_request request) (rt_admission rt) =
       ((Admitted, AdmissionLease_make (admission_request request)), rt_admission rt')"
    using acq d a(3) by simp
  show "rt_mailboxes rt' = rt_mailboxes rt @ [m]" "rt_state rt' = rt_state rt"
    "rt_max_queued_deltas rt' = rt_max_queued_deltas rt" "rt_max_queued_tokens rt' = rt_max_queued_tokens rt"
    "rt'\<lparr>rt_mailboxes := rt_mailboxes rt, rt_admission := rt_admission rt\<rparr> = rt"
    using a(3) by simp_all
qed

lemma init_lease: "GenerationMailbox_init d t lease = Inr m \<Longrightarrow> mb_lease m = lease"
  by (auto simp: GenerationMailbox_init_def split: if_splits)

text \<open>A submission that fails, in whichever way, leaves the runtime as it was.\<close>

lemma submit_refused:
  assumes "runtime_submit to_string now b request rt = ((st, None), rt')"
  shows "rt' = rt" and "\<not> status_ok st"
proof -
  obtain st1 res rt1 where acq: "submit_acquire to_string now (admission_snapshot (rt_admission rt)) request rt = ((st1, res), rt1)"
    by (metis surj_pair)
  have "rt' = rt \<and> \<not> status_ok st"
  proof (cases res)
    case None
    with assms acq acquire_refused [OF acq [unfolded None]] show ?thesis by (simp add: runtime_submit_def)
  next
    case (Some m)
    note acc = acquire_accepted [OF acq [unfolded Some]]
    have "destroy_mailbox m (rt_admission rt1) = rt_admission rt"
      using tryAcquire_admitted(2,3) [OF acc(5)] init_lease [OF acc(4)]
      by (simp add: destroy_mailbox_def lease_release_def reserve_return admitted_def)
    with assms acq Some acc(10) show ?thesis by (auto simp: runtime_submit_def split: if_splits)
  qed
  then show "rt' = rt" and "\<not> status_ok st" by blast+
qed

lemma submit_accepted:
  assumes "runtime_submit to_string now b request rt = ((st, Some m), rt')"
  shows "submit_acquire to_string now (admission_snapshot (rt_admission rt)) request rt = ((st, Some m), rt')"
  using assms acquire_accepted(1)
  by (fastforce simp: runtime_submit_def split: prod.splits option.splits if_splits)

lemma acquire_inv:
  assumes inv: "runtime_inv rt"
  shows "runtime_inv (snd (submit_acquire to_string now snap request rt))"
    and "ad_config (rt_admission (snd (submit_acquire to_string now snap request rt))) = ad_config (rt_admission rt)"
proof -
  obtain st res rt' where fields: "submit_acquire to_string now snap request rt = ((st, res), rt')"
    by (metis surj_pair)
  have "runtime_inv rt' \<and> ad_config (rt_admission rt') = ad_config (rt_admission rt)"
  proof (cases res)
    case None
    with fields acquire_refused(1) [OF fields [unfolded None]] inv show ?thesis by simp
  next
    case (Some m)
    note acc = acquire_accepted [OF fields [unfolded Some]]
    have "accounts (rt_admission rt') (held (map mb_lease (rt_mailboxes rt) @ [AdmissionLease_make (admission_request request)]))"
      using inv acquire_accounts [OF _ acc(5)] by (simp add: runtime_inv_def leases_of_def)
    moreover have "rt_admission rt' = reserve_budget (admission_request request) (rt_admission rt)"
      by (rule tryAcquire_admitted(2) [OF acc(5)]) (simp add: admitted_def)
    ultimately show ?thesis
      using inv acc(2,6-9) init_lease [OF acc(4)] by (simp add: runtime_inv_def leases_of_def reserve_budget_def)
  qed
  with fields show "runtime_inv (snd (submit_acquire to_string now snap request rt))"
    and "ad_config (rt_admission (snd (submit_acquire to_string now snap request rt))) = ad_config (rt_admission rt)"
    by simp_all
qed

lemma submit_inv:
  assumes inv: "runtime_inv rt"
  shows "runtime_inv (snd (runtime_submit to_string now b request rt))"
    and "ad_config (rt_admission (snd (runtime_submit to_string now b request rt))) = ad_config (rt_admission rt)"
proof -
  obtain st res rt' where fields: "runtime_submit to_string now b request rt = ((st, res), rt')"
    by (metis surj_pair)
  have "runtime_inv rt' \<and> ad_config (rt_admission rt') = ad_config (rt_admission rt)"
  proof (cases res)
    case None
    with submit_refused(1) [OF fields [unfolded None]] inv show ?thesis by simp
  next
    case (Some m)
    from acquire_inv [OF inv, of to_string now "admission_snapshot (rt_admission rt)" request]
      submit_accepted [OF fields [unfolded Some]] show ?thesis by simp
  qed
  with fields show "runtime_inv (snd (runtime_submit to_string now b request rt))"
    and "ad_config (rt_admission (snd (runtime_submit to_string now b request rt))) = ad_config (rt_admission rt)"
    by simp_all
qed

subsection \<open>Starting and stopping\<close>

lemma start_runtime_inv: "runtime_inv rt \<Longrightarrow> runtime_inv (snd (runtime_start b rt))"
  by (auto simp: runtime_start_def runtime_inv_def admission_open_def accounts_def split: LifecycleState.splits)

text \<open>A stopped runtime has no lease out, so its admission always opens.\<close>

lemma start_succeeds:
  assumes "runtime_inv rt" and "rt_state rt = RuntimeStopped" and "status_ok (backend_failure ''start'' b)"
  shows "fst (runtime_start b rt) = success" "rt_state (snd (runtime_start b rt)) = RuntimeRunning"
proof -
  have "fst (admission_open (rt_admission rt))"
    using assms(1,2) open_iff_idle by (auto simp: runtime_inv_def)
  then show "fst (runtime_start b rt) = success" "rt_state (snd (runtime_start b rt)) = RuntimeRunning"
    using assms(2,3) by (auto simp: runtime_start_def split: prod.splits bool.splits)
qed

lemma finals_inv:
  assumes "accounts (rt_admission rt) (leases_of (rt_mailboxes rt))"
  shows "accounts (rt_admission (fold (\<lambda>(k, t). mailbox_terminal k t) fs rt))
      (leases_of (rt_mailboxes (fold (\<lambda>(k, t). mailbox_terminal k t) fs rt))) \<and>
    ad_accepting (rt_admission (fold (\<lambda>(k, t). mailbox_terminal k t) fs rt)) = ad_accepting (rt_admission rt) \<and>
    rt_max_queued_deltas (fold (\<lambda>(k, t). mailbox_terminal k t) fs rt) = rt_max_queued_deltas rt \<and>
    rt_max_queued_tokens (fold (\<lambda>(k, t). mailbox_terminal k t) fs rt) = rt_max_queued_tokens rt \<and>
    ad_config (rt_admission (fold (\<lambda>(k, t). mailbox_terminal k t) fs rt)) = ad_config (rt_admission rt)"
  using assms
proof (induction fs arbitrary: rt)
  case (Cons f fs)
  obtain k t where f: "f = (k, t)" by force
  show ?case
    using Cons.IH [of "mailbox_terminal k t rt"] mailbox_terminal_inv [OF Cons.prems, of k t] by (simp add: f)
qed simp

lemma outstanding_iff: "accounts a H \<Longrightarrow> hasOutstandingResources (admission_snapshot a) \<longleftrightarrow> H \<noteq> {#}"
  using active_size_exact [of a H]
  by (auto simp: hasOutstandingResources_def admission_snapshot_def accounts_def unat_eq_zero)

lemma stop_runtime_inv:
  assumes inv: "runtime_inv rt"
  shows "runtime_inv (snd (runtime_stop throws fs rt))"
    and "status_ok (fst (runtime_stop throws fs rt)) \<Longrightarrow> leases_of (rt_mailboxes (snd (runtime_stop throws fs rt))) = {#}"
proof -
  let ?rt1 = "rt\<lparr>rt_admission := admission_close (rt_admission rt)\<rparr>"
  let ?rt2 = "fold (\<lambda>(k, t). mailbox_terminal k t) fs ?rt1"
  have "accounts (rt_admission ?rt1) (leases_of (rt_mailboxes ?rt1))"
    using inv by (simp add: runtime_inv_def admission_close_def accounts_def)
  note f = finals_inv [OF this, of fs]
  note o = outstanding_iff [OF conjunct1 [OF f]]
  have closed: "\<not> ad_accepting (rt_admission ?rt1)"
    by (simp add: admission_close_def)
  show "runtime_inv (snd (runtime_stop throws fs rt))"
    using inv f closed o by (auto simp: runtime_stop_def Let_def runtime_inv_def)
  show "leases_of (rt_mailboxes (snd (runtime_stop throws fs rt))) = {#}"
    if "status_ok (fst (runtime_stop throws fs rt))"
    using that inv o by (auto simp: runtime_stop_def Let_def runtime_inv_def split: if_splits)
qed

lemma runtime_step_inv: "runtime_inv rt \<Longrightarrow> runtime_inv (runtime_step to_string op rt)"
proof (cases op)
  case (MailboxTerminal k t)
  assume "runtime_inv rt"
  with MailboxTerminal mailbox_terminal_inv [of rt k t] show ?thesis
    by (auto simp: runtime_inv_def)
next
  case (MailboxDestroyed k)
  assume "runtime_inv rt"
  with MailboxDestroyed mailbox_destroyed_inv [of rt k] show ?thesis
    by (auto simp: runtime_inv_def)
qed (simp_all add: start_runtime_inv submit_inv(1) acquire_inv(1) stop_runtime_inv(1))

lemma runtime_step_fields:
  assumes "runtime_inv rt"
  shows "ad_config (rt_admission (runtime_step to_string op rt)) = ad_config (rt_admission rt)"
proof (cases op)
  case (StopRuntime throws fs)
  have "ad_config (rt_admission (fold (\<lambda>(k, t). mailbox_terminal k t) fs rt1)) = ad_config (rt_admission rt1)" for rt1
    by (induction fs arbitrary: rt1) auto
  with StopRuntime show ?thesis by (simp add: runtime_stop_def Let_def admission_close_def)
qed (use submit_inv(2) [OF assms] acquire_inv(2) [OF assms] in \<open>auto simp: runtime_start_def admission_open_def\<close>)

lemma runtime_run_inv:
  "runtime_inv rt \<Longrightarrow> runtime_inv (runtime_run to_string ops rt) \<and>
     ad_config (rt_admission (runtime_run to_string ops rt)) = ad_config (rt_admission rt)"
  unfolding runtime_run_def
  by (induction ops arbitrary: rt) (simp_all add: runtime_step_inv runtime_step_fields)

lemma runtime_init_inv:
  assumes "GenerationRuntime_init b c = Inr rt"
  shows "runtime_inv rt" "ad_config (rt_admission rt) = rc_admission c"
proof -
  obtain a policy where a: "AdmissionController_init (rc_admission c) = Inr a"
    and caps: "rc_max_queued_deltas c \<noteq> 0" "rc_max_queued_tokens c \<noteq> 0"
    and rt: "rt = \<lparr>rt_state = RuntimeStopped, rt_admission = a, rt_max_queued_deltas = rc_max_queued_deltas c,
          rt_max_queued_tokens = rc_max_queued_tokens c, rt_slo_policy = policy, rt_mailboxes = []\<rparr>"
    using assms unfolding GenerationRuntime_init_def rbind_Inr guard_Inr by blast
  have "\<not> ad_accepting a"
    using a by (auto simp: AdmissionController_init_def split: if_splits)
  then show "runtime_inv rt" "ad_config (rt_admission rt) = rc_admission c"
    using init_accounts [OF a] caps by (simp_all add: rt runtime_inv_def leases_of_def)
qed

subsection \<open>The SLO policy\<close>

text \<open>A request that both admissions let through is within the objective by a bucket that covers it.\<close>

lemma slo_admits:
  assumes "fst (slo_evaluate p n (admission_snapshot a))" and "active_size a < max_active_requests (ad_config a)"
  shows "\<exists>e\<in>set (sl_entries p). covers n (active_size a + 1) e \<and>
    float_le (double_add (pe_predicted_ttft_p95_ms e) (sl_safety_margin_ms p)) (sl_ttft_slo_ms p)"
  using assms
  by (auto simp: slo_evaluate_def admission_snapshot_def find_Some_iff split: if_splits option.splits)

lemma bucket_insert_set [simp]: "set (bucket_insert e es) = insert e (set es)"
  by (induction es) auto

lemma bucket_sort_set [simp]: "set (bucket_sort es) = set es"
  by (induction es) (simp_all add: bucket_sort_def)

section \<open>Properties\<close>

lemma submit_within_slo:
  assumes "runtime_submit to_string now b request rt = ((st, Some m), rt')" and "rt_slo_policy rt = Some p"
  shows "\<exists>e\<in>set (sl_entries p). covers (vector_size (rr_input_token_ids request)) (active_size (rt_admission rt) + 1) e \<and>
    float_le (double_add (pe_predicted_ttft_p95_ms e) (sl_safety_margin_ms p)) (sl_ttft_slo_ms p)"
proof (rule slo_admits)
  note acc = acquire_accepted [OF submit_accepted [OF assms(1)]]
  show "fst (slo_evaluate p (vector_size (rr_input_token_ids request)) (admission_snapshot (rt_admission rt)))"
    using acc(3) assms(2) by (auto simp: soft_admission_def sloPolicyFailure_def split: prod.splits if_splits)
  show "active_size (rt_admission rt) < max_active_requests (ad_config (rt_admission rt))"
    by (rule tryAcquire_admitted(4) [OF acc(5)]) (simp add: admitted_def)
qed


definition sample_runtime_config :: RuntimeConfig where
  "sample_runtime_config =
     \<lparr>rc_admission = sample_admission_config, rc_max_queued_deltas = 16, rc_max_queued_tokens = 256,
      rc_slo_policy = None\<rparr>"

definition sample_runtime :: Runtime where
  "sample_runtime =
     \<lparr>rt_state = RuntimeStopped, rt_admission = sample_admission, rt_max_queued_deltas = 16,
      rt_max_queued_tokens = 256, rt_slo_policy = None, rt_mailboxes = []\<rparr>"

definition sample_runtime_request :: RuntimeRequest where
  "sample_runtime_request =
     \<lparr>rr_request_id = 3, rr_deadline = Some 10, rr_input_token_ids = [1, 2], rr_max_new_tokens = 4\<rparr>"

text \<open>The first submission is refused by the backend, the second one is accepted.\<close>

definition sample_runtime_ops :: "runtime_op list" where
  "sample_runtime_ops =
     [StartRuntime (BackendStatus (Status_make ''ok'' [])),
      SubmitRuntime 5 (BackendThrows None) sample_runtime_request,
      SubmitRuntime 5 (BackendStatus (Status_make ''ok'' [])) sample_runtime_request]"


end
