(* ===== verification/Spec2Isabelle.thy ===== *)
theory Spec2Isabelle
  imports Client_System Session_Text Gateway_Flow Cli Worker_Decode Worker_Frames Exchange Worker_Bridge Worker_Runtime
begin

text \<open>
  A verification library for the Python part of kim-llm-serving: the IPC client
  (\<open>src/clients/python/kim_llm_client\<close>) and the OpenAI-compatible HTTP Gateway
  (\<open>src/gateway/python/kim_llm_gateway\<close>), with the two peers they talk to as far as the
  repository defines them: the Worker's end of the wire protocol (\<open>src/src/ipc/ipc_protocol.cpp\<close>),
  the way of a request through the Worker (\<open>src/src/runtime\<close>, \<open>src/src/worker\<close>), and
  the HTTP client of the benchmark (\<open>src/benchmark/http_benchmark_core.py\<close>).

  \<^bold>\<open>The program.\<close> The Gateway reads a configuration (\<open>config.py\<close>), loads a tokenizer
  (\<open>tokenizer.py\<close>), and serves chat completions over HTTP (\<open>api.py\<close>, formats in
  \<open>openai.py\<close>). Its service (\<open>runtime.py\<close>) checks and tokenizes a request and hands it to the
  \<open>GenerationClient\<close> (\<open>generation_client.py\<close>), which talks to a Worker process over a Unix
  socket with length-prefixed JSON frames (\<open>protocol.py\<close>). A reader thread of the client
  dispatches the Worker's messages into one event buffer per request; a pump task of the
  Gateway session takes them out, decodes the tokens to text and puts it into a second
  bounded buffer, from which the HTTP response is collected or streamed.

  \<^bold>\<open>Theories\<close>, from the bottom up:

  \<^item> \<open>Prelude\<close>: results (\<open>error + value\<close>), dictionaries as association lists, decimal
    printing, and the collections \<open>result_simps\<close>, \<open>dict_simps\<close> and \<open>raises_intros\<close>.
  \<^item> \<open>Py_Values\<close>: JSON values, binary64 floats as rationals with correct rounding,
    exceptions and their subclass tests. \<open>Json_Text\<close>: what \<open>json.dumps\<close> writes, and that
    rendered strings and integers are self-delimiting. \<open>Json_Parse\<close>, \<open>Json_Parse_Props\<close>: the scanner
    of \<open>json.loads\<close>, and that it reads back what \<open>json.dumps\<close> writes, the law of the locale
    \<open>json_reader\<close>.
  \<^item> \<open>Protocol\<close>: the records, decoders, validators and encoders of \<open>protocol.py\<close>. \<open>Wire\<close>: the
    Worker's validation and rendering of the messages it sends (\<open>src/src/ipc/ipc_protocol.cpp\<close>);
    round trip and soundness of the client's decoder against it. \<open>Worker_Decode\<close>: how the Worker
    reads and validates the client's messages, with the C++ integer types as words; the two
    validations of a request agree and every client message arrives as it was sent.
  \<^item> \<open>Framing\<close>: \<open>encode_frame\<close>, \<open>_receive_frame\<close>, \<open>_receive_exact\<close> over a chunked stream.
    \<open>Worker_Frames\<close>: the Worker's frame encoder and incremental decoder, on the same frames.
  \<^item> \<open>Terminal_Stream\<close>: the contract of a bounded buffer that ends in one terminal, as a
    locale. \<open>Event_Buffer\<close> interprets it for \<open>_EventBuffer\<close> and models \<open>GenerationHandle\<close>;
    \<open>Async_Buffer\<close> interprets it for \<open>_AsyncEventBuffer\<close>.
  \<^item> \<open>Client\<close> and \<open>Client_Reader\<close>: \<open>GenerationClient\<close>. \<open>Client_Inv\<close>: its invariant, kept by
    every operation. \<open>Client_Settle\<close>: the outcomes of failing, connecting, submitting and
    reading. \<open>Client_System\<close>: the step relation of all threads, its invariant by rule
    induction, and what it gives to a handle. \<open>Client_Samples\<close>: concrete clients.
  \<^item> \<open>Metrics\<close>, \<open>Session\<close>: \<open>GatewayMetrics\<close>, the incremental decoder and \<open>GatewaySession\<close>.
    \<open>Session_Text\<close> and \<open>Delivery\<close>: the text a session's consumer receives.
  \<^item> \<open>Tokenizer\<close>: \<open>tokenizer.py\<close>, with the contract the service relies on as a locale.
  \<^item> \<open>Service\<close>: \<open>GatewayService\<close>. \<open>Service_Inv\<close>: its invariant and the contract of the client
    and tokenizer it uses. \<open>Gateway_System\<close>: the contract discharged for the verified client
    and the tokenizer wrapper, and the step relation of all tasks. \<open>Gateway_Props\<close> and
    \<open>Gateway_Flow\<close>: accounting, submission, shutdown, request ids.
  \<^item> \<open>OpenAI\<close>, \<open>OpenAI_Props\<close>: the request parser, the response documents, SSE.
  \<^item> \<open>Config\<close>, \<open>Config_Props\<close>: \<open>config.py\<close> and \<open>build_gateway_service\<close>. \<open>Cli\<close>: \<open>__main__.py\<close> and
    \<open>HuggingFaceTokenizer.load\<close>.
  \<^item> \<open>Api\<close>: the endpoints and response loops of \<open>api.py\<close>. \<open>Api_Props\<close>, \<open>Request_Path\<close> and
    \<open>Endpoint_Props\<close>: what a response delivers, and a request's way from the body to the Worker.
  \<^item> \<open>Sse_Client\<close>: \<open>OpenAiSseClient\<close> of the benchmark, its request body and its reading of the event
    stream. \<open>Exchange\<close>: the client against the chat endpoint, from the request to the result.

  \<^item> The C++ Worker, with its integers as words. \<open>Worker_Admission\<close>: the admission controller and
    its leases. \<open>Worker_Request\<close>: the mailbox and the state machine of one request.
    \<open>Worker_Runtime\<close>: \<open>GenerationRuntime\<close> and the SLO policy over them. \<open>Worker_Egress\<close>: the outgoing
    queue of a session. \<open>Worker_Bridge\<close>: the pump of a request between mailbox and queue, and the
    whole path from the backend to the Python client's dispatcher.

  \<^bold>\<open>Conventions.\<close> An operation that may raise returns a sum, \<open>Inl\<close> the exception. Objects with
  identity (request states, probe queues, sessions) live in lists and are named by their
  index; an operation takes and returns the record of its component. A Python string is the
  list of its UTF-8 bytes as characters; integers are unbounded as in Python, with the
  explicit ranges of the protocol. Locks: the body of a critical section is one function, and
  in the step relations the code after it is a separate step. A waiting loop is given as one
  look (\<open>eb_get\<close>, \<open>ab_get\<close>, \<open>submit_poll\<close>, with a flag that says whether the deadline has
  passed) or run over a list of rounds that describe what each look finds (\<open>collect\<close>, the
  response loops); the lists are arbitrary, so no bound is imposed, and the theorems that say a
  loop returns say how many rounds are enough. The reader loop is a total function: each round
  consumes bytes of the stream.

  \<^bold>\<open>Parameters\<close> stand for code that is not in the repository: \<open>loads\<close> (the JSON parser, any
  function from bytes to a value or a failure; \<open>json_loads\<close> is Python's),
  \<open>parse\<close> and \<open>dump\<close> (the C++ JSON library), the answers of the Worker's backend, \<open>frepr\<close> and \<open>srepr\<close> (\<open>repr\<close> of floats and strings),
  \<open>sendall\<close> and the connection environment (the kernel), \<open>sha256\<close>, the methods of the Hugging
  Face tokenizer, the file system, and \<open>others\<close> (what other threads or tasks do while a call
  waits). The only hypotheses on them are stated in the theorems that use them.

  \<^bold>\<open>What is shown.\<close> Every handle gets its deltas in order and exactly one terminal, in every
  interleaving and also when the connection fails at any point; messages and frames round
  trip between Worker and client in both directions, both ends accept the same requests, and
  nothing ill-formed is accepted; the Gateway's counters,
  gauges and session table are exact in every interleaving; a completed response in which
  nothing was dropped carries exactly the decoded text, both kinds of response agree, and the
  HTTP client of the repository reports what was delivered; the Worker writes for every request a
  stream that the Python client accepts, keeps its budgets exact on 64-bit counters and always has
  room for a terminal; the
  checks of the HTTP layer, the service, the client and the Worker are consistent; loading,
  starting and stopping leave well-formed states; and each operation raises only the
  exceptions listed. Three theorems record where the code falls short: text can be missing from
  a response that ends successfully, a reader can see a gap after an overflow, and an integer
  beyond the float range escapes the request parser.

  \<^bold>\<open>Not modelled.\<close> Of the C++ Worker its server, its transport, its message handlers and the
  TensorRT-LLM backend; FastAPI,
  uvicorn and argparse, logging, the load generation and reports of the benchmark scripts, and real time: a timeout is an event that
  may happen at any look. Fairness of the schedulers is not assumed, so the theorems on ending
  say that the next step of the responsible task answers everyone, not when it runs.
\<close>

end
